theory Spec2Isabelle
  imports Complex_Main "HOL-Library.Word" "HOL-Library.AList"
begin

section \<open>Configuration (config.js)\<close>

text \<open>
  Block tags are the bytes stored in a chunk's \<^verbatim>\<open>Uint8Array\<close>.
\<close>

type_synonym block = "8 word"

definition AIR :: block where "AIR = 0"
definition GRASS :: block where "GRASS = 1"
definition DIRT :: block where "DIRT = 2"
definition STONE :: block where "STONE = 3"
definition WOOD :: block where "WOOD = 4"
definition LEAVES :: block where "LEAVES = 5"

record BlockProps =
  solid :: bool
  transparent :: bool
  color :: nat
  topColor :: "nat option"
  bottomColor :: "nat option"

text \<open>
  \<^verbatim>\<open>BlockProperties[blockType]\<close>: an object for the six known tags,
  \<^verbatim>\<open>undefined\<close> (here \<open>None\<close>) for every other key. The display name is left out.
\<close>

definition BlockProperties :: "block \<Rightarrow> BlockProps option" where
  "BlockProperties b =
     (if b = AIR then Some \<lparr>solid = False, transparent = True, color = 0x000000,
                             topColor = None, bottomColor = None\<rparr>
      else if b = GRASS then Some \<lparr>solid = True, transparent = False, color = 0x6B8E23,
                             topColor = Some 0x7EC850, bottomColor = Some 0x8B7355\<rparr>
      else if b = DIRT then Some \<lparr>solid = True, transparent = False, color = 0x8B7355,
                             topColor = None, bottomColor = None\<rparr>
      else if b = STONE then Some \<lparr>solid = True, transparent = False, color = 0x808080,
                             topColor = None, bottomColor = None\<rparr>
      else if b = WOOD then Some \<lparr>solid = True, transparent = False, color = 0x8B4513,
                             topColor = None, bottomColor = None\<rparr>
      else if b = LEAVES then Some \<lparr>solid = True, transparent = False, color = 0x228B22,
                             topColor = None, bottomColor = None\<rparr>
      else None)"

definition CHUNK_SIZE :: int where "CHUNK_SIZE = 16"
definition CHUNK_HEIGHT :: int where "CHUNK_HEIGHT = 64"
definition RENDER_DISTANCE :: int where "RENDER_DISTANCE = 4"

text \<open>\<^verbatim>\<open>TERRAIN_PARAMS\<close> and \<^verbatim>\<open>PLAYER_CONFIG\<close>; JavaScript numbers are read as reals.\<close>

definition scale :: real where "scale = 5 / 100"
definition octaves :: nat where "octaves = 4"
definition persistence :: real where "persistence = 1 / 2"
definition lacunarity :: real where "lacunarity = 2"
definition heightMultiplier :: real where "heightMultiplier = 20"
definition baseHeight :: real where "baseHeight = 20"
definition treeChance :: real where "treeChance = 1 / 100"

definition player_height :: real where "player_height = 18 / 10"
definition player_radius :: real where "player_radius = 4 / 10"
definition player_reach :: real where "player_reach = 5"

section \<open>Chunk (world/Chunk.js)\<close>

text \<open>
  The mesh descriptor handed to the renderer: the three buffers built by
  \<^verbatim>\<open>generateMesh\<close>. The colour buffer keeps, per vertex, the hex colour given to
  \<^verbatim>\<open>THREE.Color\<close> (its split into channels belongs to the rendering library).
\<close>

record Mesh =
  vertices :: "int list"
  colors :: "nat list"
  indices :: "nat list"

record Chunk =
  chunkX :: int
  chunkZ :: int
  blocks :: "block list"
  mesh :: "Mesh option"
  dirty :: bool

text \<open>The constructor: a zero-filled byte array, no mesh, dirty.\<close>

definition newChunk :: "int \<Rightarrow> int \<Rightarrow> Chunk" where
  "newChunk cx cz =
     \<lparr>chunkX = cx, chunkZ = cz,
      blocks = replicate (nat (CHUNK_SIZE * CHUNK_HEIGHT * CHUNK_SIZE)) 0,
      mesh = None, dirty = True\<rparr>"

definition getBlockIndex :: "int \<Rightarrow> int \<Rightarrow> int \<Rightarrow> int" where
  "getBlockIndex x y z = x + z * CHUNK_SIZE + y * CHUNK_SIZE * CHUNK_SIZE"

text \<open>
  Reading a typed array beyond its length gives \<^verbatim>\<open>undefined\<close> (\<open>None\<close>);
  writing beyond its length is ignored.
\<close>

definition typedArrayGet :: "block list \<Rightarrow> int \<Rightarrow> block option" where
  "typedArrayGet xs i = (if 0 \<le> i \<and> nat i < length xs then Some (xs ! nat i) else None)"

definition typedArraySet :: "block list \<Rightarrow> int \<Rightarrow> block \<Rightarrow> block list" where
  "typedArraySet xs i v = (if 0 \<le> i \<and> nat i < length xs then xs[nat i := v] else xs)"

definition Chunk_getBlock :: "Chunk \<Rightarrow> int \<Rightarrow> int \<Rightarrow> int \<Rightarrow> block option" where
  "Chunk_getBlock c x y z =
     (if x < 0 \<or> x \<ge> CHUNK_SIZE \<or> y < 0 \<or> y \<ge> CHUNK_HEIGHT \<or> z < 0 \<or> z \<ge> CHUNK_SIZE
      then Some AIR
      else typedArrayGet (blocks c) (getBlockIndex x y z))"

definition Chunk_setBlock :: "Chunk \<Rightarrow> int \<Rightarrow> int \<Rightarrow> int \<Rightarrow> block \<Rightarrow> Chunk" where
  "Chunk_setBlock c x y z blockType =
     (if x < 0 \<or> x \<ge> CHUNK_SIZE \<or> y < 0 \<or> y \<ge> CHUNK_HEIGHT \<or> z < 0 \<or> z \<ge> CHUNK_SIZE
      then c
      else c\<lparr>blocks := typedArraySet (blocks c) (getBlockIndex x y z) blockType,
             dirty := True\<rparr>)"

section \<open>World: the chunk map and block reads (world/World.js)\<close>

text \<open>
  The \<^verbatim>\<open>Map\<close> from the key \<^verbatim>\<open>"chunkX,chunkZ"\<close> to the chunk keeps insertion
  order, which \<^verbatim>\<open>serialize\<close> follows: an association list keyed by the coordinate pair.
  \<^verbatim>\<open>Map.set\<close> is \<^const>\<open>AList.update\<close>: an existing key keeps its place, a new one
  goes last.
\<close>

record World =
  seed :: int
  chunks :: "((int \<times> int) \<times> Chunk) list"

definition getChunk :: "World \<Rightarrow> int \<Rightarrow> int \<Rightarrow> Chunk option" where
  "getChunk w cx cz = map_of (chunks w) (cx, cz)"

definition World_getBlock :: "World \<Rightarrow> int \<Rightarrow> int \<Rightarrow> int \<Rightarrow> block option" where
  "World_getBlock w x y z =
     (if y < 0 \<or> y \<ge> CHUNK_HEIGHT then Some AIR
      else
        let cx = x div CHUNK_SIZE; cz = z div CHUNK_SIZE in
        case getChunk w cx cz of
          None \<Rightarrow> Some AIR
        | Some chunk \<Rightarrow> Chunk_getBlock chunk (x - cx * CHUNK_SIZE) y (z - cz * CHUNK_SIZE))"

section \<open>Mesh rebuilding (Chunk.generateMesh)\<close>

datatype error = TypeError | RangeError

text \<open>
  \<^verbatim>\<open>shouldRenderFace\<close>: the neighbour is looked up through the world when its local
  \<open>x\<close> or \<open>z\<close> leaves the chunk, in the chunk itself otherwise. The comparison
  \<^verbatim>\<open>=== BlockType.AIR\<close> is false for \<^verbatim>\<open>undefined\<close>.
\<close>

definition shouldRenderFace ::
  "World \<Rightarrow> Chunk \<Rightarrow> int \<Rightarrow> int \<Rightarrow> int \<Rightarrow> int \<times> int \<times> int \<Rightarrow> bool" where
  "shouldRenderFace w c x y z d =
     (case d of (dx, dy, dz) \<Rightarrow>
        let nx = x + dx; ny = y + dy; nz = z + dz in
        if nx < 0 \<or> nx \<ge> CHUNK_SIZE \<or> nz < 0 \<or> nz \<ge> CHUNK_SIZE
        then World_getBlock w (chunkX c * CHUNK_SIZE + nx) ny (chunkZ c * CHUNK_SIZE + nz) = Some AIR
        else Chunk_getBlock c nx ny nz = Some AIR)"

record Face =
  dir :: "int \<times> int \<times> int"
  corners :: "(int \<times> int \<times> int) list"
  faceColor :: nat

text \<open>\<^verbatim>\<open>a || b\<close> on an optional colour: \<^verbatim>\<open>undefined\<close> and \<open>0\<close> are falsy.\<close>

definition orColor :: "nat option \<Rightarrow> nat \<Rightarrow> nat" where
  "orColor a b = (case a of None \<Rightarrow> b | Some v \<Rightarrow> if v = 0 then b else v)"

definition faces :: "BlockProps \<Rightarrow> Face list" where
  "faces props =
     [\<lparr>dir = (0, 1, 0), corners = [(0,1,0), (1,1,0), (1,1,1), (0,1,1)],
        faceColor = orColor (topColor props) (color props)\<rparr>,
      \<lparr>dir = (0, -1, 0), corners = [(0,0,1), (1,0,1), (1,0,0), (0,0,0)],
        faceColor = orColor (bottomColor props) (color props)\<rparr>,
      \<lparr>dir = (0, 0, 1), corners = [(0,0,1), (0,1,1), (1,1,1), (1,0,1)], faceColor = color props\<rparr>,
      \<lparr>dir = (0, 0, -1), corners = [(1,0,0), (1,1,0), (0,1,0), (0,0,0)], faceColor = color props\<rparr>,
      \<lparr>dir = (1, 0, 0), corners = [(1,0,1), (1,1,1), (1,1,0), (1,0,0)], faceColor = color props\<rparr>,
      \<lparr>dir = (-1, 0, 0), corners = [(0,0,0), (0,1,0), (0,1,1), (0,0,1)], faceColor = color props\<rparr>]"

text \<open>The buffers \<^verbatim>\<open>vertices\<close>, \<^verbatim>\<open>colors\<close>, \<^verbatim>\<open>indices\<close> and the counter.\<close>

record MeshBuf =
  bufVertices :: "int list"
  bufColors :: "nat list"
  bufIndices :: "nat list"
  vertexCount :: nat

definition emptyBuf :: MeshBuf where
  "emptyBuf = \<lparr>bufVertices = [], bufColors = [], bufIndices = [], vertexCount = 0\<rparr>"

definition quadVertices :: "int \<Rightarrow> int \<Rightarrow> int \<Rightarrow> Face \<Rightarrow> int list" where
  "quadVertices worldX y worldZ face =
     concat (map (\<lambda>(v0, v1, v2). [worldX + v0, y + v1, worldZ + v2]) (corners face))"

definition quadIndices :: "nat \<Rightarrow> nat list" where
  "quadIndices vc = [vc, vc + 1, vc + 2, vc, vc + 2, vc + 3]"

definition emitFace :: "MeshBuf \<Rightarrow> int \<Rightarrow> int \<Rightarrow> int \<Rightarrow> Face \<Rightarrow> MeshBuf" where
  "emitFace buf worldX y worldZ face =
     \<lparr>bufVertices = bufVertices buf @ quadVertices worldX y worldZ face,
      bufColors = bufColors buf @ map (\<lambda>v. faceColor face) (corners face),
      bufIndices = bufIndices buf @ quadIndices (vertexCount buf),
      vertexCount = vertexCount buf + 4\<rparr>"

fun meshFaces ::
  "World \<Rightarrow> Chunk \<Rightarrow> int \<Rightarrow> int \<Rightarrow> int \<Rightarrow> Face list \<Rightarrow> MeshBuf \<Rightarrow> MeshBuf" where
  "meshFaces w c x y z [] buf = buf"
| "meshFaces w c x y z (face # fs) buf =
     meshFaces w c x y z fs
       (if shouldRenderFace w c x y z (dir face)
        then emitFace buf (chunkX c * CHUNK_SIZE + x) y (chunkZ c * CHUNK_SIZE + z) face
        else buf)"

text \<open>
  The body of the innermost loop. A stored tag with no entry in \<^verbatim>\<open>BlockProperties\<close>
  (or an \<^verbatim>\<open>undefined\<close> read) makes \<^verbatim>\<open>props.topColor\<close> throw.
\<close>

definition meshBlock :: "World \<Rightarrow> Chunk \<Rightarrow> MeshBuf \<Rightarrow> int \<Rightarrow> int \<Rightarrow> int \<Rightarrow> error + MeshBuf" where
  "meshBlock w c buf x y z =
     (let blockType = Chunk_getBlock c x y z in
      if blockType = Some AIR then Inr buf
      else case blockType of
             None \<Rightarrow> Inl TypeError
           | Some b \<Rightarrow>
               (case BlockProperties b of
                  None \<Rightarrow> Inl TypeError
                | Some props \<Rightarrow> Inr (meshFaces w c x y z (faces props) buf)))"

text \<open>A \<^verbatim>\<open>for\<close> loop over a range whose body may throw.\<close>

fun forEach :: "'a list \<Rightarrow> ('s \<Rightarrow> 'a \<Rightarrow> error + 's) \<Rightarrow> 's \<Rightarrow> error + 's" where
  "forEach [] body s = Inr s"
| "forEach (a # as) body s =
     (case body s a of Inl e \<Rightarrow> Inl e | Inr s' \<Rightarrow> forEach as body s')"

definition meshLoop :: "World \<Rightarrow> Chunk \<Rightarrow> error + MeshBuf" where
  "meshLoop w c =
     forEach [0..CHUNK_HEIGHT - 1] (\<lambda>buf y.
       forEach [0..CHUNK_SIZE - 1] (\<lambda>buf z.
         forEach [0..CHUNK_SIZE - 1] (\<lambda>buf x. meshBlock w c buf x y z) buf) buf) emptyBuf"

text \<open>
  \<^verbatim>\<open>generateMesh\<close>. Releasing the old mesh and adding the new one to the scene are
  calls into the renderer and leave the chunk's own fields as they are; with no vertex
  the \<^verbatim>\<open>mesh\<close> field keeps its old value.
\<close>

definition generateMesh :: "World \<Rightarrow> Chunk \<Rightarrow> error + Chunk" where
  "generateMesh w c =
     (if \<not> dirty c then Inr c
      else case meshLoop w c of
             Inl e \<Rightarrow> Inl e
           | Inr buf \<Rightarrow>
               if length (bufVertices buf) = 0 then Inr (c\<lparr>dirty := False\<rparr>)
               else Inr (c\<lparr>mesh := Some \<lparr>vertices = bufVertices buf, colors = bufColors buf,
                                          indices = bufIndices buf\<rparr>,
                           dirty := False\<rparr>))"

text \<open>
  A chunk as the constructor, terrain generation and block edits leave it: the full
  \<open>16 \<times> 64 \<times> 16\<close> bytes, each one of the six known tags.
\<close>

definition knownBlocks :: "Chunk \<Rightarrow> bool" where
  "knownBlocks c \<longleftrightarrow>
     length (blocks c) = nat (CHUNK_SIZE * CHUNK_HEIGHT * CHUNK_SIZE)
     \<and> (\<forall>b \<in> set (blocks c). BlockProperties b \<noteq> None)"

section \<open>Serialization (Chunk.serialize, World.serialize and their inverses)\<close>

text \<open>
  The saved format: \<^verbatim>\<open>Array.from(this.blocks)\<close> is an array of numbers, read back by
  \<^verbatim>\<open>new Uint8Array(data.blocks)\<close>, which reduces each number modulo 256.
\<close>

record ChunkData =
  dataChunkX :: int
  dataChunkZ :: int
  dataBlocks :: "int list"

record WorldData =
  dataSeed :: int
  dataChunks :: "ChunkData list"

definition Chunk_serialize :: "Chunk \<Rightarrow> ChunkData" where
  "Chunk_serialize c =
     \<lparr>dataChunkX = chunkX c, dataChunkZ = chunkZ c, dataBlocks = map uint (blocks c)\<rparr>"

definition Chunk_deserialize :: "Chunk \<Rightarrow> ChunkData \<Rightarrow> Chunk" where
  "Chunk_deserialize c data = c\<lparr>blocks := map word_of_int (dataBlocks data), dirty := True\<rparr>"

definition World_serialize :: "World \<Rightarrow> WorldData" where
  "World_serialize w =
     \<lparr>dataSeed = seed w, dataChunks = map (\<lambda>(key, chunk). Chunk_serialize chunk) (chunks w)\<rparr>"

text \<open>
  \<^verbatim>\<open>World.deserialize\<close>: the seed is replaced (and with it the noise generator, a
  function of the seed), the resident chunks are disposed and the map cleared, then each
  saved chunk is constructed, filled and stored under its own coordinates.
\<close>

definition loadChunk :: "ChunkData \<Rightarrow> World \<Rightarrow> World" where
  "loadChunk chunkData w =
     (let chunk = Chunk_deserialize (newChunk (dataChunkX chunkData) (dataChunkZ chunkData)) chunkData
      in w\<lparr>chunks := AList.update (chunkX chunk, chunkZ chunk) chunk (chunks w)\<rparr>)"

definition World_deserialize :: "World \<Rightarrow> WorldData \<Rightarrow> World" where
  "World_deserialize w data =
     fold loadChunk (dataChunks data) (w\<lparr>seed := dataSeed data, chunks := []\<rparr>)"

text \<open>
  The map as the program keeps it: one entry per key, each chunk stored under its own
  coordinates.
\<close>

definition keyedByCoordinates :: "World \<Rightarrow> bool" where
  "keyedByCoordinates w \<longleftrightarrow>
     distinct (map fst (chunks w))
     \<and> (\<forall>(key, chunk) \<in> set (chunks w). key = (chunkX chunk, chunkZ chunk))"

definition restored :: "Chunk \<Rightarrow> Chunk" where
  "restored c = \<lparr>chunkX = chunkX c, chunkZ = chunkZ c, blocks = blocks c, mesh = None, dirty = True\<rparr>"

section \<open>Terrain generation and block writes (world/World.js)\<close>

text \<open>
  What the world calls but does not own. \<^verbatim>\<open>utils/NoiseGenerator.js\<close> is not among the
  sources: \<open>octaveNoise2D env seed x y octaves persistence lacunarity\<close> stands for
  \<^verbatim>\<open>new NoiseGenerator(seed).octaveNoise2D(x, y, octaves, persistence, lacunarity)\<close>.
  \<open>mathRandom env k\<close> is the value of the \<open>k\<close>-th call of \<^verbatim>\<open>Math.random()\<close>;
  the number of calls made so far travels with the world.
\<close>

record Env =
  octaveNoise2D :: "int \<Rightarrow> real \<Rightarrow> real \<Rightarrow> nat \<Rightarrow> real \<Rightarrow> real \<Rightarrow> real"
  mathRandom :: "nat \<Rightarrow> real"

type_synonym state = "World \<times> nat"

type_synonym setter = "state \<Rightarrow> int \<Rightarrow> int \<Rightarrow> int \<Rightarrow> block \<Rightarrow> error + (bool \<times> state)"

definition storeChunk :: "World \<Rightarrow> int \<times> int \<Rightarrow> Chunk \<Rightarrow> World" where
  "storeChunk w key chunk = w\<lparr>chunks := AList.update key chunk (chunks w)\<rparr>"

definition columnHeight :: "Env \<Rightarrow> World \<Rightarrow> int \<Rightarrow> int \<Rightarrow> int" where
  "columnHeight env w worldX worldZ =
     (let noiseValue = octaveNoise2D env (seed w) (of_int worldX * scale) (of_int worldZ * scale)
                         octaves persistence lacunarity
      in max 0 \<lfloor>baseHeight + noiseValue * heightMultiplier\<rfloor>)"

definition columnBlock :: "int \<Rightarrow> int \<Rightarrow> block" where
  "columnBlock y height =
     (if y = height - 1 then GRASS else if y \<ge> height - 4 then DIRT else STONE)"

text \<open>The loop \<^verbatim>\<open>for (let y = 0; y < height && y < CHUNK_HEIGHT; y++)\<close>, from \<open>y\<close> on.\<close>

function placeBlocks :: "Chunk \<Rightarrow> int \<Rightarrow> int \<Rightarrow> int \<Rightarrow> int \<Rightarrow> Chunk" where
  "placeBlocks chunk x z height y =
     (if y < height \<and> y < CHUNK_HEIGHT
      then placeBlocks (Chunk_setBlock chunk x y z (columnBlock y height)) x z height (y + 1)
      else chunk)"
  by pat_completeness auto
termination
  by (relation "measure (\<lambda>(chunk, x, z, height, y). nat (CHUNK_HEIGHT - y))") auto

declare placeBlocks.simps [simp del]

text \<open>A call of \<^verbatim>\<open>this.setBlock\<close> whose result is dropped.\<close>

definition callSetBlock :: "setter \<Rightarrow> state \<Rightarrow> int \<Rightarrow> int \<Rightarrow> int \<Rightarrow> block \<Rightarrow> error + state" where
  "callSetBlock setBlock st x y z blockType =
     (case setBlock st x y z blockType of Inl e \<Rightarrow> Inl e | Inr (r, st') \<Rightarrow> Inr st')"

definition placeLeaf :: "setter \<Rightarrow> int \<Rightarrow> int \<Rightarrow> int \<Rightarrow> int \<Rightarrow> int \<Rightarrow> state \<Rightarrow> int \<Rightarrow> error + state" where
  "placeLeaf setBlock x leafStart z dy dx st dz =
     (if dx = 0 \<and> dz = 0 \<and> dy < 3 then Inr st
      else
        let dist = sqrt (of_int (dx * dx + dz * dz) + of_int (dy * dy) * (5 / 10)) in
        if dist < 25 / 10 then callSetBlock setBlock st (x + dx) (leafStart + dy) (z + dz) LEAVES
        else Inr st)"

definition generateTree :: "setter \<Rightarrow> Env \<Rightarrow> state \<Rightarrow> int \<Rightarrow> int \<Rightarrow> int \<Rightarrow> error + state" where
  "generateTree setBlock env st x y z =
     (let trunkHeight = 4 + \<lfloor>mathRandom env (snd st) * 2\<rfloor> in
      case forEach [0..trunkHeight - 1]
             (\<lambda>st i. callSetBlock setBlock st x (y + i) z WOOD) (fst st, snd st + 1) of
        Inl e \<Rightarrow> Inl e
      | Inr st1 \<Rightarrow>
          let leafStart = y + trunkHeight - 1 in
          forEach [0..3] (\<lambda>st dy.
            forEach [-2..2] (\<lambda>st dx.
              forEach [-2..2] (placeLeaf setBlock x leafStart z dy dx) st) st) st1)"

text \<open>
  The body of the two column loops of \<^verbatim>\<open>generateChunkTerrain\<close> for the chunk stored under
  \<open>(cx, cz)\<close>: the height, the column fill, and the tree. \<^verbatim>\<open>Math.random()\<close> is called
  only when the height test before \<^verbatim>\<open>&&\<close> holds.
\<close>

definition generateColumn :: "setter \<Rightarrow> Env \<Rightarrow> int \<times> int \<Rightarrow> state \<Rightarrow> int \<Rightarrow> int \<Rightarrow> error + state" where
  "generateColumn setBlock env key st x z =
     (case st of (w, k) \<Rightarrow>
      case key of (cx, cz) \<Rightarrow>
        let worldX = cx * CHUNK_SIZE + x;
            worldZ = cz * CHUNK_SIZE + z;
            height = columnHeight env w worldX worldZ;
            w1 = (case getChunk w cx cz of
                    None \<Rightarrow> w
                  | Some chunk \<Rightarrow> storeChunk w key (placeBlocks chunk x z height 0))
        in if height < CHUNK_HEIGHT - 6
           then (if mathRandom env k < treeChance
                 then generateTree setBlock env (w1, k + 1) worldX height worldZ
                 else Inr (w1, k + 1))
           else Inr (w1, k))"

definition generateChunkTerrain :: "setter \<Rightarrow> Env \<Rightarrow> int \<times> int \<Rightarrow> state \<Rightarrow> error + state" where
  "generateChunkTerrain setBlock env key st =
     forEach [0..CHUNK_SIZE - 1] (\<lambda>st x.
       forEach [0..CHUNK_SIZE - 1] (\<lambda>st z. generateColumn setBlock env key st x z) st) st"

text \<open>
  \<^verbatim>\<open>getOrCreateChunk\<close>; the chunk it returns is the one stored under \<open>(cx, cz)\<close> in the
  resulting state.
\<close>

definition getOrCreateChunk :: "setter \<Rightarrow> Env \<Rightarrow> state \<Rightarrow> int \<Rightarrow> int \<Rightarrow> error + state" where
  "getOrCreateChunk setBlock env st cx cz =
     (case getChunk (fst st) cx cz of
        Some chunk \<Rightarrow> Inr st
      | None \<Rightarrow> generateChunkTerrain setBlock env (cx, cz)
                  (storeChunk (fst st) (cx, cz) (newChunk cx cz), snd st))"

definition markDirty :: "World \<Rightarrow> int \<Rightarrow> int \<Rightarrow> World" where
  "markDirty w cx cz =
     (case getChunk w cx cz of
        None \<Rightarrow> w
      | Some adjacentChunk \<Rightarrow> storeChunk w (cx, cz) (adjacentChunk\<lparr>dirty := True\<rparr>))"

text \<open>
  \<^verbatim>\<open>World.setBlock\<close>, with the \<^verbatim>\<open>setBlock\<close> that tree generation calls one level
  deeper as a parameter.
\<close>

definition setBlockBody :: "setter \<Rightarrow> Env \<Rightarrow> setter" where
  "setBlockBody setBlock env st x y z blockType =
     (if y < 0 \<or> y \<ge> CHUNK_HEIGHT then Inr (False, st)
      else
        let chunkX = x div CHUNK_SIZE; chunkZ = z div CHUNK_SIZE in
        case getOrCreateChunk setBlock env st chunkX chunkZ of
          Inl e \<Rightarrow> Inl e
        | Inr (w1, k1) \<Rightarrow>
            let localX = x - chunkX * CHUNK_SIZE;
                localZ = z - chunkZ * CHUNK_SIZE;
                w2 = (case getChunk w1 chunkX chunkZ of
                        None \<Rightarrow> w1
                      | Some chunk \<Rightarrow>
                          storeChunk w1 (chunkX, chunkZ) (Chunk_setBlock chunk localX y localZ blockType));
                w3 = (if localX = 0 then markDirty w2 (chunkX - 1) chunkZ else w2);
                w4 = (if localX = CHUNK_SIZE - 1 then markDirty w3 (chunkX + 1) chunkZ else w3);
                w5 = (if localZ = 0 then markDirty w4 chunkX (chunkZ - 1) else w4);
                w6 = (if localZ = CHUNK_SIZE - 1 then markDirty w5 chunkX (chunkZ + 1) else w5)
            in Inr (True, (w6, k1)))"

text \<open>
  \<^verbatim>\<open>setBlock\<close> creates a chunk, whose trees call \<^verbatim>\<open>setBlock\<close>, which may create a
  chunk: the recursion is as deep as the random source keeps placing trees that reach an
  absent chunk. The first argument bounds the depth of these nested calls; beyond it the
  call stack is exhausted.
\<close>

primrec World_setBlock :: "nat \<Rightarrow> Env \<Rightarrow> setter" where
  "World_setBlock 0 env = setBlockBody (\<lambda>st x y z blockType. Inl RangeError) env"
| "World_setBlock (Suc depth) env = setBlockBody (World_setBlock depth env) env"

definition World_getOrCreateChunk :: "nat \<Rightarrow> Env \<Rightarrow> state \<Rightarrow> int \<Rightarrow> int \<Rightarrow> error + state" where
  "World_getOrCreateChunk depth env = getOrCreateChunk (World_setBlock depth env) env"

section \<open>Vocabulary of the statements\<close>

text \<open>From the \<open>k\<close>-th call on, \<^verbatim>\<open>Math.random()\<close> never falls below the tree chance.\<close>

definition noTreesFrom :: "Env \<Rightarrow> nat \<Rightarrow> bool" where
  "noTreesFrom env k \<longleftrightarrow> (\<forall>n\<ge>k. treeChance \<le> mathRandom env n)"

text \<open>
  The part of \<^verbatim>\<open>World.setBlock\<close> after \<^verbatim>\<open>getOrCreateChunk\<close>: the write into the
  owning chunk and the four border tests.
\<close>

definition writeAndMark :: "World \<Rightarrow> int \<Rightarrow> int \<Rightarrow> int \<Rightarrow> block \<Rightarrow> World" where
  "writeAndMark w1 x y z blockType =
     (let chunkX = x div CHUNK_SIZE; chunkZ = z div CHUNK_SIZE;
          localX = x - chunkX * CHUNK_SIZE;
          localZ = z - chunkZ * CHUNK_SIZE;
          w2 = (case getChunk w1 chunkX chunkZ of
                  None \<Rightarrow> w1
                | Some chunk \<Rightarrow>
                    storeChunk w1 (chunkX, chunkZ) (Chunk_setBlock chunk localX y localZ blockType));
          w3 = (if localX = 0 then markDirty w2 (chunkX - 1) chunkZ else w2);
          w4 = (if localX = CHUNK_SIZE - 1 then markDirty w3 (chunkX + 1) chunkZ else w3);
          w5 = (if localZ = 0 then markDirty w4 chunkX (chunkZ - 1) else w4);
          w6 = (if localZ = CHUNK_SIZE - 1 then markDirty w5 chunkX (chunkZ + 1) else w5)
      in w6)"

text \<open>
  The neighbour chunks whose border the write at \<open>(x, z)\<close> touches.
\<close>

definition borderNeighbours :: "int \<Rightarrow> int \<Rightarrow> (int \<times> int) set" where
  "borderNeighbours x z =
     (let chunkX = x div CHUNK_SIZE; chunkZ = z div CHUNK_SIZE;
          localX = x - chunkX * CHUNK_SIZE;
          localZ = z - chunkZ * CHUNK_SIZE
      in (if localX = 0 then {(chunkX - 1, chunkZ)} else {})
       \<union> (if localX = CHUNK_SIZE - 1 then {(chunkX + 1, chunkZ)} else {})
       \<union> (if localZ = 0 then {(chunkX, chunkZ - 1)} else {})
       \<union> (if localZ = CHUNK_SIZE - 1 then {(chunkX, chunkZ + 1)} else {}))"

text \<open>Every chunk resident in the first state is resident in the second.\<close>

definition staysResident :: "state \<Rightarrow> state \<Rightarrow> bool" where
  "staysResident st st' \<longleftrightarrow>
     (\<forall>a c. getChunk (fst st) a c \<noteq> None \<longrightarrow> getChunk (fst st') a c \<noteq> None)"

definition keepsResident :: "setter \<Rightarrow> bool" where
  "keepsResident setBlock \<longleftrightarrow>
     (\<forall>st x y z b r st'. setBlock st x y z b = Inr (r, st') \<longrightarrow> staysResident st st')"

text \<open>
  Between two states, nothing but the chunk stored under \<open>key\<close> differs, that chunk is
  resident in the second, and the random source still places no tree.
\<close>

definition onlyChunk :: "Env \<Rightarrow> int \<times> int \<Rightarrow> state \<Rightarrow> state \<Rightarrow> bool" where
  "onlyChunk env key st st' \<longleftrightarrow>
     noTreesFrom env (snd st')
     \<and> seed (fst st') = seed (fst st)
     \<and> getChunk (fst st') (fst key) (snd key) \<noteq> None
     \<and> (\<forall>a c. (a, c) \<noteq> key \<longrightarrow> getChunk (fst st') a c = getChunk (fst st) a c)"

section \<open>Example inputs\<close>

text \<open>
  A noise generator that returns 0 everywhere (every column has height 20), with a random
  source that never places a tree, and with one whose first value places a tree.
\<close>

definition flatNoise :: "int \<Rightarrow> real \<Rightarrow> real \<Rightarrow> nat \<Rightarrow> real \<Rightarrow> real \<Rightarrow> real" where
  "flatNoise s x y n p l = 0"

definition quietEnv :: Env where
  "quietEnv = \<lparr>octaveNoise2D = flatNoise, mathRandom = (\<lambda>k. 1 / 2)\<rparr>"

definition treeEnv :: Env where
  "treeEnv = \<lparr>octaveNoise2D = flatNoise, mathRandom = (\<lambda>k. if k = 0 then 0 else 1 / 2)\<rparr>"

definition emptyWorld :: World where
  "emptyWorld = \<lparr>seed = 42, chunks = []\<rparr>"

definition freshWorld :: World where
  "freshWorld = \<lparr>seed = 42, chunks = [((0, 0), newChunk 0 0)]\<rparr>"

section \<open>Face culling, as the specification words it\<close>

text \<open>
  The cell next to a block: looked up in the chunk when it lies inside the chunk, through the
  world at world coordinates otherwise.
\<close>

definition neighbourBlock :: "World \<Rightarrow> Chunk \<Rightarrow> int \<Rightarrow> int \<Rightarrow> int \<Rightarrow> block option" where
  "neighbourBlock w c nx ny nz =
     (if 0 \<le> nx \<and> nx < CHUNK_SIZE \<and> 0 \<le> ny \<and> ny < CHUNK_HEIGHT \<and> 0 \<le> nz \<and> nz < CHUNK_SIZE
      then Chunk_getBlock c nx ny nz
      else World_getBlock w (chunkX c * CHUNK_SIZE + nx) ny (chunkZ c * CHUNK_SIZE + nz))"

definition exposed :: "World \<Rightarrow> Chunk \<Rightarrow> int \<Rightarrow> int \<Rightarrow> int \<Rightarrow> Face \<Rightarrow> bool" where
  "exposed w c x y z face =
     (case dir face of (dx, dy, dz) \<Rightarrow> neighbourBlock w c (x + dx) (y + dy) (z + dz) = Some AIR)"

text \<open>The faces a cell contributes: none for Air, the exposed ones of a known block.\<close>

definition exposedFaces :: "World \<Rightarrow> Chunk \<Rightarrow> int \<Rightarrow> int \<Rightarrow> int \<Rightarrow> Face list" where
  "exposedFaces w c x y z =
     (case Chunk_getBlock c x y z of
        None \<Rightarrow> []
      | Some b \<Rightarrow>
          if b = AIR then []
          else (case BlockProperties b of
                  None \<Rightarrow> []
                | Some props \<Rightarrow> filter (exposed w c x y z) (faces props)))"

text \<open>The quads of a chunk, cell by cell in the order of the three loops.\<close>

definition chunkQuads :: "World \<Rightarrow> Chunk \<Rightarrow> (int \<times> int \<times> int \<times> Face) list" where
  "chunkQuads w c =
     concat (map (\<lambda>y.
       concat (map (\<lambda>z.
         concat (map (\<lambda>x. map (\<lambda>face. (x, y, z, face)) (exposedFaces w c x y z))
           [0..CHUNK_SIZE - 1]))
         [0..CHUNK_SIZE - 1]))
       [0..CHUNK_HEIGHT - 1])"

text \<open>
  The buffers that hold one quad per listed face: four corners of three coordinates each,
  four colour entries, and two triangles over the quad's four consecutive vertex numbers.
\<close>

definition quadsMesh :: "Chunk \<Rightarrow> (int \<times> int \<times> int \<times> Face) list \<Rightarrow> MeshBuf" where
  "quadsMesh c qs =
     \<lparr>bufVertices = concat (map (\<lambda>(x, y, z, face).
          quadVertices (chunkX c * CHUNK_SIZE + x) y (chunkZ c * CHUNK_SIZE + z) face) qs),
      bufColors = concat (map (\<lambda>(x, y, z, face). map (\<lambda>v. faceColor face) (corners face)) qs),
      bufIndices = concat (map (\<lambda>i. quadIndices (4 * i)) [0..<length qs]),
      vertexCount = 4 * length qs\<rparr>"

definition appendQuads :: "Chunk \<Rightarrow> MeshBuf \<Rightarrow> (int \<times> int \<times> int \<times> Face) list \<Rightarrow> MeshBuf" where
  "appendQuads c buf qs =
     foldl (\<lambda>buf (x, y, z, face).
              emitFace buf (chunkX c * CHUNK_SIZE + x) y (chunkZ c * CHUNK_SIZE + z) face) buf qs"

text \<open>A chunk holding one Stone block, alone in its world.\<close>

definition oneBlockChunk :: Chunk where
  "oneBlockChunk = Chunk_setBlock (newChunk 0 0) 5 10 5 STONE"

definition oneBlockWorld :: World where
  "oneBlockWorld = \<lparr>seed = 42, chunks = [((0, 0), oneBlockChunk)]\<rparr>"



text \<open>The columns of a chunk, in the order the two loops of \<^verbatim>\<open>generateChunkTerrain\<close> visit them.\<close>

definition chunkColumns :: "(int \<times> int) list" where
  "chunkColumns = concat (map (\<lambda>x. map (\<lambda>z. (x, z)) [0..CHUNK_SIZE - 1]) [0..CHUNK_SIZE - 1])"

text \<open>
  The columns among \<open>cols\<close> on which the generation of the chunk \<open>key\<close> places a tree, when
  the next call of \<^verbatim>\<open>Math.random()\<close> is the \<open>k\<close>-th: a column lower than \<open>HEIGHT - 6\<close> takes
  one call for the tree test, and a tree takes one more for its trunk height.
\<close>

fun treeColumns :: "Env \<Rightarrow> World \<Rightarrow> int \<times> int \<Rightarrow> (int \<times> int) list \<Rightarrow> nat \<Rightarrow> (int \<times> int) list" where
  "treeColumns env w key [] k = []"
| "treeColumns env w key (col # cols) k =
     (if columnHeight env w (fst key * CHUNK_SIZE + fst col) (snd key * CHUNK_SIZE + snd col)
           < CHUNK_HEIGHT - 6
      then (if mathRandom env k < treeChance then col # treeColumns env w key cols (k + 2)
            else treeColumns env w key cols (k + 1))
      else treeColumns env w key cols k)"

text \<open>
  Every tree of the chunk's generation stands at least three columns away from each border
  of the chunk, so that its leaves, up to two columns from the trunk, stay off the border.
\<close>

definition treesInside :: "Env \<Rightarrow> state \<Rightarrow> int \<times> int \<Rightarrow> bool" where
  "treesInside env st key \<longleftrightarrow>
     (\<forall>(x, z) \<in> set (treeColumns env (fst st) key chunkColumns (snd st)).
        3 \<le> x \<and> x \<le> CHUNK_SIZE - 4 \<and> 3 \<le> z \<and> z \<le> CHUNK_SIZE - 4)"

text \<open>
  The columns a tree writes into: its own and those whose offset \<open>(dx, dz)\<close> from the trunk
  has \<open>dx\<^sup>2 + dz\<^sup>2 \<le> 5\<close> (the leaf test \<open>dist < 2.5\<close> at \<open>dy = 0\<close>).
\<close>

definition reaches :: "int \<times> int \<Rightarrow> int \<times> int \<Rightarrow> bool" where
  "reaches tree col \<longleftrightarrow>
     (fst col - fst tree) * (fst col - fst tree) + (snd col - snd tree) * (snd col - snd tree) \<le> 5"

text \<open>What the column fill stores at height \<open>y\<close> of a column of the given height.\<close>

definition fillBlock :: "int \<Rightarrow> int \<Rightarrow> block" where
  "fillBlock height y =
     (if 0 \<le> y \<and> y < height \<and> y < CHUNK_HEIGHT then columnBlock y height else AIR)"
text \<open>
  The state of a tree under construction, seen from the chunk \<open>(cx, cz)\<close> it stands in: the
  chunk is resident and as long as it was, the columns out of the tree's reach are as in
  the chunk \<open>c\<close>, and nothing else of the given world has changed.
\<close>

definition insideFrame ::
  "World \<Rightarrow> nat \<Rightarrow> int \<times> int \<Rightarrow> Chunk \<Rightarrow> int \<times> int \<Rightarrow> state \<Rightarrow> bool" where
  "insideFrame w k key c tree s \<longleftrightarrow>
     snd s = k \<and> seed (fst s) = seed w
     \<and> (\<exists>c'. getChunk (fst s) (fst key) (snd key) = Some c'
            \<and> length (blocks c') = length (blocks c)
            \<and> (\<forall>x y z. \<not> reaches tree (x, z) \<longrightarrow> Chunk_getBlock c' x y z = Chunk_getBlock c x y z))
     \<and> (\<forall>a b. (a, b) \<noteq> key \<longrightarrow> getChunk (fst s) a b = getChunk w a b)"

text \<open>
  A random source whose only tree is drawn at call 136: with every column lower than
  \<open>HEIGHT - 6\<close> that is the tree test of column \<open>(8, 8)\<close> of the first chunk generated.
\<close>

definition groveEnv :: Env where
  "groveEnv = \<lparr>octaveNoise2D = flatNoise, mathRandom = (\<lambda>k. if k = 136 then 0 else 1 / 2)\<rparr>"

text \<open>
  A cell is settled when it holds what the fill of its column stores there, or a block of a
  tree; it is loose when it may also still be Air, its column not yet filled.
\<close>

definition settled :: "Env \<Rightarrow> World \<Rightarrow> int \<Rightarrow> int \<Rightarrow> int \<Rightarrow> bool" where
  "settled env w x y z \<longleftrightarrow>
     World_getBlock w x y z = Some (fillBlock (columnHeight env w x z) y)
     \<or> World_getBlock w x y z = Some WOOD \<or> World_getBlock w x y z = Some LEAVES"

definition loose :: "Env \<Rightarrow> World \<Rightarrow> int \<Rightarrow> int \<Rightarrow> int \<Rightarrow> bool" where
  "loose env w x y z \<longleftrightarrow> World_getBlock w x y z = Some AIR \<or> settled env w x y z"

text \<open>From one state to a later one: the seed stays, and every loose or settled cell stays so.\<close>

definition cellsKept :: "Env \<Rightarrow> state \<Rightarrow> state \<Rightarrow> bool" where
  "cellsKept env st st' \<longleftrightarrow>
     seed (fst st') = seed (fst st)
     \<and> (\<forall>x y z. loose env (fst st) x y z \<longrightarrow> loose env (fst st') x y z)
     \<and> (\<forall>x y z. settled env (fst st) x y z \<longrightarrow> settled env (fst st') x y z)"


section \<open>Safe defaults of block access\<close>

text \<open>
  C7. Outside the local bounds \<open>[0,SIZE) \<times> [0,HEIGHT) \<times> [0,SIZE)\<close> the chunk-level read
  returns Air whatever the chunk holds, and the chunk-level write returns the chunk as it was
  (block array and dirty flag included). A world-level read whose \<open>y\<close> is outside
  \<open>[0,HEIGHT)\<close>, or whose owning chunk is not resident, returns Air.
\<close>

theorem block_access_safe_defaults:
  "(\<not> (0 \<le> x \<and> x < CHUNK_SIZE \<and> 0 \<le> y \<and> y < CHUNK_HEIGHT \<and> 0 \<le> z \<and> z < CHUNK_SIZE)
      \<longrightarrow> Chunk_getBlock c x y z = Some AIR \<and> Chunk_setBlock c x y z b = c)
   \<and> ((wy < 0 \<or> wy \<ge> CHUNK_HEIGHT \<or> getChunk w (wx div CHUNK_SIZE) (wz div CHUNK_SIZE) = None)
      \<longrightarrow> World_getBlock w wx wy wz = Some AIR)"
  by (auto simp: Chunk_getBlock_def Chunk_setBlock_def World_getBlock_def Let_def)

theorem block_access_safe_defaults_witness:
  "Chunk_getBlock (Chunk_setBlock (newChunk 0 0) 3 4 5 STONE) 16 4 5 = Some AIR
   \<and> Chunk_setBlock (newChunk 2 1) 3 64 5 STONE = newChunk 2 1
   \<and> World_getBlock \<lparr>seed = 42, chunks = [((0, 0), Chunk_setBlock (newChunk 0 0) 3 4 5 STONE)]\<rparr>
        19 4 5 = Some AIR
   \<and> World_getBlock \<lparr>seed = 42, chunks = [((0, 0), Chunk_setBlock (newChunk 0 0) 3 4 5 STONE)]\<rparr>
        3 (-1) 5 = Some AIR"
  using block_access_safe_defaults
          [of 16 4 5 "Chunk_setBlock (newChunk 0 0) 3 4 5 STONE" STONE 4
              "\<lparr>seed = 42, chunks = [((0, 0), Chunk_setBlock (newChunk 0 0) 3 4 5 STONE)]\<rparr>" 19 5]
        block_access_safe_defaults [of 3 64 5 "newChunk 2 1" STONE "-1"
              "\<lparr>seed = 42, chunks = [((0, 0), Chunk_setBlock (newChunk 0 0) 3 4 5 STONE)]\<rparr>" 3 5]
  by (simp add: CHUNK_SIZE_def CHUNK_HEIGHT_def getChunk_def)

section \<open>The dirty flag\<close>


lemma forEach_skip:
  "(\<And>a s. a \<in> set xs \<Longrightarrow> body s a = Inr s) \<Longrightarrow> forEach xs body s = Inr s"
  by (induction xs arbitrary: s) auto

lemma forEach_total:
  "(\<And>a s. a \<in> set xs \<Longrightarrow> \<exists>s'. body s a = Inr s') \<Longrightarrow> \<exists>s'. forEach xs body s = Inr s'"
proof (induction xs arbitrary: s)
  case Nil
  then show ?case by simp
next
  case (Cons a xs)
  from Cons.prems[of a s] obtain s1 where s1: "body s a = Inr s1" by auto
  have "\<exists>s'. forEach xs body s1 = Inr s'"
    by (rule Cons.IH) (simp add: Cons.prems)
  with s1 show ?case by simp
qed

lemma getBlockIndex_bounds:
  assumes "0 \<le> x" "x < CHUNK_SIZE" "0 \<le> y" "y < CHUNK_HEIGHT" "0 \<le> z" "z < CHUNK_SIZE"
  shows "0 \<le> getBlockIndex x y z" "getBlockIndex x y z < CHUNK_SIZE * CHUNK_HEIGHT * CHUNK_SIZE"
  using assms by (simp_all add: getBlockIndex_def CHUNK_SIZE_def CHUNK_HEIGHT_def)

lemma Chunk_getBlock_newChunk: "Chunk_getBlock (newChunk cx cz) x y z = Some AIR"
proof (cases "0 \<le> x \<and> x < CHUNK_SIZE \<and> 0 \<le> y \<and> y < CHUNK_HEIGHT \<and> 0 \<le> z \<and> z < CHUNK_SIZE")
  case True
  then have "0 \<le> getBlockIndex x y z" "getBlockIndex x y z < CHUNK_SIZE * CHUNK_HEIGHT * CHUNK_SIZE"
    by (simp_all add: getBlockIndex_bounds)
  then show ?thesis
    using True by (simp add: Chunk_getBlock_def newChunk_def typedArrayGet_def AIR_def)
next
  case False
  then show ?thesis by (auto simp: Chunk_getBlock_def)
qed

lemma meshLoop_newChunk: "meshLoop w (newChunk cx cz) = Inr emptyBuf"
  unfolding meshLoop_def
  by (intro forEach_skip) (simp add: meshBlock_def Chunk_getBlock_newChunk)

lemma knownBlocks_getBlock:
  assumes "knownBlocks c"
  shows "\<exists>b. Chunk_getBlock c x y z = Some b \<and> BlockProperties b \<noteq> None"
proof (cases "0 \<le> x \<and> x < CHUNK_SIZE \<and> 0 \<le> y \<and> y < CHUNK_HEIGHT \<and> 0 \<le> z \<and> z < CHUNK_SIZE")
  case True
  then have "0 \<le> getBlockIndex x y z" "getBlockIndex x y z < CHUNK_SIZE * CHUNK_HEIGHT * CHUNK_SIZE"
    by (simp_all add: getBlockIndex_bounds)
  then have "0 \<le> getBlockIndex x y z \<and> nat (getBlockIndex x y z) < length (blocks c)"
    using assms by (simp add: knownBlocks_def)
  then show ?thesis
    using True assms by (auto simp: Chunk_getBlock_def typedArrayGet_def knownBlocks_def)
next
  case False
  then show ?thesis by (auto simp: Chunk_getBlock_def BlockProperties_def)
qed

lemma meshBlock_total:
  assumes "knownBlocks c"
  shows "\<exists>buf'. meshBlock w c buf x y z = Inr buf'"
  using knownBlocks_getBlock[OF assms, of x y z]
  by (auto simp: meshBlock_def Let_def)

lemma meshLoop_total:
  assumes "knownBlocks c"
  shows "\<exists>buf. meshLoop w c = Inr buf"
  unfolding meshLoop_def
  by (intro forEach_total meshBlock_total assms)

lemma knownBlocks_newChunk: "knownBlocks (newChunk cx cz)"
  by (simp add: knownBlocks_def newChunk_def BlockProperties_def AIR_def)

text \<open>
  C8. An in-bounds chunk-level write sets the dirty flag; a rebuild of a chunk that is not
  dirty changes nothing; a rebuild of a dirty chunk that returns leaves the flag cleared, and
  it does return on every chunk holding a full array of known tags; on an all-air chunk the
  rebuild emits no face and still clears the flag.
\<close>

theorem dirty_flag_tracks_mesh:
  "(0 \<le> x \<and> x < CHUNK_SIZE \<and> 0 \<le> y \<and> y < CHUNK_HEIGHT \<and> 0 \<le> z \<and> z < CHUNK_SIZE
      \<longrightarrow> dirty (Chunk_setBlock c x y z b))
   \<and> (\<not> dirty c \<longrightarrow> generateMesh w c = Inr c)
   \<and> (dirty c \<and> generateMesh w c = Inr c' \<longrightarrow> \<not> dirty c')
   \<and> (dirty c \<and> knownBlocks c \<longrightarrow> (\<exists>c''. generateMesh w c = Inr c'' \<and> \<not> dirty c''))
   \<and> generateMesh w (newChunk cx cz) = Inr ((newChunk cx cz)\<lparr>dirty := False\<rparr>)"
proof (intro conjI impI)
  assume "0 \<le> x \<and> x < CHUNK_SIZE \<and> 0 \<le> y \<and> y < CHUNK_HEIGHT \<and> 0 \<le> z \<and> z < CHUNK_SIZE"
  then show "dirty (Chunk_setBlock c x y z b)" by (simp add: Chunk_setBlock_def)
next
  assume "\<not> dirty c"
  then show "generateMesh w c = Inr c" by (simp add: generateMesh_def)
next
  assume "dirty c \<and> generateMesh w c = Inr c'"
  then show "\<not> dirty c'"
    by (auto simp: generateMesh_def split: sum.splits if_splits)
next
  assume a: "dirty c \<and> knownBlocks c"
  then obtain buf where "meshLoop w c = Inr buf" using meshLoop_total by blast
  with a show "\<exists>c''. generateMesh w c = Inr c'' \<and> \<not> dirty c''"
    by (simp add: generateMesh_def)
next
  show "generateMesh w (newChunk cx cz) = Inr ((newChunk cx cz)\<lparr>dirty := False\<rparr>)"
    by (simp add: generateMesh_def meshLoop_newChunk emptyBuf_def)
qed

theorem dirty_flag_tracks_mesh_witness:
  "dirty (Chunk_setBlock ((newChunk 0 0)\<lparr>dirty := False\<rparr>) 3 4 5 STONE)
   \<and> generateMesh \<lparr>seed = 42, chunks = []\<rparr> ((newChunk 0 0)\<lparr>dirty := False\<rparr>)
       = Inr ((newChunk 0 0)\<lparr>dirty := False\<rparr>)
   \<and> dirty (newChunk 0 0)
   \<and> generateMesh \<lparr>seed = 42, chunks = []\<rparr> (newChunk 0 0) = Inr ((newChunk 0 0)\<lparr>dirty := False\<rparr>)
   \<and> \<not> dirty ((newChunk 0 0)\<lparr>dirty := False\<rparr>)"
  using dirty_flag_tracks_mesh
          [of 3 4 5 "(newChunk 0 0)\<lparr>dirty := False\<rparr>" STONE "\<lparr>seed = 42, chunks = []\<rparr>"
              "(newChunk 0 0)\<lparr>dirty := False\<rparr>" 0 0]
        dirty_flag_tracks_mesh
          [of 3 4 5 "newChunk 0 0" STONE "\<lparr>seed = 42, chunks = []\<rparr>"
              "(newChunk 0 0)\<lparr>dirty := False\<rparr>" 0 0]
        knownBlocks_newChunk [of 0 0]
  by (simp add: CHUNK_SIZE_def CHUNK_HEIGHT_def newChunk_def)

section \<open>Serialization round trip\<close>

lemma update_fresh_key: "k \<notin> fst ` set al \<Longrightarrow> AList.update k v al = al @ [(k, v)]"
  by (induction al) auto

lemma Chunk_roundtrip:
  "Chunk_deserialize (newChunk (chunkX c) (chunkZ c)) (Chunk_serialize c) = restored c"
  by (simp add: Chunk_deserialize_def Chunk_serialize_def newChunk_def restored_def comp_def)

lemma fold_loadChunk:
  assumes "distinct (map fst (acc @ cs))"
    and "\<forall>(key, chunk) \<in> set cs. key = (chunkX chunk, chunkZ chunk)"
  shows "chunks (fold loadChunk (map (\<lambda>(key, chunk). Chunk_serialize chunk) cs) (w\<lparr>chunks := acc\<rparr>))
         = acc @ map (\<lambda>(key, chunk). (key, restored chunk)) cs
       \<and> seed (fold loadChunk (map (\<lambda>(key, chunk). Chunk_serialize chunk) cs) (w\<lparr>chunks := acc\<rparr>))
         = seed w"
  using assms
proof (induction cs arbitrary: acc)
  case Nil
  then show ?case by simp
next
  case (Cons p cs)
  obtain key chunk where p: "p = (key, chunk)" by (cases p)
  from Cons.prems(2) p have key: "key = (chunkX chunk, chunkZ chunk)" by simp
  from Cons.prems(1) p have fresh: "key \<notin> fst ` set acc" by auto
  have coords: "chunkX (restored chunk) = chunkX chunk" "chunkZ (restored chunk) = chunkZ chunk"
    by (simp_all add: restored_def)
  have rt: "Chunk_deserialize (newChunk (dataChunkX (Chunk_serialize chunk))
              (dataChunkZ (Chunk_serialize chunk))) (Chunk_serialize chunk) = restored chunk"
    using Chunk_roundtrip[of chunk] by (simp add: Chunk_serialize_def)
  have step: "loadChunk (Chunk_serialize chunk) (w\<lparr>chunks := acc\<rparr>)
              = w\<lparr>chunks := acc @ [(key, restored chunk)]\<rparr>"
    unfolding loadChunk_def Let_def rt coords
    using fresh update_fresh_key[of key acc "restored chunk"] by (simp add: key)
  have d: "distinct (map fst ((acc @ [(key, restored chunk)]) @ cs))"
    using Cons.prems(1) p by simp
  have k: "\<forall>(key, chunk) \<in> set cs. key = (chunkX chunk, chunkZ chunk)"
    using Cons.prems(2) by simp
  from Cons.IH[OF d k] show ?case
    by (simp add: p step)
qed

lemma World_roundtrip_chunks:
  assumes "keyedByCoordinates w"
  shows "chunks (World_deserialize w0 (World_serialize w))
           = map (\<lambda>(key, chunk). (key, restored chunk)) (chunks w)"
    and "seed (World_deserialize w0 (World_serialize w)) = seed w"
  using assms fold_loadChunk[of "[]" "chunks w" "w0\<lparr>seed := seed w\<rparr>"]
  by (simp_all add: World_deserialize_def World_serialize_def keyedByCoordinates_def)

lemma map_of_restored:
  "map_of (map (\<lambda>(key, chunk). (key, restored chunk)) cs) k = map_option restored (map_of cs k)"
  by (induction cs) auto

text \<open>
  C9. On a world whose map holds one entry per key, each under its own coordinates,
  deserializing the serialized world restores the seed, and every chunk coordinate resident
  before holds a chunk with the same coordinates, the same block bytes, and the dirty flag
  set; no other coordinate becomes resident.
\<close>

theorem serialize_roundtrip:
  assumes "keyedByCoordinates w"
  shows "seed (World_deserialize w0 (World_serialize w)) = seed w
     \<and> (\<forall>cx cz c. getChunk w cx cz = Some c \<longrightarrow>
          (\<exists>c'. getChunk (World_deserialize w0 (World_serialize w)) cx cz = Some c'
             \<and> chunkX c' = chunkX c \<and> chunkZ c' = chunkZ c
             \<and> blocks c' = blocks c \<and> dirty c'))
     \<and> map fst (chunks (World_deserialize w0 (World_serialize w))) = map fst (chunks w)"
proof -
  let ?w' = "World_deserialize w0 (World_serialize w)"
  note rt = World_roundtrip_chunks[OF assms, of w0]
  have get: "getChunk ?w' cx cz = map_option restored (getChunk w cx cz)" for cx cz
    by (simp add: getChunk_def rt(1) map_of_restored)
  have keys: "map fst (chunks ?w') = map fst (chunks w)"
    by (simp add: rt(1) comp_def case_prod_unfold)
  show ?thesis
    by (simp add: rt(2) get keys) (simp add: restored_def)
qed

theorem serialize_roundtrip_witness:
  "keyedByCoordinates \<lparr>seed = 42, chunks = [((0, 0), Chunk_setBlock (newChunk 0 0) 3 4 5 STONE),
                                              ((-1, 0), (newChunk (-1) 0)\<lparr>dirty := False\<rparr>)]\<rparr>
   \<and> seed (World_deserialize \<lparr>seed = 7, chunks = [((5, 5), newChunk 5 5)]\<rparr>
        (World_serialize \<lparr>seed = 42, chunks = [((0, 0), Chunk_setBlock (newChunk 0 0) 3 4 5 STONE),
                                              ((-1, 0), (newChunk (-1) 0)\<lparr>dirty := False\<rparr>)]\<rparr>)) = 42
   \<and> map fst (chunks (World_deserialize \<lparr>seed = 7, chunks = [((5, 5), newChunk 5 5)]\<rparr>
        (World_serialize \<lparr>seed = 42, chunks = [((0, 0), Chunk_setBlock (newChunk 0 0) 3 4 5 STONE),
                                              ((-1, 0), (newChunk (-1) 0)\<lparr>dirty := False\<rparr>)]\<rparr>)))
      = [(0, 0), (-1, 0)]"
proof -
  let ?w = "\<lparr>seed = 42, chunks = [((0, 0), Chunk_setBlock (newChunk 0 0) 3 4 5 STONE),
                                   ((-1, 0), (newChunk (-1) 0)\<lparr>dirty := False\<rparr>)]\<rparr>"
  have k: "keyedByCoordinates ?w"
    by (simp add: keyedByCoordinates_def Chunk_setBlock_def newChunk_def)
  from serialize_roundtrip[OF k, of "\<lparr>seed = 7, chunks = [((5, 5), newChunk 5 5)]\<rparr>"] k
  show ?thesis by simp
qed

section \<open>Loops and the chunk map\<close>

lemma forEach_append:
  "forEach (xs @ ys) body s =
     (case forEach xs body s of Inl e \<Rightarrow> Inl e | Inr s' \<Rightarrow> forEach ys body s')"
  by (induction xs arbitrary: s) (auto split: sum.splits)

lemma forEach_inv:
  assumes "forEach xs body s = Inr s'" and "P s"
    and "\<And>a s s1. a \<in> set xs \<Longrightarrow> P s \<Longrightarrow> body s a = Inr s1 \<Longrightarrow> P s1"
  shows "P s'"
  using assms
proof (induction xs arbitrary: s)
  case Nil
  then show ?case by simp
next
  case (Cons a xs)
  from Cons.prems(1) obtain s1 where s1: "body s a = Inr s1" and rest: "forEach xs body s1 = Inr s'"
    by (auto split: sum.splits)
  have "P s1" by (rule Cons.prems(3)[OF _ Cons.prems(2) s1]) simp
  show ?case
    by (rule Cons.IH[OF rest \<open>P s1\<close>]) (rule Cons.prems(3), auto)
qed

lemma forEach_total_inv:
  assumes "P s"
    and "\<And>a s. a \<in> set xs \<Longrightarrow> P s \<Longrightarrow> \<exists>s'. body s a = Inr s' \<and> P s'"
  shows "\<exists>s'. forEach xs body s = Inr s' \<and> P s'"
  using assms
proof (induction xs arbitrary: s)
  case Nil
  then show ?case by simp
next
  case (Cons a xs)
  from Cons.prems(2)[of a s] Cons.prems(1) obtain s1 where s1: "body s a = Inr s1" "P s1" by auto
  have "\<exists>s'. forEach xs body s1 = Inr s' \<and> P s'"
    by (rule Cons.IH) (auto simp: s1 Cons.prems(2))
  with s1 show ?case by simp
qed

lemma forEach_establish:
  assumes "P s" and "a \<in> set xs"
    and step: "\<And>x s. x \<in> set xs \<Longrightarrow> P s \<Longrightarrow> \<exists>s'. body s x = Inr s' \<and> P s' \<and> (Q s \<longrightarrow> Q s')"
    and hit: "\<And>s. P s \<Longrightarrow> \<exists>s'. body s a = Inr s' \<and> P s' \<and> Q s'"
  shows "\<exists>s'. forEach xs body s = Inr s' \<and> P s' \<and> Q s'"
proof -
  from \<open>a \<in> set xs\<close> obtain pre post where xs: "xs = pre @ a # post"
    by (auto dest: split_list)
  have "\<exists>s1. forEach pre body s = Inr s1 \<and> P s1"
    by (rule forEach_total_inv[where P = P, OF \<open>P s\<close>]) (use step xs in auto)
  then obtain s1 where s1: "forEach pre body s = Inr s1" "P s1" by auto
  from hit[OF s1(2)] obtain s2 where s2: "body s1 a = Inr s2" "P s2" "Q s2" by auto
  have "\<exists>s'. forEach post body s2 = Inr s' \<and> (P s' \<and> Q s')"
  proof (rule forEach_total_inv[where P = "\<lambda>s. P s \<and> Q s"])
    show "P s2 \<and> Q s2" using s2 by simp
  next
    fix x t assume "x \<in> set post" "P t \<and> Q t"
    then show "\<exists>s'. body t x = Inr s' \<and> P s' \<and> Q s'"
      using step[of x t] xs by auto
  qed
  then obtain s3 where "forEach post body s2 = Inr s3" "P s3" "Q s3" by auto
  then show ?thesis
    by (simp add: xs forEach_append s1 s2)
qed

lemma getChunk_storeChunk:
  "getChunk (storeChunk w key c) a b = (if (a, b) = key then Some c else getChunk w a b)"
  by (simp add: getChunk_def storeChunk_def update_conv')

lemma seed_storeChunk [simp]: "seed (storeChunk w key c) = seed w"
  by (simp add: storeChunk_def)

lemma getChunk_markDirty:
  "getChunk (markDirty w cx cz) a b =
     (if (a, b) = (cx, cz) then map_option (\<lambda>c. c\<lparr>dirty := True\<rparr>) (getChunk w a b)
      else getChunk w a b)"
  by (auto simp: markDirty_def getChunk_storeChunk split: option.splits)

lemma seed_markDirty [simp]: "seed (markDirty w cx cz) = seed w"
  by (simp add: markDirty_def split: option.splits)

lemma setBlockBody_writeAndMark:
  "setBlockBody setBlock env st x y z blockType =
     (if y < 0 \<or> y \<ge> CHUNK_HEIGHT then Inr (False, st)
      else case getOrCreateChunk setBlock env st (x div CHUNK_SIZE) (z div CHUNK_SIZE) of
             Inl e \<Rightarrow> Inl e
           | Inr (w1, k1) \<Rightarrow> Inr (True, (writeAndMark w1 x y z blockType, k1)))"
  unfolding setBlockBody_def writeAndMark_def Let_def by (rule refl)

lemma seed_writeAndMark [simp]: "seed (writeAndMark w x y z b) = seed w"
  by (simp add: writeAndMark_def Let_def split: option.splits)

lemma getChunk_writeAndMark:
  "getChunk (writeAndMark w x y z blockType) a b =
     (if (a, b) = (x div CHUNK_SIZE, z div CHUNK_SIZE)
      then map_option (\<lambda>chunk. Chunk_setBlock chunk (x - x div CHUNK_SIZE * CHUNK_SIZE) y
                                 (z - z div CHUNK_SIZE * CHUNK_SIZE) blockType)
             (getChunk w a b)
      else if (a, b) \<in> borderNeighbours x z
      then map_option (\<lambda>c. c\<lparr>dirty := True\<rparr>) (getChunk w a b)
      else getChunk w a b)"
proof (cases "getChunk w (x div CHUNK_SIZE) (z div CHUNK_SIZE)")
  case None
  then show ?thesis
    unfolding writeAndMark_def borderNeighbours_def Let_def
    by (simp add: getChunk_markDirty)
next
  case (Some chunk)
  then show ?thesis
    unfolding writeAndMark_def borderNeighbours_def Let_def
    by (simp add: getChunk_markDirty getChunk_storeChunk)
qed

section \<open>Column fill\<close>

lemma index_inj:
  fixes x y z x' y' z' :: int
  assumes "0 \<le> x" "x < 16" "0 \<le> z" "z < 16"
    and "0 \<le> x'" "x' < 16" "0 \<le> z'" "z' < 16"
    and eq: "x + z * 16 + y * 16 * 16 = x' + z' * 16 + y' * 16 * 16"
  shows "x = x' \<and> y = y' \<and> z = z'"
proof -
  have m: "(a + 16 * t) mod 16 = a" if "0 \<le> a" "a < 16" for a t :: int
    using that by simp
  have e: "x + 16 * (z + 16 * y) = x' + 16 * (z' + 16 * y')" using eq by simp
  have "x = (x + 16 * (z + 16 * y)) mod 16" by (rule m[symmetric]) fact+
  also have "\<dots> = (x' + 16 * (z' + 16 * y')) mod 16" by (simp only: e)
  also have "\<dots> = x'" by (rule m) fact+
  finally have x: "x = x'" .
  then have e2: "z + 16 * y = z' + 16 * y'" using e by simp
  have "z = (z + 16 * y) mod 16" by (rule m[symmetric]) fact+
  also have "\<dots> = (z' + 16 * y') mod 16" by (simp only: e2)
  also have "\<dots> = z'" by (rule m) fact+
  finally have z: "z = z'" .
  show ?thesis using x z e2 by simp
qed

lemma getBlockIndex_inj:
  assumes "0 \<le> x" "x < CHUNK_SIZE" "0 \<le> z" "z < CHUNK_SIZE"
    and "0 \<le> x'" "x' < CHUNK_SIZE" "0 \<le> z'" "z' < CHUNK_SIZE"
  shows "getBlockIndex x y z = getBlockIndex x' y' z' \<longleftrightarrow> x = x' \<and> y = y' \<and> z = z'"
  using assms index_inj[of x z x' z' y y'] unfolding getBlockIndex_def CHUNK_SIZE_def by blast

lemma length_blocks_setBlock [simp]:
  "length (blocks (Chunk_setBlock c x y z b)) = length (blocks c)"
  by (simp add: Chunk_setBlock_def typedArraySet_def)

lemma Chunk_getBlock_setBlock:
  assumes "length (blocks c) = nat (CHUNK_SIZE * CHUNK_HEIGHT * CHUNK_SIZE)"
  shows "Chunk_getBlock (Chunk_setBlock c x y z b) x' y' z' =
           (if 0 \<le> x \<and> x < CHUNK_SIZE \<and> 0 \<le> y \<and> y < CHUNK_HEIGHT \<and> 0 \<le> z \<and> z < CHUNK_SIZE
               \<and> x' = x \<and> y' = y \<and> z' = z
            then Some b else Chunk_getBlock c x' y' z')"
proof (cases "0 \<le> x \<and> x < CHUNK_SIZE \<and> 0 \<le> y \<and> y < CHUNK_HEIGHT \<and> 0 \<le> z \<and> z < CHUNK_SIZE")
  case False
  then show ?thesis by (auto simp: Chunk_setBlock_def)
next
  case inb: True
  then have i: "0 \<le> getBlockIndex x y z" "nat (getBlockIndex x y z) < length (blocks c)"
    using getBlockIndex_bounds[of x y z] assms by auto
  show ?thesis
  proof (cases "0 \<le> x' \<and> x' < CHUNK_SIZE \<and> 0 \<le> y' \<and> y' < CHUNK_HEIGHT \<and> 0 \<le> z' \<and> z' < CHUNK_SIZE")
    case False
    then show ?thesis using inb by (auto simp: Chunk_getBlock_def)
  next
    case inb': True
    then have i': "0 \<le> getBlockIndex x' y' z'" "nat (getBlockIndex x' y' z') < length (blocks c)"
      using getBlockIndex_bounds[of x' y' z'] assms by auto
    have eq: "nat (getBlockIndex x y z) = nat (getBlockIndex x' y' z') \<longleftrightarrow> x' = x \<and> y' = y \<and> z' = z"
      using getBlockIndex_inj[of x z x' z' y y'] inb inb' i i' by auto
    show ?thesis
      using inb inb' i i' eq
      by (simp add: Chunk_getBlock_def Chunk_setBlock_def typedArrayGet_def typedArraySet_def
          nth_list_update)
  qed
qed

lemma length_blocks_placeBlocks [simp]:
  "length (blocks (placeBlocks c x z h y)) = length (blocks c)"
  by (induction c x z h y rule: placeBlocks.induct) (simp add: placeBlocks.simps)

lemma Chunk_getBlock_placeBlocks:
  assumes "length (blocks c) = nat (CHUNK_SIZE * CHUNK_HEIGHT * CHUNK_SIZE)" and "0 \<le> y0"
  shows "Chunk_getBlock (placeBlocks c x z h y0) x' y z' =
           (if 0 \<le> x \<and> x < CHUNK_SIZE \<and> 0 \<le> z \<and> z < CHUNK_SIZE \<and> x' = x \<and> z' = z
               \<and> y0 \<le> y \<and> y < h \<and> y < CHUNK_HEIGHT
            then Some (columnBlock y h) else Chunk_getBlock c x' y z')"
  using assms
proof (induction c x z h y0 rule: placeBlocks.induct)
  case (1 chunk x z height y0)
  show ?case
  proof (cases "y0 < height \<and> y0 < CHUNK_HEIGHT")
    case False
    then show ?thesis by (subst placeBlocks.simps) auto
  next
    case True
    have len: "length (blocks (Chunk_setBlock chunk x y0 z (columnBlock y0 height)))
                 = nat (CHUNK_SIZE * CHUNK_HEIGHT * CHUNK_SIZE)"
      using "1.prems" by simp
    have IH: "Chunk_getBlock (placeBlocks (Chunk_setBlock chunk x y0 z (columnBlock y0 height)) x z height (y0 + 1)) x' y z' =
           (if 0 \<le> x \<and> x < CHUNK_SIZE \<and> 0 \<le> z \<and> z < CHUNK_SIZE \<and> x' = x \<and> z' = z
               \<and> y0 + 1 \<le> y \<and> y < height \<and> y < CHUNK_HEIGHT
            then Some (columnBlock y height)
            else Chunk_getBlock (Chunk_setBlock chunk x y0 z (columnBlock y0 height)) x' y z')"
      using "1.IH"[OF True len] "1.prems"(2) by simp
    show ?thesis
      using True "1.prems"
      by (subst placeBlocks.simps) (auto simp: IH Chunk_getBlock_setBlock)
  qed
qed

lemma owner_of_column:
  assumes "0 \<le> x" "x < CHUNK_SIZE"
  shows "(cx * CHUNK_SIZE + x) div CHUNK_SIZE = cx"
    and "cx * CHUNK_SIZE + x - cx * CHUNK_SIZE = x"
  using assms by (simp_all add: CHUNK_SIZE_def)

lemma generateColumn_no_tree:
  assumes "\<not> (columnHeight env w (cx * CHUNK_SIZE + x) (cz * CHUNK_SIZE + z) < CHUNK_HEIGHT - 6
              \<and> mathRandom env k < treeChance)"
  shows "generateColumn setBlock env (cx, cz) (w, k) x z =
           Inr (case getChunk w cx cz of
                  None \<Rightarrow> w
                | Some chunk \<Rightarrow>
                    storeChunk w (cx, cz)
                      (placeBlocks chunk x z
                         (columnHeight env w (cx * CHUNK_SIZE + x) (cz * CHUNK_SIZE + z)) 0),
                if columnHeight env w (cx * CHUNK_SIZE + x) (cz * CHUNK_SIZE + z) < CHUNK_HEIGHT - 6
                then k + 1 else k)"
  using assms by (auto simp: generateColumn_def Let_def)

lemma columnBlock_20:
  "columnBlock y 20 = (if y = 19 then GRASS else if 16 \<le> y then DIRT else STONE)"
  by (simp add: columnBlock_def)

section \<open>Writes never unload a chunk\<close>

lemma staysResident_refl [simp]: "staysResident st st"
  by (simp add: staysResident_def)

lemma staysResident_trans: "staysResident a b \<Longrightarrow> staysResident b c \<Longrightarrow> staysResident a c"
  by (simp add: staysResident_def)

lemma forEach_staysResident:
  assumes "forEach xs body s = Inr s'"
    and "\<And>a s s1. a \<in> set xs \<Longrightarrow> body s a = Inr s1 \<Longrightarrow> staysResident s s1"
  shows "staysResident s s'"
  by (rule forEach_inv[where P = "staysResident s", OF assms(1)])
     (auto intro: staysResident_trans assms(2))

lemma callSetBlock_staysResident:
  assumes "keepsResident setBlock" and "callSetBlock setBlock st x y z b = Inr st'"
  shows "staysResident st st'"
proof -
  from assms(2) obtain r where "setBlock st x y z b = Inr (r, st')"
    by (auto simp: callSetBlock_def split: sum.splits prod.splits)
  with assms(1) show ?thesis unfolding keepsResident_def by blast
qed

lemma placeLeaf_staysResident:
  assumes "keepsResident setBlock" and "placeLeaf setBlock x leafStart z dy dx st dz = Inr st'"
  shows "staysResident st st'"
  using assms(2) callSetBlock_staysResident[OF assms(1)]
  by (auto simp: placeLeaf_def Let_def split: if_splits)

lemma generateTree_staysResident:
  assumes k: "keepsResident setBlock" and run: "generateTree setBlock env st x y z = Inr st'"
  shows "staysResident st st'"
proof -
  define trunkHeight where "trunkHeight = 4 + \<lfloor>mathRandom env (snd st) * 2\<rfloor>"
  from run obtain st1 where
    trunk: "forEach [0..trunkHeight - 1] (\<lambda>st i. callSetBlock setBlock st x (y + i) z WOOD)
              (fst st, snd st + 1) = Inr st1" and
    leaves: "forEach [0..3] (\<lambda>st dy.
              forEach [-2..2] (\<lambda>st dx.
                forEach [-2..2] (placeLeaf setBlock x (y + trunkHeight - 1) z dy dx) st) st) st1 = Inr st'"
    by (auto simp: generateTree_def Let_def trunkHeight_def split: sum.splits)
  have "staysResident (fst st, snd st + 1) st1"
    by (rule forEach_staysResident[OF trunk]) (rule callSetBlock_staysResident[OF k])
  moreover have "staysResident st1 st'"
    by (rule forEach_staysResident[OF leaves], rule forEach_staysResident, assumption,
        rule forEach_staysResident, assumption, rule placeLeaf_staysResident[OF k])
  ultimately show ?thesis
    by (auto simp: staysResident_def)
qed

lemma generateColumn_staysResident:
  assumes k: "keepsResident setBlock" and run: "generateColumn setBlock env key st x z = Inr st'"
  shows "staysResident st st'"
proof -
  obtain w n where st: "st = (w, n)" by (cases st)
  obtain cx cz where key: "key = (cx, cz)" by (cases key)
  define height where "height = columnHeight env w (cx * CHUNK_SIZE + x) (cz * CHUNK_SIZE + z)"
  define w1 where "w1 = (case getChunk w cx cz of None \<Rightarrow> w
                         | Some chunk \<Rightarrow> storeChunk w (cx, cz) (placeBlocks chunk x z height 0))"
  have w1: "staysResident (w, n) (w1, m)" for m
    by (auto simp: staysResident_def w1_def getChunk_storeChunk split: option.splits)
  have unfold: "generateColumn setBlock env key st x z =
          (if height < CHUNK_HEIGHT - 6
           then (if mathRandom env n < treeChance
                 then generateTree setBlock env (w1, n + 1) (cx * CHUNK_SIZE + x) height (cz * CHUNK_SIZE + z)
                 else Inr (w1, n + 1))
           else Inr (w1, n))"
    unfolding generateColumn_def st key Let_def prod.case height_def w1_def by (rule refl)
  show ?thesis
  proof (cases "height < CHUNK_HEIGHT - 6 \<and> mathRandom env n < treeChance")
    case True
    with run unfold have tree:
      "generateTree setBlock env (w1, n + 1) (cx * CHUNK_SIZE + x) height (cz * CHUNK_SIZE + z) = Inr st'"
      by simp
    from staysResident_trans[OF w1 generateTree_staysResident[OF k tree]]
    show ?thesis by (simp add: st)
  next
    case False
    with run unfold have "st' = (w1, n + 1) \<or> st' = (w1, n)"
      by (auto split: if_splits)
    then show ?thesis using w1 by (auto simp: st)
  qed
qed

lemma generateChunkTerrain_staysResident:
  assumes k: "keepsResident setBlock" and run: "generateChunkTerrain setBlock env key st = Inr st'"
  shows "staysResident st st'"
  using run unfolding generateChunkTerrain_def
  by (rule forEach_staysResident, elim forEach_staysResident)
     (rule generateColumn_staysResident[OF k])

lemma getOrCreateChunk_resident:
  assumes k: "keepsResident setBlock" and run: "getOrCreateChunk setBlock env st cx cz = Inr st'"
  shows "staysResident st st' \<and> getChunk (fst st') cx cz \<noteq> None"
proof (cases "getChunk (fst st) cx cz")
  case (Some chunk)
  then show ?thesis using run by (simp add: getOrCreateChunk_def)
next
  case None
  define st0 where "st0 = (storeChunk (fst st) (cx, cz) (newChunk cx cz), snd st)"
  from None run have g: "generateChunkTerrain setBlock env (cx, cz) st0 = Inr st'"
    by (simp add: getOrCreateChunk_def st0_def)
  have a: "staysResident st st0" "getChunk (fst st0) cx cz \<noteq> None"
    by (simp_all add: staysResident_def st0_def getChunk_storeChunk)
  from generateChunkTerrain_staysResident[OF k g] a show ?thesis
    by (auto simp: staysResident_def)
qed

lemma writeAndMark_resident:
  "getChunk (writeAndMark w x y z b) a c \<noteq> None \<longleftrightarrow> getChunk w a c \<noteq> None"
  by (simp add: getChunk_writeAndMark)

lemma setBlockBody_keepsResident:
  assumes "keepsResident setBlock"
  shows "keepsResident (setBlockBody setBlock env)"
  unfolding keepsResident_def
proof (intro allI impI)
  fix st x y z b r st'
  assume run: "setBlockBody setBlock env st x y z b = Inr (r, st')"
  show "staysResident st st'"
  proof (cases "y < 0 \<or> y \<ge> CHUNK_HEIGHT")
    case True
    then show ?thesis using run by (simp add: setBlockBody_writeAndMark)
  next
    case False
    with run obtain w1 k1 where
      g: "getOrCreateChunk setBlock env st (x div CHUNK_SIZE) (z div CHUNK_SIZE) = Inr (w1, k1)" and
      st': "st' = (writeAndMark w1 x y z b, k1)"
      by (auto simp: setBlockBody_writeAndMark split: sum.splits)
    from getOrCreateChunk_resident[OF assms g] have res: "staysResident st (w1, k1)" by simp
    have "getChunk (fst st') a c \<noteq> None" if "getChunk (fst st) a c \<noteq> None" for a c
    proof -
      from that res have "getChunk w1 a c \<noteq> None" unfolding staysResident_def by simp
      then show ?thesis unfolding st' fst_conv writeAndMark_resident .
    qed
    then show ?thesis unfolding staysResident_def by blast
  qed
qed

lemma World_setBlock_keepsResident: "keepsResident (World_setBlock depth env)"
proof (induction depth)
  case 0
  have "keepsResident (\<lambda>st x y z blockType. Inl RangeError)" by (simp add: keepsResident_def)
  then show ?case by (simp add: setBlockBody_keepsResident)
next
  case (Suc depth)
  then show ?case by (simp add: setBlockBody_keepsResident)
qed

lemma World_setBlock_unfold:
  "\<exists>setBlock. keepsResident setBlock \<and> World_setBlock depth env = setBlockBody setBlock env"
proof (cases depth)
  case 0
  have "keepsResident (\<lambda>st x y z blockType. Inl RangeError)" by (simp add: keepsResident_def)
  then show ?thesis using 0 by auto
next
  case (Suc d)
  then show ?thesis using World_setBlock_keepsResident[of d env] by auto
qed

section \<open>Generation without trees\<close>

lemma noTreesFrom_mono: "noTreesFrom env k \<Longrightarrow> k \<le> k' \<Longrightarrow> noTreesFrom env k'"
  by (simp add: noTreesFrom_def)

lemma generateColumn_noTrees:
  assumes "noTreesFrom env (snd st)" and "getChunk (fst st) cx cz \<noteq> None"
  shows "\<exists>st'. generateColumn setBlock env (cx, cz) st x z = Inr st' \<and> onlyChunk env (cx, cz) st st'"
proof -
  obtain w k where st: "st = (w, k)" by (cases st)
  from assms(1) have "\<not> mathRandom env k < treeChance"
    by (auto simp: noTreesFrom_def st)
  then have nt: "\<not> (columnHeight env w (cx * CHUNK_SIZE + x) (cz * CHUNK_SIZE + z) < CHUNK_HEIGHT - 6
                 \<and> mathRandom env k < treeChance)" by simp
  from assms(2) obtain chunk where c: "getChunk w cx cz = Some chunk" by (auto simp: st)
  show ?thesis
    unfolding st generateColumn_no_tree[OF nt]
    using assms(1) noTreesFrom_mono[of env k "k + 1"]
    by (simp add: c onlyChunk_def getChunk_storeChunk st)
qed

lemma onlyChunk_trans:
  "onlyChunk env key a b \<Longrightarrow> onlyChunk env key b c \<Longrightarrow> onlyChunk env key a c"
  by (simp add: onlyChunk_def)

lemma generateChunkTerrain_noTrees:
  assumes "noTreesFrom env (snd st)" and "getChunk (fst st) cx cz \<noteq> None"
  shows "\<exists>st'. generateChunkTerrain setBlock env (cx, cz) st = Inr st' \<and> onlyChunk env (cx, cz) st st'"
proof -
  have start: "onlyChunk env (cx, cz) st st"
    using assms by (simp add: onlyChunk_def)
  have col: "\<exists>s'. generateColumn setBlock env (cx, cz) s x z = Inr s' \<and> onlyChunk env (cx, cz) st s'"
    if "onlyChunk env (cx, cz) st s" for s x z
  proof -
    from that have "noTreesFrom env (snd s)" "getChunk (fst s) cx cz \<noteq> None"
      by (simp_all add: onlyChunk_def)
    from generateColumn_noTrees[OF this, of setBlock x z] that show ?thesis
      by (blast intro: onlyChunk_trans)
  qed
  show ?thesis
    unfolding generateChunkTerrain_def
    by (rule forEach_total_inv[where P = "onlyChunk env (cx, cz) st", OF start],
        rule forEach_total_inv[where P = "onlyChunk env (cx, cz) st"], assumption, rule col)
qed

lemma getOrCreateChunk_noTrees:
  assumes "noTreesFrom env (snd st)"
  shows "\<exists>st'. getOrCreateChunk setBlock env st cx cz = Inr st' \<and> onlyChunk env (cx, cz) st st'
           \<and> (getChunk (fst st) cx cz \<noteq> None \<longrightarrow> st' = st)"
proof (cases "getChunk (fst st) cx cz")
  case (Some chunk)
  then show ?thesis using assms by (simp add: getOrCreateChunk_def onlyChunk_def)
next
  case None
  define st0 where "st0 = (storeChunk (fst st) (cx, cz) (newChunk cx cz), snd st)"
  have a: "noTreesFrom env (snd st0)" "getChunk (fst st0) cx cz \<noteq> None"
    using assms by (simp_all add: st0_def getChunk_storeChunk)
  from generateChunkTerrain_noTrees[OF a, of setBlock] obtain st' where
    g: "generateChunkTerrain setBlock env (cx, cz) st0 = Inr st'" and o: "onlyChunk env (cx, cz) st0 st'"
    by blast
  have "onlyChunk env (cx, cz) st st'"
    using o by (simp add: onlyChunk_def st0_def getChunk_storeChunk)
  then show ?thesis
    using g None by (simp add: getOrCreateChunk_def st0_def)
qed

lemma getOrCreateChunk_present:
  assumes "getChunk (fst st) cx cz \<noteq> None"
  shows "getOrCreateChunk setBlock env st cx cz = Inr st"
  using assms by (auto simp: getOrCreateChunk_def)

text \<open>
  With the owning chunk resident, or with no tree placed from now on, an in-range write
  returns true; the state before the write proper differs from the given one at most in the
  owning chunk.
\<close>

lemma setBlockBody_total:
  assumes "0 \<le> y" "y < CHUNK_HEIGHT"
    and "getChunk (fst st) (x div CHUNK_SIZE) (z div CHUNK_SIZE) \<noteq> None \<or> noTreesFrom env (snd st)"
  shows "\<exists>w1 k1. setBlockBody setBlock env st x y z b = Inr (True, (writeAndMark w1 x y z b, k1))
           \<and> seed w1 = seed (fst st)
           \<and> getChunk w1 (x div CHUNK_SIZE) (z div CHUNK_SIZE) \<noteq> None
           \<and> (\<forall>a c. (a, c) \<noteq> (x div CHUNK_SIZE, z div CHUNK_SIZE) \<longrightarrow> getChunk w1 a c = getChunk (fst st) a c)
           \<and> (getChunk (fst st) (x div CHUNK_SIZE) (z div CHUNK_SIZE) \<noteq> None \<longrightarrow> (w1, k1) = st)
           \<and> (noTreesFrom env (snd st) \<longrightarrow> noTreesFrom env k1)"
proof (cases "getChunk (fst st) (x div CHUNK_SIZE) (z div CHUNK_SIZE) \<noteq> None")
  case True
  have "setBlockBody setBlock env st x y z b
          = Inr (True, (writeAndMark (fst st) x y z b, snd st))"
    using assms(1,2) getOrCreateChunk_present[OF True, of setBlock env]
    by (simp add: setBlockBody_writeAndMark split: prod.splits)
  then show ?thesis using True by auto
next
  case False
  with assms(3) have nt: "noTreesFrom env (snd st)" by simp
  from getOrCreateChunk_noTrees[OF nt, of setBlock "x div CHUNK_SIZE" "z div CHUNK_SIZE"]
  obtain st' where g: "getOrCreateChunk setBlock env st (x div CHUNK_SIZE) (z div CHUNK_SIZE) = Inr st'"
    and o: "onlyChunk env (x div CHUNK_SIZE, z div CHUNK_SIZE) st st'" by blast
  have "setBlockBody setBlock env st x y z b
          = Inr (True, (writeAndMark (fst st') x y z b, snd st'))"
    using assms(1,2) g by (simp add: setBlockBody_writeAndMark split: prod.splits)
  then show ?thesis using o False by (auto simp: onlyChunk_def)
qed

lemma World_setBlock_total:
  assumes "0 \<le> y" "y < CHUNK_HEIGHT"
    and "getChunk (fst st) (x div CHUNK_SIZE) (z div CHUNK_SIZE) \<noteq> None \<or> noTreesFrom env (snd st)"
  shows "\<exists>w1 k1. World_setBlock depth env st x y z b = Inr (True, (writeAndMark w1 x y z b, k1))
           \<and> seed w1 = seed (fst st)
           \<and> getChunk w1 (x div CHUNK_SIZE) (z div CHUNK_SIZE) \<noteq> None
           \<and> (\<forall>a c. (a, c) \<noteq> (x div CHUNK_SIZE, z div CHUNK_SIZE) \<longrightarrow> getChunk w1 a c = getChunk (fst st) a c)
           \<and> (getChunk (fst st) (x div CHUNK_SIZE) (z div CHUNK_SIZE) \<noteq> None \<longrightarrow> (w1, k1) = st)
           \<and> (noTreesFrom env (snd st) \<longrightarrow> noTreesFrom env k1)"
proof -
  from World_setBlock_unfold[of depth env] obtain setBlock where
    "World_setBlock depth env = setBlockBody setBlock env" by blast
  then show ?thesis using setBlockBody_total[OF assms, of setBlock b] by simp
qed

lemma World_setBlock_out_of_range:
  assumes "y < 0 \<or> y \<ge> CHUNK_HEIGHT"
  shows "World_setBlock depth env st x y z b = Inr (False, st)"
proof -
  from World_setBlock_unfold[of depth env] obtain setBlock where
    "World_setBlock depth env = setBlockBody setBlock env" by blast
  then show ?thesis using assms by (simp add: setBlockBody_writeAndMark)
qed

lemma World_setBlock_result:
  assumes "0 \<le> y" "y < CHUNK_HEIGHT" and "World_setBlock depth env st x y z b = Inr (r, st')"
  shows "r \<and> getChunk (fst st') (x div CHUNK_SIZE) (z div CHUNK_SIZE) \<noteq> None"
proof -
  from World_setBlock_unfold[of depth env] obtain setBlock where
    k: "keepsResident setBlock" and u: "World_setBlock depth env = setBlockBody setBlock env" by blast
  from assms u obtain w1 k1 where
    g: "getOrCreateChunk setBlock env st (x div CHUNK_SIZE) (z div CHUNK_SIZE) = Inr (w1, k1)" and
    r: "r" and st': "st' = (writeAndMark w1 x y z b, k1)"
    by (auto simp: setBlockBody_writeAndMark split: sum.splits)
  from getOrCreateChunk_resident[OF k g] have "getChunk w1 (x div CHUNK_SIZE) (z div CHUNK_SIZE) \<noteq> None"
    by simp
  then show ?thesis using r unfolding st' fst_conv writeAndMark_resident by simp
qed

lemma noTreesFrom_quietEnv: "noTreesFrom quietEnv k"
  by (simp add: noTreesFrom_def quietEnv_def treeChance_def)

section \<open>A tree on the border of a fresh chunk\<close>

lemma World_setBlock_call:
  assumes "noTreesFrom env (snd st)"
  shows "\<exists>st'. callSetBlock (World_setBlock depth env) st x y z b = Inr st'
           \<and> noTreesFrom env (snd st') \<and> staysResident st st'
           \<and> (0 \<le> y \<and> y < CHUNK_HEIGHT \<longrightarrow> getChunk (fst st') (x div CHUNK_SIZE) (z div CHUNK_SIZE) \<noteq> None)"
proof (cases "0 \<le> y \<and> y < CHUNK_HEIGHT")
  case False
  then have "World_setBlock depth env st x y z b = Inr (False, st)"
    by (intro World_setBlock_out_of_range) auto
  then show ?thesis using assms False by (auto simp: callSetBlock_def)
next
  case True
  from World_setBlock_total[of y st x z env depth b] True assms obtain w1 k1 where
    run: "World_setBlock depth env st x y z b = Inr (True, (writeAndMark w1 x y z b, k1))" and
    nt: "noTreesFrom env k1" by auto
  have "staysResident st (writeAndMark w1 x y z b, k1)"
    using World_setBlock_keepsResident[of depth env] run unfolding keepsResident_def by blast
  moreover have "getChunk (writeAndMark w1 x y z b) (x div CHUNK_SIZE) (z div CHUNK_SIZE) \<noteq> None"
    using World_setBlock_result[OF _ _ run] True by simp
  ultimately show ?thesis using run nt by (simp add: callSetBlock_def)
qed

lemma placeLeaf_call:
  assumes "noTreesFrom env (snd st)"
  shows "\<exists>st'. placeLeaf (World_setBlock depth env) x leafStart z dy dx st dz = Inr st'
           \<and> noTreesFrom env (snd st') \<and> staysResident st st'"
proof (cases "\<not> (dx = 0 \<and> dz = 0 \<and> dy < 3)
      \<and> sqrt (of_int (dx * dx + dz * dz) + of_int (dy * dy) * (5 / 10)) < 25 / 10")
  case True
  then have "placeLeaf (World_setBlock depth env) x leafStart z dy dx st dz
        = callSetBlock (World_setBlock depth env) st (x + dx) (leafStart + dy) (z + dz) LEAVES"
    by (auto simp: placeLeaf_def Let_def)
  then show ?thesis
    using World_setBlock_call[OF assms, of depth "x + dx" "leafStart + dy" "z + dz" LEAVES] by auto
next
  case False
  then have "placeLeaf (World_setBlock depth env) x leafStart z dy dx st dz = Inr st"
    by (auto simp: placeLeaf_def Let_def)
  then show ?thesis using assms by simp
qed

lemma placeLeaf_reaches:
  assumes "noTreesFrom env (snd st)" and "0 \<le> leafStart" "leafStart < CHUNK_HEIGHT"
  shows "\<exists>st'. placeLeaf (World_setBlock depth env) (cx * CHUNK_SIZE) leafStart (cz * CHUNK_SIZE) 0 (-2) st 0 = Inr st'
           \<and> noTreesFrom env (snd st') \<and> staysResident st st'
           \<and> getChunk (fst st') (cx - 1) cz \<noteq> None"
proof -
  have "sqrt (of_int ((-2) * (-2) + 0 * 0) + of_int (0 * 0) * (5 / 10)) = (2::real)"
    by (simp add: real_sqrt_unique)
  then have "placeLeaf (World_setBlock depth env) (cx * CHUNK_SIZE) leafStart (cz * CHUNK_SIZE) 0 (-2) st 0
        = callSetBlock (World_setBlock depth env) st (cx * CHUNK_SIZE + - 2) (leafStart + 0) (cz * CHUNK_SIZE + 0) LEAVES"
    unfolding placeLeaf_def Let_def by simp
  moreover have "(cx * CHUNK_SIZE + - 2) div CHUNK_SIZE = cx - 1" "(cz * CHUNK_SIZE + 0) div CHUNK_SIZE = cz"
    by (simp_all add: CHUNK_SIZE_def)
  ultimately show ?thesis
    using World_setBlock_call[OF assms(1), of depth "cx * CHUNK_SIZE + - 2" "leafStart + 0"
        "cz * CHUNK_SIZE + 0" LEAVES] assms(2,3)
    by auto
qed

lemma generateTree_reaches:
  assumes nt: "noTreesFrom env (snd st)"
    and unit: "0 \<le> mathRandom env (snd st)" "mathRandom env (snd st) < 1"
    and y: "0 \<le> y" "y < CHUNK_HEIGHT - 6"
  shows "\<exists>st'. generateTree (World_setBlock depth env) env st (cx * CHUNK_SIZE) y (cz * CHUNK_SIZE) = Inr st'
           \<and> noTreesFrom env (snd st') \<and> staysResident st st'
           \<and> getChunk (fst st') (cx - 1) cz \<noteq> None"
proof -
  define P where "P = (\<lambda>s. noTreesFrom env (snd s) \<and> staysResident st s)"
  define Q where "Q = (\<lambda>s :: state. getChunk (fst s) (cx - 1) cz \<noteq> None)"
  define trunkHeight where "trunkHeight = 4 + \<lfloor>mathRandom env (snd st) * 2\<rfloor>"
  define leafStart where "leafStart = y + trunkHeight - 1"
  have "0 \<le> \<lfloor>mathRandom env (snd st) * 2\<rfloor>" "\<lfloor>mathRandom env (snd st) * 2\<rfloor> < 2"
    using unit by (simp_all add: floor_less_iff)
  then have ls: "0 \<le> leafStart" "leafStart < CHUNK_HEIGHT"
    using y unfolding leafStart_def trunkHeight_def CHUNK_HEIGHT_def by linarith+
  have P0: "P (fst st, snd st + 1)"
    using nt noTreesFrom_mono[of env "snd st" "snd st + 1"]
    by (simp add: P_def staysResident_def)
  have Pstep: "P s' " if "P s" "noTreesFrom env (snd s')" "staysResident s s'" for s s'
    using that by (auto simp: P_def intro: staysResident_trans)
  have Qstep: "Q s'" if "Q s" "staysResident s s'" for s s'
    using that by (auto simp: Q_def staysResident_def)
  have "\<exists>st1. forEach [0..trunkHeight - 1]
           (\<lambda>st i. callSetBlock (World_setBlock depth env) st (cx * CHUNK_SIZE) (y + i) (cz * CHUNK_SIZE) WOOD)
           (fst st, snd st + 1) = Inr st1 \<and> P st1"
  proof (rule forEach_total_inv[where P = P, OF P0])
    fix i s assume "P s"
    then have "noTreesFrom env (snd s)" by (simp add: P_def)
    from World_setBlock_call[OF this, of depth "cx * CHUNK_SIZE" "y + i" "cz * CHUNK_SIZE" WOOD]
    show "\<exists>s'. callSetBlock (World_setBlock depth env) s (cx * CHUNK_SIZE) (y + i) (cz * CHUNK_SIZE) WOOD = Inr s' \<and> P s'"
      using Pstep[OF \<open>P s\<close>] by blast
  qed
  then obtain st1 where trunk: "forEach [0..trunkHeight - 1]
           (\<lambda>st i. callSetBlock (World_setBlock depth env) st (cx * CHUNK_SIZE) (y + i) (cz * CHUNK_SIZE) WOOD)
           (fst st, snd st + 1) = Inr st1" and P1: "P st1" by blast
  have leaf: "\<exists>s'. placeLeaf (World_setBlock depth env) (cx * CHUNK_SIZE) leafStart (cz * CHUNK_SIZE) dy dx s dz = Inr s'
                \<and> P s' \<and> (Q s \<longrightarrow> Q s')" if "P s" for s dy dx dz
  proof -
    from that have "noTreesFrom env (snd s)" by (simp add: P_def)
    from placeLeaf_call[OF this, of depth "cx * CHUNK_SIZE" leafStart "cz * CHUNK_SIZE" dy dx dz]
    show ?thesis using Pstep[OF that] Qstep by blast
  qed
  have hit: "\<exists>s'. placeLeaf (World_setBlock depth env) (cx * CHUNK_SIZE) leafStart (cz * CHUNK_SIZE) 0 (-2) s 0 = Inr s'
                \<and> P s' \<and> Q s'" if "P s" for s
  proof -
    from that have "noTreesFrom env (snd s)" by (simp add: P_def)
    from placeLeaf_reaches[OF this ls, of depth cx cz]
    show ?thesis using Pstep[OF that] by (auto simp: Q_def)
  qed
  have dzloop: "\<exists>s'. forEach [-2..2] (placeLeaf (World_setBlock depth env) (cx * CHUNK_SIZE) leafStart (cz * CHUNK_SIZE) dy dx) s = Inr s'
                \<and> P s' \<and> (Q s \<longrightarrow> Q s')" if "P s" for s dy dx
  proof -
    have "\<exists>s'. forEach [-2..2] (placeLeaf (World_setBlock depth env) (cx * CHUNK_SIZE) leafStart (cz * CHUNK_SIZE) dy dx) s = Inr s'
                \<and> (P s' \<and> (Q s \<longrightarrow> Q s'))"
      by (rule forEach_total_inv[where P = "\<lambda>s'. P s' \<and> (Q s \<longrightarrow> Q s')"])
         (use that leaf in \<open>simp, blast\<close>)
    then show ?thesis .
  qed
  have dzhit: "\<exists>s'. forEach [-2..2] (placeLeaf (World_setBlock depth env) (cx * CHUNK_SIZE) leafStart (cz * CHUNK_SIZE) 0 (-2)) s = Inr s'
                \<and> P s' \<and> Q s'" if "P s" for s
    by (rule forEach_establish[where P = P and Q = Q and a = 0, OF that]) (use leaf hit in auto)
  define dxbody where "dxbody = (\<lambda>dy (st :: state) dx.
      forEach [-2..2] (placeLeaf (World_setBlock depth env) (cx * CHUNK_SIZE) leafStart (cz * CHUNK_SIZE) dy dx) st)"
  have dxloop: "\<exists>s'. forEach [-2..2] (dxbody dy) s = Inr s' \<and> P s' \<and> (Q s \<longrightarrow> Q s')" if "P s" for s dy
  proof -
    have "\<exists>s'. forEach [-2..2] (dxbody dy) s = Inr s' \<and> (P s' \<and> (Q s \<longrightarrow> Q s'))"
      by (rule forEach_total_inv[where P = "\<lambda>s'. P s' \<and> (Q s \<longrightarrow> Q s')"])
         (use that dzloop in \<open>simp add: dxbody_def, simp add: dxbody_def, blast\<close>)
    then show ?thesis .
  qed
  have dxhit: "\<exists>s'. forEach [-2..2] (dxbody 0) s = Inr s' \<and> P s' \<and> Q s'" if "P s" for s
    by (rule forEach_establish[where P = P and Q = Q and a = "-2", OF that])
       (use dzloop dzhit in \<open>auto simp: dxbody_def\<close>)
  have leaves: "\<exists>s'. forEach [0..3] (\<lambda>st dy. forEach [-2..2] (dxbody dy) st) st1 = Inr s' \<and> P s' \<and> Q s'"
    by (rule forEach_establish[where P = P and Q = Q and a = 0, OF P1]) (use dxloop dxhit in auto)
  then obtain st' where l: "forEach [0..3] (\<lambda>st dy. forEach [-2..2] (dxbody dy) st) st1 = Inr st'"
    and "P st'" "Q st'" by blast
  moreover have "generateTree (World_setBlock depth env) env st (cx * CHUNK_SIZE) y (cz * CHUNK_SIZE) = Inr st'"
    unfolding generateTree_def Let_def trunkHeight_def[symmetric] trunk leafStart_def[symmetric]
    using l by (simp add: dxbody_def)
  ultimately show ?thesis by (auto simp: P_def Q_def)
qed

lemma columnHeight_seed: "seed w = seed w' \<Longrightarrow> columnHeight env w = columnHeight env w'"
  by (simp add: columnHeight_def fun_eq_iff)

lemma columnHeight_nonneg: "0 \<le> columnHeight env w x z"
  by (simp add: columnHeight_def Let_def)

text \<open>
  A write into a chunk that is not resident, with a tree drawn for the chunk's first column
  and none afterwards: the tree's leaves reach across the border, and the neighbour at
  \<open>(chunkX - 1, chunkZ)\<close> is resident afterwards, wherever in the chunk the write was.
\<close>

lemma setBlock_creates_neighbour:
  assumes tree: "mathRandom env k < treeChance" and rest: "noTreesFrom env (k + 1)"
    and unit: "0 \<le> mathRandom env (k + 1)" "mathRandom env (k + 1) < 1"
    and absent: "getChunk w (x div CHUNK_SIZE) (z div CHUNK_SIZE) = None"
    and h: "columnHeight env w (x div CHUNK_SIZE * CHUNK_SIZE) (z div CHUNK_SIZE * CHUNK_SIZE)
              < CHUNK_HEIGHT - 6"
    and y: "0 \<le> y" "y < CHUNK_HEIGHT"
  shows "\<exists>st'. World_setBlock (Suc depth) env (w, k) x y z b = Inr (True, st')
           \<and> getChunk (fst st') (x div CHUNK_SIZE - 1) (z div CHUNK_SIZE) \<noteq> None"
proof -
  define cx where "cx = x div CHUNK_SIZE"
  define cz where "cz = z div CHUNK_SIZE"
  define S where "S = World_setBlock depth env"
  define w0 where "w0 = storeChunk w (cx, cz) (newChunk cx cz)"
  define height where "height = columnHeight env w0 (cx * CHUNK_SIZE + 0) (cz * CHUNK_SIZE + 0)"
  define w1 where "w1 = storeChunk w0 (cx, cz) (placeBlocks (newChunk cx cz) 0 0 height 0)"
  define I where "I = (\<lambda>s :: state. noTreesFrom env (snd s) \<and> getChunk (fst s) cx cz \<noteq> None
                          \<and> getChunk (fst s) (cx - 1) cz \<noteq> None)"
  have kS: "keepsResident S" unfolding S_def by (rule World_setBlock_keepsResident)
  have hh: "0 \<le> height" "height < CHUNK_HEIGHT - 6"
    using h columnHeight_seed[of w0 w env] columnHeight_nonneg[of env w0]
    by (simp_all add: height_def w0_def cx_def cz_def)
  have g0: "getChunk w0 cx cz = Some (newChunk cx cz)"
    by (simp add: w0_def getChunk_storeChunk)
  have col00: "generateColumn S env (cx, cz) (w0, k) 0 0
                 = generateTree S env (w1, k + 1) (cx * CHUNK_SIZE) height (cz * CHUNK_SIZE)"
    unfolding generateColumn_def Let_def prod.case g0 option.case height_def[symmetric]
      w1_def[symmetric]
    using hh tree by simp
  from generateTree_reaches[of env "(w1, k + 1)" height depth cx cz] rest unit hh
  obtain s1 where t: "generateTree S env (w1, k + 1) (cx * CHUNK_SIZE) height (cz * CHUNK_SIZE) = Inr s1"
    and s1: "noTreesFrom env (snd s1)" "staysResident (w1, k + 1) s1" "getChunk (fst s1) (cx - 1) cz \<noteq> None"
    unfolding S_def by auto
  have "getChunk w1 cx cz \<noteq> None" by (simp add: w1_def getChunk_storeChunk)
  with s1 have I1: "I s1" by (auto simp: I_def staysResident_def)
  have col: "\<exists>s'. generateColumn S env (cx, cz) s cxx czz = Inr s' \<and> I s'" if "I s" for s cxx czz
  proof -
    from that have "noTreesFrom env (snd s)" "getChunk (fst s) cx cz \<noteq> None" by (simp_all add: I_def)
    from generateColumn_noTrees[OF this, of S cxx czz] obtain s' where
      "generateColumn S env (cx, cz) s cxx czz = Inr s'" "onlyChunk env (cx, cz) s s'" by blast
    then show ?thesis using that by (auto simp: I_def onlyChunk_def)
  qed
  have zloop: "\<exists>s'. forEach zs (\<lambda>st z. generateColumn S env (cx, cz) st cxx z) s = Inr s' \<and> I s'"
    if "I s" for s cxx zs
    by (rule forEach_total_inv[where P = I, OF that]) (rule col)
  have split: "[0..CHUNK_SIZE - 1] = 0 # [1..CHUNK_SIZE - 1]"
    using upto_rec1[of 0 "CHUNK_SIZE - 1"] by (simp add: CHUNK_SIZE_def)
  from zloop[OF I1, of "[1..CHUNK_SIZE - 1]" 0] obtain s2 where
    z0: "forEach [1..CHUNK_SIZE - 1] (\<lambda>st z. generateColumn S env (cx, cz) st 0 z) s1 = Inr s2"
    and I2: "I s2" by blast
  have x0: "forEach [0..CHUNK_SIZE - 1] (\<lambda>st z. generateColumn S env (cx, cz) st 0 z) (w0, k) = Inr s2"
    by (subst split) (simp only: forEach.simps col00 t sum.case z0)
  have "\<exists>s3. forEach [1..CHUNK_SIZE - 1]
            (\<lambda>st x. forEach [0..CHUNK_SIZE - 1] (\<lambda>st z. generateColumn S env (cx, cz) st x z) st) s2 = Inr s3
          \<and> I s3"
    by (rule forEach_total_inv[where P = I, OF I2]) (rule zloop)
  then obtain s3 where
    xs: "forEach [1..CHUNK_SIZE - 1]
            (\<lambda>st x. forEach [0..CHUNK_SIZE - 1] (\<lambda>st z. generateColumn S env (cx, cz) st x z) st) s2 = Inr s3"
    and I3: "I s3" by blast
  have gen: "generateChunkTerrain S env (cx, cz) (w0, k) = Inr s3"
    unfolding generateChunkTerrain_def
    by (subst split) (simp only: forEach.simps x0 sum.case xs)
  have goc: "getOrCreateChunk S env (w, k) cx cz = Inr s3"
    using absent gen by (simp add: getOrCreateChunk_def cx_def cz_def w0_def)
  have "World_setBlock (Suc depth) env (w, k) x y z b
          = Inr (True, (writeAndMark (fst s3) x y z b, snd s3))"
    using y goc by (simp add: setBlockBody_writeAndMark S_def cx_def cz_def split: prod.splits)
  moreover have "getChunk (writeAndMark (fst s3) x y z b) (cx - 1) cz \<noteq> None"
    using I3 unfolding writeAndMark_resident by (simp add: I_def)
  ultimately show ?thesis by (simp add: cx_def cz_def)
qed

text \<open>
  The claim C4 as it is written fails on a write into a chunk that is not yet resident:
  the block goes to the interior local coordinate \<open>(8, 8)\<close> of chunk \<open>(0, 0)\<close>, the
  neighbour \<open>(-1, 0)\<close> is not resident before the write, and it is resident after it.
\<close>

theorem setBlock_interior_write_creates_neighbour:
  "getChunk emptyWorld (-1) 0 = None
   \<and> (8::int) - 8 div CHUNK_SIZE * CHUNK_SIZE = 8
   \<and> fst (projr (World_setBlock 1 treeEnv (emptyWorld, 0) 8 30 8 STONE))
   \<and> getChunk (fst (snd (projr (World_setBlock 1 treeEnv (emptyWorld, 0) 8 30 8 STONE)))) (-1) 0 \<noteq> None"
proof -
  have a: "mathRandom treeEnv 0 < treeChance" "noTreesFrom treeEnv (0 + 1)"
    "0 \<le> mathRandom treeEnv (0 + 1)" "mathRandom treeEnv (0 + 1) < 1"
    by (simp_all add: treeEnv_def treeChance_def noTreesFrom_def)
  have b: "getChunk emptyWorld (8 div CHUNK_SIZE) (8 div CHUNK_SIZE) = None"
    by (simp add: emptyWorld_def getChunk_def)
  have c: "columnHeight treeEnv emptyWorld (8 div CHUNK_SIZE * CHUNK_SIZE) (8 div CHUNK_SIZE * CHUNK_SIZE)
             < CHUNK_HEIGHT - 6"
    by (simp add: columnHeight_def treeEnv_def flatNoise_def baseHeight_def CHUNK_HEIGHT_def)
  have d: "(0::int) \<le> 30" "30 < CHUNK_HEIGHT" by (simp_all add: CHUNK_HEIGHT_def)
  from setBlock_creates_neighbour[OF a b c d, of 0 STONE] obtain st' where
    "World_setBlock (Suc 0) treeEnv (emptyWorld, 0) 8 30 8 STONE = Inr (True, st')"
    "getChunk (fst st') (8 div CHUNK_SIZE - 1) (8 div CHUNK_SIZE) \<noteq> None" by blast
  then have "World_setBlock 1 treeEnv (emptyWorld, 0) 8 30 8 STONE = Inr (True, st')"
    "getChunk (fst st') (-1) 0 \<noteq> None"
    by (simp_all add: CHUNK_SIZE_def)
  moreover have "getChunk emptyWorld (-1) 0 = None" by (simp add: emptyWorld_def getChunk_def)
  moreover have "(8::int) - 8 div CHUNK_SIZE * CHUNK_SIZE = 8" by (simp add: CHUNK_SIZE_def)
  ultimately show ?thesis by simp
qed

section \<open>Reading back what a write stored\<close>

lemma Chunk_getBlock_setBlock_other:
  assumes "(x', y', z') \<noteq> (x, y, z)"
  shows "Chunk_getBlock (Chunk_setBlock c x y z b) x' y' z' = Chunk_getBlock c x' y' z'"
proof (cases "0 \<le> x \<and> x < CHUNK_SIZE \<and> 0 \<le> y \<and> y < CHUNK_HEIGHT \<and> 0 \<le> z \<and> z < CHUNK_SIZE")
  case False
  then show ?thesis by (auto simp: Chunk_setBlock_def)
next
  case inb: True
  show ?thesis
  proof (cases "0 \<le> x' \<and> x' < CHUNK_SIZE \<and> 0 \<le> y' \<and> y' < CHUNK_HEIGHT \<and> 0 \<le> z' \<and> z' < CHUNK_SIZE")
    case False
    then show ?thesis by (auto simp: Chunk_getBlock_def)
  next
    case inb': True
    have i: "0 \<le> getBlockIndex x y z" "0 \<le> getBlockIndex x' y' z'"
      using getBlockIndex_bounds(1)[of x y z] getBlockIndex_bounds(1)[of x' y' z'] inb inb' by auto
    have "getBlockIndex x y z \<noteq> getBlockIndex x' y' z'"
      using getBlockIndex_inj[of x z x' z' y y'] inb inb' assms by auto
    then have ne: "nat (getBlockIndex x y z) \<noteq> nat (getBlockIndex x' y' z')"
      using i by simp
    show ?thesis
      using inb inb' ne
      by (simp add: Chunk_getBlock_def Chunk_setBlock_def typedArrayGet_def typedArraySet_def)
  qed
qed

lemma Chunk_getBlock_dirty [simp]: "Chunk_getBlock (c\<lparr>dirty := d\<rparr>) x y z = Chunk_getBlock c x y z"
  by (simp add: Chunk_getBlock_def)

lemma local_coordinate:
  "x - x div CHUNK_SIZE * CHUNK_SIZE = x mod CHUNK_SIZE"
  "0 \<le> x mod CHUNK_SIZE" "x mod CHUNK_SIZE < CHUNK_SIZE"
  by (simp_all add: CHUNK_SIZE_def minus_div_mult_eq_mod)

lemma World_getBlock_cong:
  assumes "getChunk w' (x div CHUNK_SIZE) (z div CHUNK_SIZE) = getChunk w (x div CHUNK_SIZE) (z div CHUNK_SIZE)"
  shows "World_getBlock w' x y z = World_getBlock w x y z"
  using assms by (simp add: World_getBlock_def Let_def)

lemma World_getBlock_writeAndMark_other:
  assumes "(X, Y, Z) \<noteq> (x, y, z)"
  shows "World_getBlock (writeAndMark w x y z b) X Y Z = World_getBlock w X Y Z"
proof (cases "(X div CHUNK_SIZE, Z div CHUNK_SIZE) = (x div CHUNK_SIZE, z div CHUNK_SIZE)")
  case True
  then have same: "X div CHUNK_SIZE = x div CHUNK_SIZE" "Z div CHUNK_SIZE = z div CHUNK_SIZE" by simp_all
  have "X = x" if "X mod CHUNK_SIZE = x mod CHUNK_SIZE"
    using that same(1) by (metis mult_div_mod_eq)
  moreover have "Z = z" if "Z mod CHUNK_SIZE = z mod CHUNK_SIZE"
    using that same(2) by (metis mult_div_mod_eq)
  ultimately have ne: "(X mod CHUNK_SIZE, Y, Z mod CHUNK_SIZE) \<noteq> (x mod CHUNK_SIZE, y, z mod CHUNK_SIZE)"
    using assms by auto
  have lx: "X - x div CHUNK_SIZE * CHUNK_SIZE = X mod CHUNK_SIZE"
    "Z - z div CHUNK_SIZE * CHUNK_SIZE = Z mod CHUNK_SIZE"
    using local_coordinate(1)[of X] local_coordinate(1)[of Z] same by simp_all
  show ?thesis
    unfolding World_getBlock_def Let_def getChunk_writeAndMark local_coordinate(1) same lx
    using Chunk_getBlock_setBlock_other[OF ne]
    by (auto split: option.splits)
next
  case False
  then show ?thesis
    unfolding World_getBlock_def Let_def getChunk_writeAndMark local_coordinate(1)
    by (auto split: option.splits)
qed

lemma World_getBlock_writeAndMark_same:
  assumes "0 \<le> y" "y < CHUNK_HEIGHT"
    and "getChunk w (x div CHUNK_SIZE) (z div CHUNK_SIZE) = Some c"
    and "length (blocks c) = nat (CHUNK_SIZE * CHUNK_HEIGHT * CHUNK_SIZE)"
  shows "World_getBlock (writeAndMark w x y z b) x y z = Some b"
  unfolding World_getBlock_def Let_def getChunk_writeAndMark local_coordinate(1)
  using assms local_coordinate(2,3)[of x] local_coordinate(2,3)[of z]
  by (simp add: Chunk_getBlock_setBlock)

lemma callSetBlock_keeps_block:
  assumes nt: "noTreesFrom env (snd st)"
    and res: "getChunk (fst st) (x div CHUNK_SIZE) (z div CHUNK_SIZE) \<noteq> None"
    and ne: "(x, y, z) \<noteq> (X, Y, Z)"
  shows "\<exists>st'. callSetBlock (World_setBlock depth env) st X Y Z b = Inr st'
           \<and> noTreesFrom env (snd st')
           \<and> getChunk (fst st') (x div CHUNK_SIZE) (z div CHUNK_SIZE) \<noteq> None
           \<and> World_getBlock (fst st') x y z = World_getBlock (fst st) x y z"
proof (cases "0 \<le> Y \<and> Y < CHUNK_HEIGHT")
  case False
  then have "World_setBlock depth env st X Y Z b = Inr (False, st)"
    by (intro World_setBlock_out_of_range) auto
  then show ?thesis using nt res by (simp add: callSetBlock_def)
next
  case True
  from World_setBlock_total[of Y st X Z env depth b] True nt obtain w1 k1 where
    run: "World_setBlock depth env st X Y Z b = Inr (True, (writeAndMark w1 X Y Z b, k1))" and
    frame: "\<forall>a c. (a, c) \<noteq> (X div CHUNK_SIZE, Z div CHUNK_SIZE) \<longrightarrow> getChunk w1 a c = getChunk (fst st) a c" and
    same: "getChunk (fst st) (X div CHUNK_SIZE) (Z div CHUNK_SIZE) \<noteq> None \<longrightarrow> (w1, k1) = st" and
    nt1: "noTreesFrom env k1" by auto
  have g: "getChunk w1 (x div CHUNK_SIZE) (z div CHUNK_SIZE) = getChunk (fst st) (x div CHUNK_SIZE) (z div CHUNK_SIZE)"
  proof (cases "(x div CHUNK_SIZE, z div CHUNK_SIZE) = (X div CHUNK_SIZE, Z div CHUNK_SIZE)")
    case True
    with res same have "(w1, k1) = st" by auto
    then show ?thesis by auto
  next
    case False
    then show ?thesis using frame by blast
  qed
  have "World_getBlock (writeAndMark w1 X Y Z b) x y z = World_getBlock w1 x y z"
    by (rule World_getBlock_writeAndMark_other[OF ne])
  also have "\<dots> = World_getBlock (fst st) x y z"
    by (rule World_getBlock_cong[OF g])
  finally have blk: "World_getBlock (writeAndMark w1 X Y Z b) x y z = World_getBlock (fst st) x y z" .
  have "getChunk (writeAndMark w1 X Y Z b) (x div CHUNK_SIZE) (z div CHUNK_SIZE) \<noteq> None"
    unfolding writeAndMark_resident g by (rule res)
  then show ?thesis using run nt1 blk by (simp add: callSetBlock_def)
qed

text \<open>
  With no further tree drawn, a tree planted at \<open>(x, y, z)\<close> in a resident, full-sized chunk
  leaves Wood at \<open>(x, y, z)\<close>: the first trunk block is written there and no later block of
  the tree is.
\<close>

lemma generateTree_trunk_base:
  assumes nt: "noTreesFrom env (snd st)"
    and unit: "0 \<le> mathRandom env (snd st)" "mathRandom env (snd st) < 1"
    and y: "0 \<le> y" "y < CHUNK_HEIGHT - 6"
    and res: "getChunk (fst st) (x div CHUNK_SIZE) (z div CHUNK_SIZE) = Some c"
    and len: "length (blocks c) = nat (CHUNK_SIZE * CHUNK_HEIGHT * CHUNK_SIZE)"
  shows "\<exists>st'. generateTree (World_setBlock depth env) env st x y z = Inr st'
           \<and> World_getBlock (fst st') x y z = Some WOOD"
proof -
  define S where "S = World_setBlock depth env"
  define P where "P = (\<lambda>s :: state. noTreesFrom env (snd s)
       \<and> getChunk (fst s) (x div CHUNK_SIZE) (z div CHUNK_SIZE) \<noteq> None
       \<and> World_getBlock (fst s) x y z = Some WOOD)"
  define trunkHeight where "trunkHeight = 4 + \<lfloor>mathRandom env (snd st) * 2\<rfloor>"
  define leafStart where "leafStart = y + trunkHeight - 1"
  have fl: "0 \<le> \<lfloor>mathRandom env (snd st) * 2\<rfloor>"
    using unit by simp
  then have th: "4 \<le> trunkHeight" unfolding trunkHeight_def by linarith
  have keep: "\<exists>s'. callSetBlock S s X Y Z b = Inr s' \<and> P s'" if "P s" "(x, y, z) \<noteq> (X, Y, Z)" for s X Y Z b
  proof -
    from that(1) have "noTreesFrom env (snd s)" "getChunk (fst s) (x div CHUNK_SIZE) (z div CHUNK_SIZE) \<noteq> None"
      by (simp_all add: P_def)
    from callSetBlock_keeps_block[OF this that(2), of depth b] that(1)
    show ?thesis by (auto simp: P_def S_def)
  qed
  have nt1: "noTreesFrom env (snd st + 1)"
    using nt noTreesFrom_mono[of env "snd st" "snd st + 1"] by simp
  have y64: "0 \<le> y + 0" "y + 0 < CHUNK_HEIGHT" using y by (simp_all add: CHUNK_HEIGHT_def)
  from World_setBlock_total[of "y + 0" "(fst st, snd st + 1)" x z env depth WOOD] y64 res
  have first: "World_setBlock depth env (fst st, snd st + 1) x (y + 0) z WOOD
                = Inr (True, (writeAndMark (fst st) x (y + 0) z WOOD, snd st + 1))"
    by auto
  define s0 where "s0 = (writeAndMark (fst st) x (y + 0) z WOOD, snd st + 1)"
  have c0: "callSetBlock S (fst st, snd st + 1) x (y + 0) z WOOD = Inr s0"
    unfolding callSetBlock_def S_def first s0_def by simp
  have "World_getBlock (fst s0) x y z = Some WOOD"
    using World_getBlock_writeAndMark_same[OF y64 res len, of WOOD] by (simp add: s0_def)
  moreover have "getChunk (fst s0) (x div CHUNK_SIZE) (z div CHUNK_SIZE) \<noteq> None"
    unfolding s0_def fst_conv writeAndMark_resident using res by simp
  ultimately have P0: "P s0" using nt1 by (simp add: P_def s0_def)
  have "\<exists>s1. forEach [1..trunkHeight - 1] (\<lambda>st i. callSetBlock S st x (y + i) z WOOD) s0 = Inr s1 \<and> P s1"
  proof (rule forEach_total_inv[where P = P, OF P0])
    fix i s assume "i \<in> set [1..trunkHeight - 1]" "P s"
    then have "(x, y, z) \<noteq> (x, y + i, z)" by simp
    from keep[OF \<open>P s\<close> this] show "\<exists>s'. callSetBlock S s x (y + i) z WOOD = Inr s' \<and> P s'" .
  qed
  then obtain s1 where
    rest: "forEach [1..trunkHeight - 1] (\<lambda>st i. callSetBlock S st x (y + i) z WOOD) s0 = Inr s1"
    and P1: "P s1" by blast
  have split: "[0..trunkHeight - 1] = 0 # [1..trunkHeight - 1]"
    using upto_rec1[of 0 "trunkHeight - 1"] th by simp
  have trunk: "forEach [0..trunkHeight - 1] (\<lambda>st i. callSetBlock S st x (y + i) z WOOD) (fst st, snd st + 1) = Inr s1"
    by (subst split) (simp only: forEach.simps c0 sum.case rest)
  have leaf: "\<exists>s'. placeLeaf S x leafStart z dy dx s dz = Inr s' \<and> P s'" if "P s" "0 \<le> dy" for s dy dx dz
  proof (cases "placeLeaf S x leafStart z dy dx s dz = Inr s")
    case True
    then show ?thesis using that by simp
  next
    case False
    then have call: "placeLeaf S x leafStart z dy dx s dz = callSetBlock S s (x + dx) (leafStart + dy) (z + dz) LEAVES"
      by (auto simp: placeLeaf_def Let_def split: if_splits)
    have "y \<noteq> leafStart + dy" using th that(2) unfolding leafStart_def by linarith
    then have "(x, y, z) \<noteq> (x + dx, leafStart + dy, z + dz)" by simp
    from keep[OF that(1) this] call show ?thesis by simp
  qed
  define dzloop where "dzloop = (\<lambda>dy (st :: state) dx. forEach [-2..2] (placeLeaf S x leafStart z dy dx) st)"
  have dz: "\<exists>s'. dzloop dy s dx = Inr s' \<and> P s'" if "P s" "0 \<le> dy" for s dy dx
    unfolding dzloop_def
    by (rule forEach_total_inv[where P = P, OF that(1)]) (rule leaf[OF _ that(2)])
  have dx: "\<exists>s'. forEach [-2..2] (dzloop dy) s = Inr s' \<and> P s'" if "P s" "0 \<le> dy" for s dy
    by (rule forEach_total_inv[where P = P, OF that(1)]) (rule dz[OF _ that(2)])
  have "\<exists>s'. forEach [0..3] (\<lambda>st dy. forEach [-2..2] (dzloop dy) st) s1 = Inr s' \<and> P s'"
  proof (rule forEach_total_inv[where P = P, OF P1])
    fix dy s assume "dy \<in> set [0..3]" "P s"
    then have "0 \<le> dy" by simp
    from dx[OF \<open>P s\<close> this] show "\<exists>s'. forEach [-2..2] (dzloop dy) s = Inr s' \<and> P s'" .
  qed
  then obtain st' where l: "forEach [0..3] (\<lambda>st dy. forEach [-2..2] (dzloop dy) st) s1 = Inr st'"
    and "P st'" by blast
  moreover have "generateTree S env st x y z = Inr st'"
    unfolding generateTree_def Let_def trunkHeight_def[symmetric] trunk leafStart_def[symmetric]
    using l by (simp add: dzloop_def)
  ultimately show ?thesis by (auto simp: P_def S_def)
qed

lemma length_blocks_newChunk:
  "length (blocks (newChunk cx cz)) = nat (CHUNK_SIZE * CHUNK_HEIGHT * CHUNK_SIZE)"
  by (simp add: newChunk_def)

lemma getChunk_freshWorld:
  "getChunk freshWorld a c = (if (a, c) = (0, 0) then Some (newChunk 0 0) else None)"
  by (simp add: freshWorld_def getChunk_def)

lemma columnHeight_flat:
  "octaveNoise2D env = flatNoise \<Longrightarrow> columnHeight env w x z = 20"
  by (simp add: columnHeight_def flatNoise_def baseHeight_def)

section \<open>Terrain generation and the random source\<close>

text \<open>
  C1 at a concrete column. Column \<open>(8, 8)\<close> of the fresh chunk \<open>(0, 0)\<close> is generated twice
  from the same world, with the same seed and the same noise generator (height 20 both
  times); only the values returned by \<^verbatim>\<open>Math.random()\<close> differ. With the value
  \<open>1/2\<close> no tree is placed and the cell above the grass is Air; with the value \<open>0\<close> a tree
  is placed and the same cell holds Wood.
\<close>

theorem column_generation_follows_random:
  "octaveNoise2D quietEnv = octaveNoise2D treeEnv
   \<and> World_getBlock (fst (projr (generateColumn (World_setBlock 0 quietEnv) quietEnv (0, 0)
        (freshWorld, 0) 8 8))) 8 20 8 = Some AIR
   \<and> World_getBlock (fst (projr (generateColumn (World_setBlock 0 treeEnv) treeEnv (0, 0)
        (freshWorld, 0) 8 8))) 8 20 8 = Some WOOD"
proof -
  define w1 where "w1 = storeChunk freshWorld (0, 0) (placeBlocks (newChunk 0 0) 8 8 20 0)"
  have hq: "columnHeight quietEnv freshWorld (0 * CHUNK_SIZE + 8) (0 * CHUNK_SIZE + 8) = 20"
    by (rule columnHeight_flat) (simp add: quietEnv_def)
  have ht: "columnHeight treeEnv freshWorld (0 * CHUNK_SIZE + 8) (0 * CHUNK_SIZE + 8) = 20"
    by (rule columnHeight_flat) (simp add: treeEnv_def)
  have g1: "getChunk w1 0 0 = Some (placeBlocks (newChunk 0 0) 8 8 20 0)"
    by (simp add: w1_def getChunk_storeChunk)
  have quiet: "generateColumn (World_setBlock 0 quietEnv) quietEnv (0, 0) (freshWorld, 0) 8 8 = Inr (w1, 1)"
    unfolding generateColumn_def Let_def prod.case hq
    by (simp add: getChunk_freshWorld w1_def quietEnv_def treeChance_def CHUNK_HEIGHT_def)
  have air: "World_getBlock w1 8 20 8 = Some AIR"
    by (simp add: World_getBlock_def Let_def CHUNK_SIZE_def CHUNK_HEIGHT_def g1)
       (simp add: Chunk_getBlock_placeBlocks length_blocks_newChunk Chunk_getBlock_newChunk)
  have tree: "generateColumn (World_setBlock 0 treeEnv) treeEnv (0, 0) (freshWorld, 0) 8 8
                = generateTree (World_setBlock 0 treeEnv) treeEnv (w1, 0 + 1) 8 20 8"
    unfolding generateColumn_def Let_def prod.case ht
    by (simp add: getChunk_freshWorld w1_def treeEnv_def treeChance_def CHUNK_HEIGHT_def CHUNK_SIZE_def)
  have a: "noTreesFrom treeEnv (snd (w1, 0 + 1 :: nat))"
    "0 \<le> mathRandom treeEnv (snd (w1, 0 + 1 :: nat))" "mathRandom treeEnv (snd (w1, 0 + 1 :: nat)) < 1"
    by (simp_all add: treeEnv_def noTreesFrom_def treeChance_def)
  have b: "(0::int) \<le> 20" "20 < CHUNK_HEIGHT - 6" by (simp_all add: CHUNK_HEIGHT_def)
  have c: "getChunk (fst (w1, 0 + 1 :: nat)) (8 div CHUNK_SIZE) (8 div CHUNK_SIZE)
             = Some (placeBlocks (newChunk 0 0) 8 8 20 0)"
    by (simp add: CHUNK_SIZE_def g1)
  have d: "length (blocks (placeBlocks (newChunk 0 0) 8 8 20 0)) = nat (CHUNK_SIZE * CHUNK_HEIGHT * CHUNK_SIZE)"
    by (simp add: length_blocks_newChunk)
  from generateTree_trunk_base[OF a b c d, of 0] obtain st' where
    "generateTree (World_setBlock 0 treeEnv) treeEnv (w1, 0 + 1) 8 20 8 = Inr st'"
    "World_getBlock (fst st') 8 20 8 = Some WOOD" by blast
  then have wood: "World_getBlock (fst (projr (generateColumn (World_setBlock 0 treeEnv) treeEnv (0, 0)
        (freshWorld, 0) 8 8))) 8 20 8 = Some WOOD"
    by (simp only: tree sum.sel)
  have "octaveNoise2D quietEnv = octaveNoise2D treeEnv" by (simp add: quietEnv_def treeEnv_def)
  then show ?thesis using wood air by (simp only: quiet sum.sel fst_conv)
qed

section \<open>Mesh rebuilding is face culling\<close>

lemma shouldRenderFace_exposed:
  "shouldRenderFace w c x y z (dir face) = exposed w c x y z face"
  by (auto simp: shouldRenderFace_def exposed_def neighbourBlock_def Let_def Chunk_getBlock_def
      World_getBlock_def split: prod.splits)

lemma appendQuads_Nil [simp]: "appendQuads c buf [] = buf"
  by (simp add: appendQuads_def)

lemma appendQuads_append: "appendQuads c (appendQuads c buf qs) rs = appendQuads c buf (qs @ rs)"
  by (simp add: appendQuads_def)

lemma meshFaces_appendQuads:
  "meshFaces w c x y z fs buf
     = appendQuads c buf (map (\<lambda>face. (x, y, z, face)) (filter (exposed w c x y z) fs))"
  by (induction fs arbitrary: buf) (simp_all add: appendQuads_def shouldRenderFace_exposed)

lemma meshBlock_appendQuads:
  assumes "knownBlocks c"
  shows "meshBlock w c buf x y z
           = Inr (appendQuads c buf (map (\<lambda>face. (x, y, z, face)) (exposedFaces w c x y z)))"
proof -
  from knownBlocks_getBlock[OF assms, of x y z] obtain b props where
    "Chunk_getBlock c x y z = Some b" "BlockProperties b = Some props" by auto
  then show ?thesis
    by (simp add: meshBlock_def exposedFaces_def meshFaces_appendQuads)
qed

lemma forEach_appendQuads:
  assumes "\<And>a s. a \<in> set xs \<Longrightarrow> body s a = Inr (appendQuads c s (g a))"
  shows "forEach xs body s = Inr (appendQuads c s (concat (map g xs)))"
  using assms
proof (induction xs arbitrary: s)
  case Nil
  then show ?case by simp
next
  case (Cons a xs)
  have "forEach xs body (appendQuads c s (g a))
          = Inr (appendQuads c (appendQuads c s (g a)) (concat (map g xs)))"
    by (rule Cons.IH) (simp add: Cons.prems)
  then show ?case by (simp add: Cons.prems appendQuads_append)
qed

lemma meshLoop_appendQuads:
  assumes "knownBlocks c"
  shows "meshLoop w c = Inr (appendQuads c emptyBuf (chunkQuads w c))"
  unfolding meshLoop_def chunkQuads_def
  by (intro forEach_appendQuads meshBlock_appendQuads assms)

lemma appendQuads_buffers:
  "bufVertices (appendQuads c buf qs) = bufVertices buf @ bufVertices (quadsMesh c qs)
   \<and> bufColors (appendQuads c buf qs) = bufColors buf @ bufColors (quadsMesh c qs)
   \<and> bufIndices (appendQuads c buf qs)
       = bufIndices buf @ concat (map (\<lambda>i. quadIndices (vertexCount buf + 4 * i)) [0..<length qs])
   \<and> vertexCount (appendQuads c buf qs) = vertexCount buf + 4 * length qs"
proof (induction qs arbitrary: buf)
  case Nil
  then show ?case by (simp add: quadsMesh_def)
next
  case (Cons q qs)
  obtain x y z face where q: "q = (x, y, z, face)" by (cases q)
  define buf' where "buf' = emitFace buf (chunkX c * CHUNK_SIZE + x) y (chunkZ c * CHUNK_SIZE + z) face"
  have step: "appendQuads c buf (q # qs) = appendQuads c buf' qs"
    by (simp add: appendQuads_def q buf'_def)
  have shift: "map (\<lambda>i. quadIndices (vertexCount buf + 4 * i)) [0..<Suc (length qs)]
                 = quadIndices (vertexCount buf)
                   # map (\<lambda>i. quadIndices (vertexCount buf + 4 + 4 * i)) [0..<length qs]"
    by (simp add: upt_conv_Cons map_Suc_upt[symmetric] add.assoc del: upt_Suc)
  show ?case
    unfolding step
    using Cons.IH[of buf'] shift
    by (simp add: buf'_def emitFace_def quadsMesh_def q del: upt_Suc)
qed

lemma appendQuads_emptyBuf: "appendQuads c emptyBuf qs = quadsMesh c qs"
  using appendQuads_buffers[of c emptyBuf qs]
  by (simp add: emptyBuf_def quadsMesh_def)

lemma length_quad_corners:
  "length (concat (map (\<lambda>(v0, v1, v2). [a + v0, b + v1, d + v2]) vs)) = 3 * length vs"
  by (induction vs) auto

lemma length_quadVertices: "length (quadVertices a b d face) = 3 * length (corners face)"
  by (simp add: quadVertices_def length_quad_corners)

lemma length_quadsMesh_vertices:
  assumes "\<forall>(x, y, z, face) \<in> set qs. length (corners face) = 4"
  shows "length (bufVertices (quadsMesh c qs)) = 3 * 4 * length qs"
  using assms by (induction qs) (auto simp: quadsMesh_def length_quadVertices)

lemma length_quad_indices:
  "length (concat (map (\<lambda>i. quadIndices (4 * i)) [0..<n])) = 3 * 2 * n"
  by (induction n) (simp_all add: quadIndices_def)

lemma length_quadsMesh_indices: "length (bufIndices (quadsMesh c qs)) = 3 * 2 * length qs"
  by (simp add: quadsMesh_def length_quad_indices)

lemma faces_corners: "face \<in> set (faces props) \<Longrightarrow> length (corners face) = 4"
  by (auto simp: faces_def)

lemma exposedFaces_iff:
  "face \<in> set (exposedFaces w c x y z) \<longleftrightarrow>
     (\<exists>b props. Chunk_getBlock c x y z = Some b \<and> b \<noteq> AIR \<and> BlockProperties b = Some props
        \<and> face \<in> set (faces props)
        \<and> neighbourBlock w c (x + fst (dir face)) (y + fst (snd (dir face))) (z + snd (snd (dir face)))
            = Some AIR)"
proof (cases "Chunk_getBlock c x y z")
  case None
  then show ?thesis by (simp add: exposedFaces_def)
next
  case (Some b)
  show ?thesis
  proof (cases "b = AIR \<or> BlockProperties b = None")
    case True
    then show ?thesis using Some by (auto simp: exposedFaces_def)
  next
    case False
    then obtain props where "BlockProperties b = Some props" "b \<noteq> AIR" by auto
    then show ?thesis using Some
      by (simp add: exposedFaces_def exposed_def case_prod_unfold)
  qed
qed

lemma chunkQuads_iff:
  "(x, y, z, face) \<in> set (chunkQuads w c) \<longleftrightarrow>
     0 \<le> x \<and> x < CHUNK_SIZE \<and> 0 \<le> y \<and> y < CHUNK_HEIGHT \<and> 0 \<le> z \<and> z < CHUNK_SIZE
     \<and> face \<in> set (exposedFaces w c x y z)"
proof -
  have "set (chunkQuads w c) =
          {(x, y, z, face). (0 \<le> x \<and> x \<le> CHUNK_SIZE - 1) \<and> (0 \<le> y \<and> y \<le> CHUNK_HEIGHT - 1)
             \<and> (0 \<le> z \<and> z \<le> CHUNK_SIZE - 1) \<and> face \<in> set (exposedFaces w c x y z)}"
    unfolding chunkQuads_def by (simp add: set_eq_iff image_iff)
  then show ?thesis by auto
qed

lemma chunkQuads_corners: "\<forall>(x, y, z, face) \<in> set (chunkQuads w c). length (corners face) = 4"
  by (auto simp: chunkQuads_iff exposedFaces_iff faces_corners)

lemma exposedFaces_all:
  assumes "Chunk_getBlock c x y z = Some b" "b \<noteq> AIR" "BlockProperties b = Some props"
    and "neighbourBlock w c x (y + 1) z = Some AIR" "neighbourBlock w c x (y - 1) z = Some AIR"
    and "neighbourBlock w c x y (z + 1) = Some AIR" "neighbourBlock w c x y (z - 1) = Some AIR"
    and "neighbourBlock w c (x + 1) y z = Some AIR" "neighbourBlock w c (x - 1) y z = Some AIR"
  shows "exposedFaces w c x y z = faces props"
  using assms by (simp add: exposedFaces_def faces_def exposed_def)

lemma exposedFaces_none:
  assumes "neighbourBlock w c x (y + 1) z \<noteq> Some AIR" "neighbourBlock w c x (y - 1) z \<noteq> Some AIR"
    and "neighbourBlock w c x y (z + 1) \<noteq> Some AIR" "neighbourBlock w c x y (z - 1) \<noteq> Some AIR"
    and "neighbourBlock w c (x + 1) y z \<noteq> Some AIR" "neighbourBlock w c (x - 1) y z \<noteq> Some AIR"
  shows "exposedFaces w c x y z = []"
  using assms by (simp add: exposedFaces_def faces_def exposed_def split: option.splits)

lemma concat_map_empty: "(\<And>x. x \<in> set xs \<Longrightarrow> f x = []) \<Longrightarrow> concat (map f xs) = []"
  by (induction xs) auto

lemma concat_map_only:
  assumes "a \<in> set xs" "distinct xs" and "\<And>x. x \<in> set xs \<Longrightarrow> x \<noteq> a \<Longrightarrow> f x = []"
  shows "concat (map f xs) = f a"
  using assms
proof (induction xs)
  case Nil
  then show ?case by simp
next
  case (Cons x xs)
  show ?case
  proof (cases "x = a")
    case True
    with Cons.prems have "concat (map f xs) = []"
      by (intro concat_map_empty) auto
    with True show ?thesis by simp
  next
    case False
    with Cons.prems have "f x = []" "a \<in> set xs" "distinct xs" by auto
    with Cons.IH Cons.prems(3) show ?thesis by simp
  qed
qed

text \<open>A chunk whose only block that is not Air sits at \<open>(a, b, d)\<close> has the quads of that cell.\<close>

lemma chunkQuads_single:
  assumes a: "0 \<le> a" "a < CHUNK_SIZE" and b: "0 \<le> b" "b < CHUNK_HEIGHT" and d: "0 \<le> d" "d < CHUNK_SIZE"
    and alone: "\<And>x y z. (x, y, z) \<noteq> (a, b, d) \<Longrightarrow> Chunk_getBlock c x y z = Some AIR"
  shows "chunkQuads w c = map (\<lambda>face. (a, b, d, face)) (exposedFaces w c a b d)"
proof -
  define row where "row = (\<lambda>y z. concat (map (\<lambda>x. map (\<lambda>face. (x, y, z, face)) (exposedFaces w c x y z))
           [0..CHUNK_SIZE - 1]))"
  define layer where "layer = (\<lambda>y. concat (map (row y) [0..CHUNK_SIZE - 1]))"
  have empty: "exposedFaces w c x y z = []" if "(x, y, z) \<noteq> (a, b, d)" for x y z
    using alone[OF that] by (simp add: exposedFaces_def)
  have row_other: "row y z = []" if "(y, z) \<noteq> (b, d)" for y z
    unfolding row_def using that by (intro concat_map_empty) (simp add: empty)
  have row_hit: "row b d = map (\<lambda>face. (a, b, d, face)) (exposedFaces w c a b d)"
    unfolding row_def
    by (rule concat_map_only[where a = a and f = "\<lambda>x. map (\<lambda>face. (x, b, d, face)) (exposedFaces w c x b d)"])
       (use a in \<open>simp_all add: empty\<close>)
  have layer_other: "layer y = []" if "y \<noteq> b" for y
    unfolding layer_def using that by (intro concat_map_empty) (simp add: row_other)
  have layer_hit: "layer b = row b d"
    unfolding layer_def
    by (rule concat_map_only[where a = d and f = "row b"]) (use d in \<open>simp_all add: row_other\<close>)
  have "chunkQuads w c = concat (map layer [0..CHUNK_HEIGHT - 1])"
    by (simp add: chunkQuads_def layer_def row_def)
  also have "\<dots> = layer b"
    by (rule concat_map_only[where a = b and f = layer]) (use b in \<open>simp_all add: layer_other\<close>)
  finally show ?thesis by (simp add: layer_hit row_hit)
qed

lemma generateMesh_quads:
  assumes "knownBlocks c" and "dirty c"
  shows "generateMesh w c =
           Inr (if chunkQuads w c = [] then c\<lparr>dirty := False\<rparr>
                else c\<lparr>mesh := Some \<lparr>vertices = bufVertices (quadsMesh c (chunkQuads w c)),
                                     colors = bufColors (quadsMesh c (chunkQuads w c)),
                                     indices = bufIndices (quadsMesh c (chunkQuads w c))\<rparr>,
                       dirty := False\<rparr>)"
proof -
  have "length (bufVertices (quadsMesh c (chunkQuads w c))) = 0 \<longleftrightarrow> chunkQuads w c = []"
    using length_quadsMesh_vertices[where c = c and qs = "chunkQuads w c", OF chunkQuads_corners]
    by simp
  then show ?thesis
    using assms(2)
    by (simp add: generateMesh_def meshLoop_appendQuads[OF assms(1)] appendQuads_emptyBuf)
qed

text \<open>
  C3. On a dirty chunk holding a full array of known tags, the rebuild returns, and the mesh
  it stores has exactly one quad per pair of a block that is not Air and a face direction
  whose neighbouring cell (in the chunk when inside it, through the world otherwise) is Air:
  twelve vertex coordinates (four vertices) and six indices (two triangles) per quad. A block
  whose six neighbours are Air contributes six faces, a block whose six neighbours are not
  Air contributes none, and a chunk whose only block has six Air neighbours gets a mesh of
  exactly six quads.
\<close>

theorem mesh_face_culling:
  assumes "knownBlocks c" and "dirty c"
  shows "generateMesh w c =
           Inr (if chunkQuads w c = [] then c\<lparr>dirty := False\<rparr>
                else c\<lparr>mesh := Some \<lparr>vertices = bufVertices (quadsMesh c (chunkQuads w c)),
                                     colors = bufColors (quadsMesh c (chunkQuads w c)),
                                     indices = bufIndices (quadsMesh c (chunkQuads w c))\<rparr>,
                       dirty := False\<rparr>)
     \<and> length (bufVertices (quadsMesh c (chunkQuads w c))) = 3 * 4 * length (chunkQuads w c)
     \<and> length (bufIndices (quadsMesh c (chunkQuads w c))) = 3 * 2 * length (chunkQuads w c)
     \<and> (\<forall>x y z face. (x, y, z, face) \<in> set (chunkQuads w c) \<longleftrightarrow>
           0 \<le> x \<and> x < CHUNK_SIZE \<and> 0 \<le> y \<and> y < CHUNK_HEIGHT \<and> 0 \<le> z \<and> z < CHUNK_SIZE
           \<and> (\<exists>b props. Chunk_getBlock c x y z = Some b \<and> b \<noteq> AIR \<and> BlockProperties b = Some props
                 \<and> face \<in> set (faces props)
                 \<and> neighbourBlock w c (x + fst (dir face)) (y + fst (snd (dir face)))
                      (z + snd (snd (dir face))) = Some AIR))
     \<and> (\<forall>x y z. 0 \<le> x \<and> x < CHUNK_SIZE \<and> 0 \<le> y \<and> y < CHUNK_HEIGHT \<and> 0 \<le> z \<and> z < CHUNK_SIZE
           \<and> Chunk_getBlock c x y z \<noteq> Some AIR
           \<and> neighbourBlock w c x (y + 1) z = Some AIR \<and> neighbourBlock w c x (y - 1) z = Some AIR
           \<and> neighbourBlock w c x y (z + 1) = Some AIR \<and> neighbourBlock w c x y (z - 1) = Some AIR
           \<and> neighbourBlock w c (x + 1) y z = Some AIR \<and> neighbourBlock w c (x - 1) y z = Some AIR
           \<longrightarrow> length (exposedFaces w c x y z) = 6
               \<and> ((\<forall>x' y' z'. (x', y', z') \<noteq> (x, y, z) \<longrightarrow> Chunk_getBlock c x' y' z' = Some AIR)
                    \<longrightarrow> length (chunkQuads w c) = 6))
     \<and> (\<forall>x y z. neighbourBlock w c x (y + 1) z \<noteq> Some AIR \<and> neighbourBlock w c x (y - 1) z \<noteq> Some AIR
           \<and> neighbourBlock w c x y (z + 1) \<noteq> Some AIR \<and> neighbourBlock w c x y (z - 1) \<noteq> Some AIR
           \<and> neighbourBlock w c (x + 1) y z \<noteq> Some AIR \<and> neighbourBlock w c (x - 1) y z \<noteq> Some AIR
           \<longrightarrow> exposedFaces w c x y z = [])"
  (is "?run \<and> ?nvertices \<and> ?nindices \<and> ?quads \<and> ?allAir \<and> ?noneAir")
proof -
  have six: "length (exposedFaces w c x y z) = 6
               \<and> ((\<forall>x' y' z'. (x', y', z') \<noteq> (x, y, z) \<longrightarrow> Chunk_getBlock c x' y' z' = Some AIR)
                    \<longrightarrow> length (chunkQuads w c) = 6)"
    if inb: "0 \<le> x \<and> x < CHUNK_SIZE \<and> 0 \<le> y \<and> y < CHUNK_HEIGHT \<and> 0 \<le> z \<and> z < CHUNK_SIZE"
      and solid: "Chunk_getBlock c x y z \<noteq> Some AIR"
      and air: "neighbourBlock w c x (y + 1) z = Some AIR" "neighbourBlock w c x (y - 1) z = Some AIR"
        "neighbourBlock w c x y (z + 1) = Some AIR" "neighbourBlock w c x y (z - 1) = Some AIR"
        "neighbourBlock w c (x + 1) y z = Some AIR" "neighbourBlock w c (x - 1) y z = Some AIR"
    for x y z
  proof -
    from knownBlocks_getBlock[OF assms(1), of x y z] solid obtain b props where
      b: "Chunk_getBlock c x y z = Some b" "b \<noteq> AIR" "BlockProperties b = Some props" by auto
    have e: "exposedFaces w c x y z = faces props"
      by (rule exposedFaces_all[OF b air])
    have l: "length (exposedFaces w c x y z) = 6" by (simp add: e faces_def)
    have "length (chunkQuads w c) = 6"
      if "\<forall>x' y' z'. (x', y', z') \<noteq> (x, y, z) \<longrightarrow> Chunk_getBlock c x' y' z' = Some AIR"
      using chunkQuads_single[of x y z c w] inb that l by simp
    with l show ?thesis by blast
  qed
  have ?run by (rule generateMesh_quads[OF assms])
  moreover have ?nvertices by (rule length_quadsMesh_vertices[OF chunkQuads_corners])
  moreover have ?nindices by (rule length_quadsMesh_indices)
  moreover have ?quads by (intro allI) (simp only: chunkQuads_iff exposedFaces_iff)
  moreover have ?allAir using six by blast
  moreover have ?noneAir using exposedFaces_none by blast
  ultimately show ?thesis by (intro conjI)
qed

lemma oneBlockChunk_blocks:
  "Chunk_getBlock oneBlockChunk x y z = (if (x, y, z) = (5, 10, 5) then Some STONE else Some AIR)"
  unfolding oneBlockChunk_def
  by (simp add: Chunk_getBlock_setBlock length_blocks_newChunk Chunk_getBlock_newChunk
      CHUNK_SIZE_def CHUNK_HEIGHT_def)

lemma knownBlocks_oneBlockChunk: "knownBlocks oneBlockChunk"
proof -
  have "blocks oneBlockChunk = (blocks (newChunk 0 0))[nat (getBlockIndex 5 10 5) := STONE]"
    by (simp add: oneBlockChunk_def Chunk_setBlock_def typedArraySet_def CHUNK_SIZE_def
        CHUNK_HEIGHT_def getBlockIndex_def newChunk_def)
  then have "set (blocks oneBlockChunk) \<subseteq> insert STONE (set (blocks (newChunk 0 0)))"
    by (simp only: set_update_subset_insert)
  moreover have "\<forall>b \<in> insert STONE (set (blocks (newChunk 0 0))). BlockProperties b \<noteq> None"
    by (simp add: newChunk_def BlockProperties_def AIR_def STONE_def)
  ultimately show ?thesis
    by (auto simp: knownBlocks_def oneBlockChunk_def length_blocks_newChunk)
qed

theorem mesh_face_culling_witness:
  "knownBlocks oneBlockChunk \<and> dirty oneBlockChunk
   \<and> length (chunkQuads oneBlockWorld oneBlockChunk) = 6
   \<and> (\<exists>c'. generateMesh oneBlockWorld oneBlockChunk = Inr c' \<and> \<not> dirty c'
          \<and> length (vertices (the (mesh c'))) = 72 \<and> length (indices (the (mesh c'))) = 36)"
proof -
  note k = knownBlocks_oneBlockChunk
  have d: "dirty oneBlockChunk" by (simp add: oneBlockChunk_def Chunk_setBlock_def CHUNK_SIZE_def CHUNK_HEIGHT_def)
  note t = mesh_face_culling[OF k d, of oneBlockWorld]
  have nb: "neighbourBlock oneBlockWorld oneBlockChunk x y z = Some AIR" if "(x, y, z) \<noteq> (5, 10, 5)"
      "0 \<le> x \<and> x < CHUNK_SIZE \<and> 0 \<le> z \<and> z < CHUNK_SIZE" for x y z
    using that by (auto simp: neighbourBlock_def oneBlockChunk_blocks World_getBlock_def)
  have pre: "0 \<le> (5::int) \<and> 5 < CHUNK_SIZE \<and> 0 \<le> (10::int) \<and> 10 < CHUNK_HEIGHT \<and> 0 \<le> (5::int) \<and> 5 < CHUNK_SIZE
           \<and> Chunk_getBlock oneBlockChunk 5 10 5 \<noteq> Some AIR
           \<and> neighbourBlock oneBlockWorld oneBlockChunk 5 (10 + 1) 5 = Some AIR
           \<and> neighbourBlock oneBlockWorld oneBlockChunk 5 (10 - 1) 5 = Some AIR
           \<and> neighbourBlock oneBlockWorld oneBlockChunk 5 10 (5 + 1) = Some AIR
           \<and> neighbourBlock oneBlockWorld oneBlockChunk 5 10 (5 - 1) = Some AIR
           \<and> neighbourBlock oneBlockWorld oneBlockChunk (5 + 1) 10 5 = Some AIR
           \<and> neighbourBlock oneBlockWorld oneBlockChunk (5 - 1) 10 5 = Some AIR"
    by (simp add: nb oneBlockChunk_blocks CHUNK_SIZE_def CHUNK_HEIGHT_def STONE_def AIR_def)
  have alone: "\<forall>x' y' z'. (x', y', z') \<noteq> (5, 10, 5) \<longrightarrow> Chunk_getBlock oneBlockChunk x' y' z' = Some AIR"
    by (simp add: oneBlockChunk_blocks)
  from t pre alone have n: "length (chunkQuads oneBlockWorld oneBlockChunk) = 6" by blast
  then have ne: "chunkQuads oneBlockWorld oneBlockChunk \<noteq> []" by auto
  from t have
    run: "generateMesh oneBlockWorld oneBlockChunk =
           Inr (if chunkQuads oneBlockWorld oneBlockChunk = [] then oneBlockChunk\<lparr>dirty := False\<rparr>
                else oneBlockChunk\<lparr>mesh := Some \<lparr>vertices = bufVertices (quadsMesh oneBlockChunk (chunkQuads oneBlockWorld oneBlockChunk)),
                                     colors = bufColors (quadsMesh oneBlockChunk (chunkQuads oneBlockWorld oneBlockChunk)),
                                     indices = bufIndices (quadsMesh oneBlockChunk (chunkQuads oneBlockWorld oneBlockChunk))\<rparr>,
                       dirty := False\<rparr>)" and
    lv: "length (bufVertices (quadsMesh oneBlockChunk (chunkQuads oneBlockWorld oneBlockChunk)))
           = 3 * 4 * length (chunkQuads oneBlockWorld oneBlockChunk)" and
    li: "length (bufIndices (quadsMesh oneBlockChunk (chunkQuads oneBlockWorld oneBlockChunk)))
           = 3 * 2 * length (chunkQuads oneBlockWorld oneBlockChunk)"
    by blast+
  show ?thesis
    using k d n by (simp add: run ne lv li)
qed

section \<open>Trees that keep reaching absent chunks\<close>











section \<open>Generation with every tree inside the chunk\<close>

lemma forEach_map: "forEach (map g xs) body s = forEach xs (\<lambda>s a. body s (g a)) s"
  by (induction xs arbitrary: s) (auto split: sum.splits)

lemma forEach_product:
  "forEach xs (\<lambda>st x. forEach zs (\<lambda>st z. f st x z) st) st
     = forEach (concat (map (\<lambda>x. map (\<lambda>z. (x, z)) zs) xs)) (\<lambda>st col. f st (fst col) (snd col)) st"
proof (induction xs arbitrary: st)
  case Nil
  then show ?case by simp
next
  case (Cons x xs)
  show ?case
    by (simp add: forEach_append forEach_map Cons.IH split: sum.splits)
qed

lemma generateChunkTerrain_columns:
  "generateChunkTerrain setBlock env key st
     = forEach chunkColumns (\<lambda>st col. generateColumn setBlock env key st (fst col) (snd col)) st"
  unfolding generateChunkTerrain_def chunkColumns_def by (rule forEach_product)

lemma chunkColumns_iff:
  "(x, z) \<in> set chunkColumns \<longleftrightarrow> 0 \<le> x \<and> x < CHUNK_SIZE \<and> 0 \<le> z \<and> z < CHUNK_SIZE"
  by (force simp: chunkColumns_def)

lemma treeColumns_seed:
  "seed w' = seed w \<Longrightarrow> treeColumns env w' key cols k = treeColumns env w key cols k"
  by (induction cols arbitrary: k) (simp_all add: columnHeight_seed[of w' w])

lemma treeColumns_subset: "set (treeColumns env w key cols k) \<subseteq> set cols"
  by (induction cols arbitrary: k) auto

lemma callSetBlock_resident:
  assumes "getChunk (fst s) (X div CHUNK_SIZE) (Z div CHUNK_SIZE) \<noteq> None"
  shows "callSetBlock (World_setBlock depth env) s X Y Z b
           = Inr (if 0 \<le> Y \<and> Y < CHUNK_HEIGHT then (writeAndMark (fst s) X Y Z b, snd s) else s)"
proof (cases "0 \<le> Y \<and> Y < CHUNK_HEIGHT")
  case True
  from World_setBlock_total[of Y s X Z env depth b] True assms obtain w1 k1 where
    "World_setBlock depth env s X Y Z b = Inr (True, (writeAndMark w1 X Y Z b, k1))" "(w1, k1) = s"
    by auto
  then show ?thesis using True by (auto simp: callSetBlock_def)
next
  case False
  then have "World_setBlock depth env s X Y Z b = Inr (False, s)"
    by (intro World_setBlock_out_of_range) auto
  then show ?thesis using False by (auto simp: callSetBlock_def)
qed

lemma borderNeighbours_interior:
  assumes "0 < lx" "lx < CHUNK_SIZE - 1" "0 < lz" "lz < CHUNK_SIZE - 1"
  shows "borderNeighbours (cx * CHUNK_SIZE + lx) (cz * CHUNK_SIZE + lz) = {}"
proof -
  have "(cx * CHUNK_SIZE + lx) div CHUNK_SIZE = cx" "(cz * CHUNK_SIZE + lz) div CHUNK_SIZE = cz"
    using assms by (simp_all add: CHUNK_SIZE_def)
  then show ?thesis using assms by (simp add: borderNeighbours_def Let_def)
qed

lemma insideFrame_write:
  assumes f: "insideFrame w k (cx, cz) c tree s"
    and lx: "0 < lx" "lx < CHUNK_SIZE - 1" and lz: "0 < lz" "lz < CHUNK_SIZE - 1"
    and r: "reaches tree (lx, lz)"
  shows "\<exists>s'. callSetBlock (World_setBlock depth env) s (cx * CHUNK_SIZE + lx) Y (cz * CHUNK_SIZE + lz) b = Inr s'
           \<and> insideFrame w k (cx, cz) c tree s'"
proof -
  define X where "X = cx * CHUNK_SIZE + lx"
  define Z where "Z = cz * CHUNK_SIZE + lz"
  have own: "X div CHUNK_SIZE = cx" "Z div CHUNK_SIZE = cz"
    "X - cx * CHUNK_SIZE = lx" "Z - cz * CHUNK_SIZE = lz"
    using lx lz by (simp_all add: X_def Z_def CHUNK_SIZE_def)
  from f obtain c' where c': "getChunk (fst s) cx cz = Some c'"
    "length (blocks c') = length (blocks c)"
    "\<forall>x y z. \<not> reaches tree (x, z) \<longrightarrow> Chunk_getBlock c' x y z = Chunk_getBlock c x y z"
    by (auto simp: insideFrame_def)
  have res: "getChunk (fst s) (X div CHUNK_SIZE) (Z div CHUNK_SIZE) \<noteq> None"
    using c'(1) by (simp add: own)
  note run = callSetBlock_resident[OF res, of depth env Y b]
  have nb: "borderNeighbours X Z = {}"
    unfolding X_def Z_def by (rule borderNeighbours_interior) fact+
  show ?thesis
  proof (cases "0 \<le> Y \<and> Y < CHUNK_HEIGHT")
    case False
    then show ?thesis using run f by (auto simp: X_def Z_def)
  next
    case True
    define w' where "w' = writeAndMark (fst s) X Y Z b"
    have g: "getChunk w' a d =
        (if (a, d) = (cx, cz) then Some (Chunk_setBlock c' lx Y lz b) else getChunk (fst s) a d)" for a d
      unfolding w'_def getChunk_writeAndMark own nb using c'(1) by simp
    have keep: "Chunk_getBlock (Chunk_setBlock c' lx Y lz b) x y z = Chunk_getBlock c x y z"
      if "\<not> reaches tree (x, z)" for x y z
    proof -
      from that r have "(x, y, z) \<noteq> (lx, Y, lz)" by auto
      from Chunk_getBlock_setBlock_other[OF this] c'(3) that show ?thesis by simp
    qed
    have other: "\<forall>a b. (a, b) \<noteq> (cx, cz) \<longrightarrow> getChunk w' a b = getChunk w a b"
      using f by (simp add: g insideFrame_def)
    have "insideFrame w k (cx, cz) c tree (w', snd s)"
      unfolding insideFrame_def fst_conv snd_conv
    proof (intro conjI)
      show "snd s = k" "seed w' = seed w" using f by (simp_all add: insideFrame_def w'_def)
      show "\<exists>c'. getChunk w' cx cz = Some c' \<and> length (blocks c') = length (blocks c)
              \<and> (\<forall>x y z. \<not> reaches tree (x, z) \<longrightarrow> Chunk_getBlock c' x y z = Chunk_getBlock c x y z)"
        using c'(2) keep by (simp add: g)
      show "\<forall>a b. (a, b) \<noteq> (cx, cz) \<longrightarrow> getChunk w' a b = getChunk w a b" by (rule other)
    qed
    then show ?thesis using run True by (simp add: X_def Z_def w'_def)
  qed
qed

lemma leaf_reach:
  assumes "dx \<in> set [-2..2]" "dz \<in> set [-2..2]"
    and "sqrt (of_int (dx * dx + dz * dz) + of_int (dy * dy) * (5 / 10)) < (25 / 10 :: real)"
  shows "dx * dx + dz * dz \<le> 5"
proof (rule ccontr)
  assume "\<not> dx * dx + dz * dz \<le> 5"
  moreover have "dx = -2 \<or> dx = -1 \<or> dx = 0 \<or> dx = 1 \<or> dx = 2" using assms(1) by auto
  moreover have "dz = -2 \<or> dz = -1 \<or> dz = 0 \<or> dz = 1 \<or> dz = 2" using assms(2) by auto
  ultimately have sq: "dx * dx + dz * dz = 8" by auto
  have "(25 / 10 :: real) = sqrt ((25 / 10)\<^sup>2)" by simp
  also have "\<dots> \<le> sqrt (8 + of_int (dy * dy) * (5 / 10))"
    by (subst real_sqrt_le_iff) (simp add: power2_eq_square)
  finally show False using assms(3) by (simp add: sq)
qed

lemma generateTree_inside:
  assumes res: "getChunk w cx cz = Some c"
    and tx: "3 \<le> tx" "tx \<le> CHUNK_SIZE - 4" and tz: "3 \<le> tz" "tz \<le> CHUNK_SIZE - 4"
  shows "\<exists>s'. generateTree (World_setBlock depth env) env (w, k)
                 (cx * CHUNK_SIZE + tx) y (cz * CHUNK_SIZE + tz) = Inr s'
           \<and> insideFrame w (k + 1) (cx, cz) c (tx, tz) s'"
proof -
  define S where "S = World_setBlock depth env"
  define P where "P = insideFrame w (k + 1) (cx, cz) c (tx, tz)"
  define trunkHeight where "trunkHeight = 4 + \<lfloor>mathRandom env k * 2\<rfloor>"
  define leafStart where "leafStart = y + trunkHeight - 1"
  have P0: "P (w, k + 1)" using res by (simp add: P_def insideFrame_def)
  have wr: "\<exists>s'. callSetBlock S s (cx * CHUNK_SIZE + tx + dx) Y (cz * CHUNK_SIZE + tz + dz) b = Inr s' \<and> P s'"
    if "P s" "dx \<in> set [-2..2]" "dz \<in> set [-2..2]" "dx * dx + dz * dz \<le> 5" for s dx dz Y b
  proof -
    have a: "0 < tx + dx" "tx + dx < CHUNK_SIZE - 1" "0 < tz + dz" "tz + dz < CHUNK_SIZE - 1"
      using that(2,3) tx tz by (auto simp: CHUNK_SIZE_def)
    have r: "reaches (tx, tz) (tx + dx, tz + dz)" using that(4) by (simp add: reaches_def)
    from insideFrame_write[OF that(1)[unfolded P_def] a r, of depth env Y b]
    show ?thesis by (simp add: S_def P_def add.assoc)
  qed
  have "\<exists>st1. forEach [0..trunkHeight - 1]
           (\<lambda>st i. callSetBlock S st (cx * CHUNK_SIZE + tx) (y + i) (cz * CHUNK_SIZE + tz) WOOD) (w, k + 1) = Inr st1
         \<and> P st1"
  proof (rule forEach_total_inv[where P = P, OF P0])
    fix i s assume "P s"
    from wr[OF this, of 0 0 "y + i" WOOD]
    show "\<exists>s'. callSetBlock S s (cx * CHUNK_SIZE + tx) (y + i) (cz * CHUNK_SIZE + tz) WOOD = Inr s' \<and> P s'"
      by simp
  qed
  then obtain st1 where trunk: "forEach [0..trunkHeight - 1]
           (\<lambda>st i. callSetBlock S st (cx * CHUNK_SIZE + tx) (y + i) (cz * CHUNK_SIZE + tz) WOOD) (w, k + 1) = Inr st1"
    and P1: "P st1" by blast
  have leaf: "\<exists>s'. placeLeaf S (cx * CHUNK_SIZE + tx) leafStart (cz * CHUNK_SIZE + tz) dy dx s dz = Inr s' \<and> P s'"
    if "P s" "dx \<in> set [-2..2]" "dz \<in> set [-2..2]" for s dy dx dz
  proof (cases "\<not> (dx = 0 \<and> dz = 0 \<and> dy < 3)
      \<and> sqrt (of_int (dx * dx + dz * dz) + of_int (dy * dy) * (5 / 10)) < (25 / 10 :: real)")
    case True
    then have call: "placeLeaf S (cx * CHUNK_SIZE + tx) leafStart (cz * CHUNK_SIZE + tz) dy dx s dz
          = callSetBlock S s (cx * CHUNK_SIZE + tx + dx) (leafStart + dy) (cz * CHUNK_SIZE + tz + dz) LEAVES"
      by (auto simp: placeLeaf_def Let_def)
    from True have "dx * dx + dz * dz \<le> 5" using leaf_reach[OF that(2,3)] by blast
    from wr[OF that(1,2,3) this, of "leafStart + dy" LEAVES] call show ?thesis by simp
  next
    case False
    then have "placeLeaf S (cx * CHUNK_SIZE + tx) leafStart (cz * CHUNK_SIZE + tz) dy dx s dz = Inr s"
      by (auto simp: placeLeaf_def Let_def)
    then show ?thesis using that(1) by simp
  qed
  have dzl: "\<exists>s'. forEach [-2..2] (placeLeaf S (cx * CHUNK_SIZE + tx) leafStart (cz * CHUNK_SIZE + tz) dy dx) s = Inr s' \<and> P s'"
    if "P s" "dx \<in> set [-2..2]" for s dy dx
    by (rule forEach_total_inv[where P = P, OF that(1)]) (rule leaf[OF _ that(2)])
  have dxl: "\<exists>s'. forEach [-2..2] (\<lambda>st dx.
                forEach [-2..2] (placeLeaf S (cx * CHUNK_SIZE + tx) leafStart (cz * CHUNK_SIZE + tz) dy dx) st) s = Inr s' \<and> P s'"
    if "P s" for s dy
    by (rule forEach_total_inv[where P = P, OF that]) (rule dzl)
  have "\<exists>s'. forEach [0..3] (\<lambda>st dy. forEach [-2..2] (\<lambda>st dx.
                forEach [-2..2] (placeLeaf S (cx * CHUNK_SIZE + tx) leafStart (cz * CHUNK_SIZE + tz) dy dx) st) st) st1 = Inr s' \<and> P s'"
    by (rule forEach_total_inv[where P = P, OF P1]) (rule dxl)
  then obtain s' where l: "forEach [0..3] (\<lambda>st dy. forEach [-2..2] (\<lambda>st dx.
                forEach [-2..2] (placeLeaf S (cx * CHUNK_SIZE + tx) leafStart (cz * CHUNK_SIZE + tz) dy dx) st) st) st1 = Inr s'"
    and "P s'" by blast
  moreover have "generateTree S env (w, k) (cx * CHUNK_SIZE + tx) y (cz * CHUNK_SIZE + tz) = Inr s'"
    unfolding generateTree_def Let_def fst_conv snd_conv trunkHeight_def[symmetric] trunk sum.case
      leafStart_def[symmetric]
    by (rule l)
  ultimately show ?thesis by (auto simp: P_def S_def)
qed

lemma insideFrame_state:
  assumes "insideFrame w k key c tree s"
  obtains w' c' where "s = (w', k)" "seed w' = seed w" "getChunk w' (fst key) (snd key) = Some c'"
    "length (blocks c') = length (blocks c)"
    "\<forall>x y z. \<not> reaches tree (x, z) \<longrightarrow> Chunk_getBlock c' x y z = Chunk_getBlock c x y z"
    "\<forall>a b. (a, b) \<noteq> key \<longrightarrow> getChunk w' a b = getChunk w a b"
  using assms unfolding insideFrame_def by (cases s) auto

text \<open>
  The column loop over any list of columns of a resident, full-sized chunk, when every tree
  it places stands inside: it returns, only that chunk differs afterwards, and a column
  out of reach of every tree holds its own fill above what it held before.
\<close>

lemma columns_inside:
  assumes "\<forall>t \<in> set (treeColumns env w (cx, cz) cols k).
             3 \<le> fst t \<and> fst t \<le> CHUNK_SIZE - 4 \<and> 3 \<le> snd t \<and> snd t \<le> CHUNK_SIZE - 4"
    and "getChunk w cx cz = Some c"
    and "length (blocks c) = nat (CHUNK_SIZE * CHUNK_HEIGHT * CHUNK_SIZE)"
  shows "\<exists>w' k' c'.
      forEach cols (\<lambda>st col. generateColumn (World_setBlock depth env) env (cx, cz) st (fst col) (snd col)) (w, k)
        = Inr (w', k')
      \<and> seed w' = seed w \<and> getChunk w' cx cz = Some c'
      \<and> length (blocks c') = nat (CHUNK_SIZE * CHUNK_HEIGHT * CHUNK_SIZE)
      \<and> (\<forall>a b. (a, b) \<noteq> (cx, cz) \<longrightarrow> getChunk w' a b = getChunk w a b)
      \<and> (\<forall>x y z. (\<forall>t \<in> set (treeColumns env w (cx, cz) cols k). \<not> reaches t (x, z)) \<longrightarrow>
            Chunk_getBlock c' x y z =
              (if (x, z) \<in> set cols \<and> 0 \<le> x \<and> x < CHUNK_SIZE \<and> 0 \<le> z \<and> z < CHUNK_SIZE \<and> 0 \<le> y
                   \<and> y < columnHeight env w (cx * CHUNK_SIZE + x) (cz * CHUNK_SIZE + z) \<and> y < CHUNK_HEIGHT
               then Some (columnBlock y (columnHeight env w (cx * CHUNK_SIZE + x) (cz * CHUNK_SIZE + z)))
               else Chunk_getBlock c x y z))"
  using assms
proof (induction cols arbitrary: w k c)
  case Nil
  then show ?case by simp
next
  case (Cons col cols)
  define S where "S = World_setBlock depth env"
  define full where "full = nat (CHUNK_SIZE * CHUNK_HEIGHT * CHUNK_SIZE)"
  define x1 where "x1 = fst col"
  define z1 where "z1 = snd col"
  define h1 where "h1 = columnHeight env w (cx * CHUNK_SIZE + x1) (cz * CHUNK_SIZE + z1)"
  define c1 where "c1 = placeBlocks c x1 z1 h1 0"
  define w1 where "w1 = storeChunk w (cx, cz) c1"
  define tree where "tree \<longleftrightarrow> h1 < CHUNK_HEIGHT - 6 \<and> mathRandom env k < treeChance"
  define k2 where "k2 = (if h1 < CHUNK_HEIGHT - 6 then (if mathRandom env k < treeChance then k + 2 else k + 1) else k)"
  note res = Cons.prems(2) and len = Cons.prems(3)
  have tc: "treeColumns env w (cx, cz) (col # cols) k
              = (if tree then col # treeColumns env w (cx, cz) cols k2 else treeColumns env w (cx, cz) cols k2)"
    by (simp add: tree_def k2_def h1_def x1_def z1_def)
  have unfold: "generateColumn S env (cx, cz) (w, k) x1 z1 =
          (if h1 < CHUNK_HEIGHT - 6
           then (if mathRandom env k < treeChance
                 then generateTree S env (w1, k + 1) (cx * CHUNK_SIZE + x1) h1 (cz * CHUNK_SIZE + z1)
                 else Inr (w1, k + 1))
           else Inr (w1, k))"
    unfolding generateColumn_def Let_def prod.case h1_def[symmetric] res option.case
      c1_def[symmetric] w1_def[symmetric] by (rule refl)
  have g1: "getChunk w1 cx cz = Some c1" by (simp add: w1_def getChunk_storeChunk)
  have len1: "length (blocks c1) = full" using len by (simp add: c1_def full_def)
  have "\<exists>w2 c2. generateColumn S env (cx, cz) (w, k) x1 z1 = Inr (w2, k2)
          \<and> seed w2 = seed w \<and> getChunk w2 cx cz = Some c2 \<and> length (blocks c2) = full
          \<and> (\<forall>a b. (a, b) \<noteq> (cx, cz) \<longrightarrow> getChunk w2 a b = getChunk w a b)
          \<and> (\<forall>x y z. (tree \<longrightarrow> \<not> reaches col (x, z)) \<longrightarrow> Chunk_getBlock c2 x y z = Chunk_getBlock c1 x y z)"
  proof (cases tree)
    case True
    then have "col \<in> set (treeColumns env w (cx, cz) (col # cols) k)" unfolding tc by simp
    with Cons.prems(1) have inside: "3 \<le> x1" "x1 \<le> CHUNK_SIZE - 4" "3 \<le> z1" "z1 \<le> CHUNK_SIZE - 4"
      unfolding x1_def z1_def by blast+
    from generateTree_inside[OF g1 inside, of depth env "k + 1" h1] obtain s' where
      run: "generateTree S env (w1, k + 1) (cx * CHUNK_SIZE + x1) h1 (cz * CHUNK_SIZE + z1) = Inr s'"
      and fr: "insideFrame w1 (k + 1 + 1) (cx, cz) c1 (x1, z1) s'"
      unfolding S_def by blast
    from fr obtain w2 c2 where s': "s' = (w2, k + 1 + 1)" "seed w2 = seed w1"
      "getChunk w2 (fst (cx, cz)) (snd (cx, cz)) = Some c2" "length (blocks c2) = length (blocks c1)"
      "\<forall>x y z. \<not> reaches (x1, z1) (x, z) \<longrightarrow> Chunk_getBlock c2 x y z = Chunk_getBlock c1 x y z"
      "\<forall>a b. (a, b) \<noteq> (cx, cz) \<longrightarrow> getChunk w2 a b = getChunk w1 a b"
      by (rule insideFrame_state)
    have col: "col = (x1, z1)" by (simp add: x1_def z1_def)
    have "generateColumn S env (cx, cz) (w, k) x1 z1 = Inr (w2, k2)"
      using True run s'(1) unfolding unfold tree_def k2_def by simp
    moreover have "\<forall>a b. (a, b) \<noteq> (cx, cz) \<longrightarrow> getChunk w2 a b = getChunk w a b"
      using s'(6) by (simp add: w1_def getChunk_storeChunk)
    ultimately show ?thesis
      using True s'(2,3,4,5) len1 by (auto simp: w1_def col)
  next
    case False
    then have "generateColumn S env (cx, cz) (w, k) x1 z1 = Inr (w1, k2)"
      unfolding unfold tree_def k2_def by auto
    then show ?thesis
      using g1 len1 False by (auto simp: w1_def getChunk_storeChunk)
  qed
  then obtain w2 c2 where
    step: "generateColumn S env (cx, cz) (w, k) x1 z1 = Inr (w2, k2)" and
    seed2: "seed w2 = seed w" and g2: "getChunk w2 cx cz = Some c2" and len2: "length (blocks c2) = full" and
    frame2: "\<forall>a b. (a, b) \<noteq> (cx, cz) \<longrightarrow> getChunk w2 a b = getChunk w a b" and
    cells2: "\<forall>x y z. (tree \<longrightarrow> \<not> reaches col (x, z)) \<longrightarrow> Chunk_getBlock c2 x y z = Chunk_getBlock c1 x y z"
    by blast
  have same: "treeColumns env w2 (cx, cz) cols k2 = treeColumns env w (cx, cz) cols k2"
    by (rule treeColumns_seed[OF seed2])
  have ins: "\<forall>t \<in> set (treeColumns env w2 (cx, cz) cols k2).
             3 \<le> fst t \<and> fst t \<le> CHUNK_SIZE - 4 \<and> 3 \<le> snd t \<and> snd t \<le> CHUNK_SIZE - 4"
    using Cons.prems(1) unfolding same tc by (auto split: if_splits)
  from Cons.IH[OF ins g2 len2[unfolded full_def]] obtain w' k' c' where
    rest: "forEach cols (\<lambda>st col. generateColumn (World_setBlock depth env) env (cx, cz) st (fst col) (snd col)) (w2, k2)
        = Inr (w', k')" and
    seed': "seed w' = seed w2" and g': "getChunk w' cx cz = Some c'" and
    len': "length (blocks c') = nat (CHUNK_SIZE * CHUNK_HEIGHT * CHUNK_SIZE)" and
    frame': "\<forall>a b. (a, b) \<noteq> (cx, cz) \<longrightarrow> getChunk w' a b = getChunk w2 a b" and
    cells': "\<forall>x y z. (\<forall>t \<in> set (treeColumns env w2 (cx, cz) cols k2). \<not> reaches t (x, z)) \<longrightarrow>
            Chunk_getBlock c' x y z =
              (if (x, z) \<in> set cols \<and> 0 \<le> x \<and> x < CHUNK_SIZE \<and> 0 \<le> z \<and> z < CHUNK_SIZE \<and> 0 \<le> y
                   \<and> y < columnHeight env w2 (cx * CHUNK_SIZE + x) (cz * CHUNK_SIZE + z) \<and> y < CHUNK_HEIGHT
               then Some (columnBlock y (columnHeight env w2 (cx * CHUNK_SIZE + x) (cz * CHUNK_SIZE + z)))
               else Chunk_getBlock c2 x y z)"
    by blast
  have hh: "columnHeight env w2 = columnHeight env w" by (rule columnHeight_seed[OF seed2])
  have run: "forEach (col # cols) (\<lambda>st col. generateColumn (World_setBlock depth env) env (cx, cz) st (fst col) (snd col)) (w, k)
        = Inr (w', k')"
    using step rest by (simp add: S_def x1_def z1_def)
  have cells: "Chunk_getBlock c' x y z =
              (if (x, z) \<in> set (col # cols) \<and> 0 \<le> x \<and> x < CHUNK_SIZE \<and> 0 \<le> z \<and> z < CHUNK_SIZE \<and> 0 \<le> y
                   \<and> y < columnHeight env w (cx * CHUNK_SIZE + x) (cz * CHUNK_SIZE + z) \<and> y < CHUNK_HEIGHT
               then Some (columnBlock y (columnHeight env w (cx * CHUNK_SIZE + x) (cz * CHUNK_SIZE + z)))
               else Chunk_getBlock c x y z)"
    if far: "\<forall>t \<in> set (treeColumns env w (cx, cz) (col # cols) k). \<not> reaches t (x, z)" for x y z
  proof -
    from far have a: "\<forall>t \<in> set (treeColumns env w2 (cx, cz) cols k2). \<not> reaches t (x, z)"
      unfolding same tc by (auto split: if_splits)
    from far have b: "tree \<longrightarrow> \<not> reaches col (x, z)" unfolding tc by auto
    have c2c: "Chunk_getBlock c2 x y z = Chunk_getBlock c1 x y z" using cells2 b by blast
    have c1c: "Chunk_getBlock c1 x y z =
           (if 0 \<le> x1 \<and> x1 < CHUNK_SIZE \<and> 0 \<le> z1 \<and> z1 < CHUNK_SIZE \<and> x = x1 \<and> z = z1
               \<and> 0 \<le> y \<and> y < h1 \<and> y < CHUNK_HEIGHT
            then Some (columnBlock y h1) else Chunk_getBlock c x y z)"
      unfolding c1_def by (rule Chunk_getBlock_placeBlocks[OF len]) simp
    have col: "col = (x1, z1)" by (simp add: x1_def z1_def)
    have c'c: "Chunk_getBlock c' x y z =
              (if (x, z) \<in> set cols \<and> 0 \<le> x \<and> x < CHUNK_SIZE \<and> 0 \<le> z \<and> z < CHUNK_SIZE \<and> 0 \<le> y
                   \<and> y < columnHeight env w2 (cx * CHUNK_SIZE + x) (cz * CHUNK_SIZE + z) \<and> y < CHUNK_HEIGHT
               then Some (columnBlock y (columnHeight env w2 (cx * CHUNK_SIZE + x) (cz * CHUNK_SIZE + z)))
               else Chunk_getBlock c2 x y z)"
      using cells' a by blast
    show ?thesis
      unfolding c'c hh c2c c1c by (auto simp: col h1_def)
  qed
  show ?case
    apply (rule exI[of _ w'])
    apply (rule exI[of _ k'])
    apply (rule exI[of _ c'])
    using run seed' seed2 g' len' frame' frame2 cells by simp
qed

section \<open>Border dirtiness\<close>

lemma treesInside_iff:
  "treesInside env (w, k) key \<longleftrightarrow>
     (\<forall>t \<in> set (treeColumns env w key chunkColumns k).
        3 \<le> fst t \<and> fst t \<le> CHUNK_SIZE - 4 \<and> 3 \<le> snd t \<and> snd t \<le> CHUNK_SIZE - 4)"
  by (auto simp: treesInside_def)

text \<open>
  Creating a chunk whose trees all stand inside: the generation returns at any depth, and
  only the new chunk differs from the world before.
\<close>

lemma getOrCreateChunk_inside:
  assumes absent: "getChunk w cx cz = None" and inside: "treesInside env (w, k) (cx, cz)"
  shows "\<exists>w1 k1 c1. World_getOrCreateChunk depth env (w, k) cx cz = Inr (w1, k1)
           \<and> seed w1 = seed w \<and> getChunk w1 cx cz = Some c1
           \<and> (\<forall>a b. (a, b) \<noteq> (cx, cz) \<longrightarrow> getChunk w1 a b = getChunk w a b)
           \<and> (\<forall>x y z. (\<forall>t \<in> set (treeColumns env w (cx, cz) chunkColumns k). \<not> reaches t (x, z))
                 \<and> 0 \<le> x \<and> x < CHUNK_SIZE \<and> 0 \<le> z \<and> z < CHUNK_SIZE \<longrightarrow>
                Chunk_getBlock c1 x y z
                  = Some (fillBlock (columnHeight env w (cx * CHUNK_SIZE + x) (cz * CHUNK_SIZE + z)) y))"
proof -
  define w0 where "w0 = storeChunk w (cx, cz) (newChunk cx cz)"
  have s0: "seed w0 = seed w" by (simp add: w0_def)
  have tc: "treeColumns env w0 (cx, cz) chunkColumns k = treeColumns env w (cx, cz) chunkColumns k"
    by (rule treeColumns_seed[OF s0])
  have hh: "columnHeight env w0 = columnHeight env w" by (rule columnHeight_seed[OF s0])
  have a1: "\<forall>t \<in> set (treeColumns env w0 (cx, cz) chunkColumns k).
              3 \<le> fst t \<and> fst t \<le> CHUNK_SIZE - 4 \<and> 3 \<le> snd t \<and> snd t \<le> CHUNK_SIZE - 4"
    using inside unfolding tc treesInside_iff .
  have a2: "getChunk w0 cx cz = Some (newChunk cx cz)" by (simp add: w0_def getChunk_storeChunk)
  from columns_inside[OF a1 a2 length_blocks_newChunk, of depth] obtain w1 k1 c1 where
    run: "forEach chunkColumns
            (\<lambda>st col. generateColumn (World_setBlock depth env) env (cx, cz) st (fst col) (snd col)) (w0, k)
          = Inr (w1, k1)" and
    r: "seed w1 = seed w0" "getChunk w1 cx cz = Some c1"
       "\<forall>a b. (a, b) \<noteq> (cx, cz) \<longrightarrow> getChunk w1 a b = getChunk w0 a b" and
    cells: "\<forall>x y z. (\<forall>t \<in> set (treeColumns env w0 (cx, cz) chunkColumns k). \<not> reaches t (x, z)) \<longrightarrow>
            Chunk_getBlock c1 x y z =
              (if (x, z) \<in> set chunkColumns \<and> 0 \<le> x \<and> x < CHUNK_SIZE \<and> 0 \<le> z \<and> z < CHUNK_SIZE \<and> 0 \<le> y
                   \<and> y < columnHeight env w0 (cx * CHUNK_SIZE + x) (cz * CHUNK_SIZE + z) \<and> y < CHUNK_HEIGHT
               then Some (columnBlock y (columnHeight env w0 (cx * CHUNK_SIZE + x) (cz * CHUNK_SIZE + z)))
               else Chunk_getBlock (newChunk cx cz) x y z)"
    by blast
  have goc: "World_getOrCreateChunk depth env (w, k) cx cz = Inr (w1, k1)"
    unfolding World_getOrCreateChunk_def getOrCreateChunk_def fst_conv snd_conv absent option.case
      w0_def[symmetric] generateChunkTerrain_columns
    by (rule run)
  have frame: "\<forall>a b. (a, b) \<noteq> (cx, cz) \<longrightarrow> getChunk w1 a b = getChunk w a b"
    using r(3) by (simp add: w0_def getChunk_storeChunk)
  have fill: "Chunk_getBlock c1 x y z
                = Some (fillBlock (columnHeight env w (cx * CHUNK_SIZE + x) (cz * CHUNK_SIZE + z)) y)"
    if "\<forall>t \<in> set (treeColumns env w (cx, cz) chunkColumns k). \<not> reaches t (x, z)"
      "0 \<le> x" "x < CHUNK_SIZE" "0 \<le> z" "z < CHUNK_SIZE" for x y z
  proof -
    have "Chunk_getBlock c1 x y z =
              (if (x, z) \<in> set chunkColumns \<and> 0 \<le> x \<and> x < CHUNK_SIZE \<and> 0 \<le> z \<and> z < CHUNK_SIZE \<and> 0 \<le> y
                   \<and> y < columnHeight env w0 (cx * CHUNK_SIZE + x) (cz * CHUNK_SIZE + z) \<and> y < CHUNK_HEIGHT
               then Some (columnBlock y (columnHeight env w0 (cx * CHUNK_SIZE + x) (cz * CHUNK_SIZE + z)))
               else Chunk_getBlock (newChunk cx cz) x y z)"
      using cells that(1) unfolding tc by blast
    then show ?thesis
      using that(2-5) unfolding hh
      by (simp add: chunkColumns_iff Chunk_getBlock_newChunk fillBlock_def)
  qed
  show ?thesis
    apply (rule exI[of _ w1])
    apply (rule exI[of _ k1])
    apply (rule exI[of _ c1])
    using goc r(1,2) s0 frame fill by simp
qed

lemma setBlock_frame:
  assumes y: "0 \<le> y" "y < CHUNK_HEIGHT"
    and "getChunk w (x div CHUNK_SIZE) (z div CHUNK_SIZE) \<noteq> None
         \<or> treesInside env (w, k) (x div CHUNK_SIZE, z div CHUNK_SIZE)"
  shows "\<exists>w1 k1. World_setBlock (Suc depth) env (w, k) x y z b = Inr (True, (writeAndMark w1 x y z b, k1))
           \<and> (\<forall>a c. (a, c) \<noteq> (x div CHUNK_SIZE, z div CHUNK_SIZE) \<longrightarrow> getChunk w1 a c = getChunk w a c)"
proof (cases "getChunk w (x div CHUNK_SIZE) (z div CHUNK_SIZE) \<noteq> None")
  case True
  from World_setBlock_total[of y "(w, k)" x z env "Suc depth" b] y True show ?thesis
    by (auto simp del: World_setBlock.simps)
next
  case False
  with assms(3) have inside: "treesInside env (w, k) (x div CHUNK_SIZE, z div CHUNK_SIZE)" by simp
  from False have absent: "getChunk w (x div CHUNK_SIZE) (z div CHUNK_SIZE) = None" by simp
  from getOrCreateChunk_inside[OF absent inside, of depth] obtain w1 k1 where
    goc: "World_getOrCreateChunk depth env (w, k) (x div CHUNK_SIZE) (z div CHUNK_SIZE) = Inr (w1, k1)" and
    frame: "\<forall>a b. (a, b) \<noteq> (x div CHUNK_SIZE, z div CHUNK_SIZE) \<longrightarrow> getChunk w1 a b = getChunk w a b"
    by blast
  have "World_setBlock (Suc depth) env (w, k) x y z b = Inr (True, (writeAndMark w1 x y z b, k1))"
    using y goc by (simp add: setBlockBody_writeAndMark World_getOrCreateChunk_def)
  then show ?thesis using frame by blast
qed

lemma setBlock_marks_border:
  assumes y: "0 \<le> y" "y < CHUNK_HEIGHT"
    and run: "World_setBlock depth env (w, k) x y z b = Inr (r, (w', k'))"
    and nb: "(a, c) \<in> borderNeighbours x z" and res: "getChunk w a c \<noteq> None"
  shows "\<exists>n. getChunk w' a c = Some n \<and> dirty n"
proof -
  from World_setBlock_unfold[of depth env] obtain setBlock where
    kr: "keepsResident setBlock" and u: "World_setBlock depth env = setBlockBody setBlock env" by blast
  from run y u obtain w1 where
    g: "getOrCreateChunk setBlock env (w, k) (x div CHUNK_SIZE) (z div CHUNK_SIZE) = Inr (w1, k')" and
    w': "w' = writeAndMark w1 x y z b"
    by (auto simp: setBlockBody_writeAndMark split: sum.splits)
  from getOrCreateChunk_resident[OF kr g] res have "getChunk w1 a c \<noteq> None"
    by (simp add: staysResident_def)
  then obtain n where n: "getChunk w1 a c = Some n" by auto
  have "(a, c) \<noteq> (x div CHUNK_SIZE, z div CHUNK_SIZE)"
    using nb by (auto simp: borderNeighbours_def Let_def split: if_splits)
  then have "getChunk w' a c = Some (n\<lparr>dirty := True\<rparr>)"
    unfolding w' getChunk_writeAndMark using nb n by auto
  then show ?thesis by simp
qed

text \<open>
  C4, as the code has it. A world-level write with in-range \<open>y\<close> that returns leaves the
  resident neighbour across each border it touches (local \<open>x = 0\<close>, \<open>x = SIZE - 1\<close>,
  \<open>z = 0\<close>, \<open>z = SIZE - 1\<close>) with its dirty flag set. When the owning chunk is already
  resident, or is created by the write and every tree its generation places stands at least
  three columns inside the chunk, the write returns true and, among the chunks other than
  the owning one: a resident neighbour across a touched border has its dirty flag set and is
  otherwise as before; every other chunk is exactly as before, so a write at an interior
  local coordinate changes no other chunk; and no chunk that was not resident becomes
  resident.
\<close>

theorem setBlock_border_dirty:
  "(0 \<le> y \<and> y < CHUNK_HEIGHT \<and> World_setBlock depth env (w, k) x y z b = Inr (r, (w', k')) \<longrightarrow>
      (let chunkX = x div CHUNK_SIZE; chunkZ = z div CHUNK_SIZE;
           localX = x - chunkX * CHUNK_SIZE; localZ = z - chunkZ * CHUNK_SIZE
       in (localX = 0 \<and> getChunk w (chunkX - 1) chunkZ \<noteq> None
             \<longrightarrow> (\<exists>n. getChunk w' (chunkX - 1) chunkZ = Some n \<and> dirty n))
        \<and> (localX = CHUNK_SIZE - 1 \<and> getChunk w (chunkX + 1) chunkZ \<noteq> None
             \<longrightarrow> (\<exists>n. getChunk w' (chunkX + 1) chunkZ = Some n \<and> dirty n))
        \<and> (localZ = 0 \<and> getChunk w chunkX (chunkZ - 1) \<noteq> None
             \<longrightarrow> (\<exists>n. getChunk w' chunkX (chunkZ - 1) = Some n \<and> dirty n))
        \<and> (localZ = CHUNK_SIZE - 1 \<and> getChunk w chunkX (chunkZ + 1) \<noteq> None
             \<longrightarrow> (\<exists>n. getChunk w' chunkX (chunkZ + 1) = Some n \<and> dirty n))))
   \<and> (0 \<le> y \<and> y < CHUNK_HEIGHT
        \<and> (getChunk w (x div CHUNK_SIZE) (z div CHUNK_SIZE) \<noteq> None
           \<or> treesInside env (w, k) (x div CHUNK_SIZE, z div CHUNK_SIZE)) \<longrightarrow>
      (\<exists>w'' k''. World_setBlock (Suc depth) env (w, k) x y z b = Inr (True, (w'', k''))
         \<and> (let chunkX = x div CHUNK_SIZE; chunkZ = z div CHUNK_SIZE;
                 localX = x - chunkX * CHUNK_SIZE; localZ = z - chunkZ * CHUNK_SIZE
             in (\<forall>n. localX = 0 \<and> getChunk w (chunkX - 1) chunkZ = Some n
                     \<longrightarrow> getChunk w'' (chunkX - 1) chunkZ = Some (n\<lparr>dirty := True\<rparr>))
              \<and> (\<forall>n. localX = CHUNK_SIZE - 1 \<and> getChunk w (chunkX + 1) chunkZ = Some n
                     \<longrightarrow> getChunk w'' (chunkX + 1) chunkZ = Some (n\<lparr>dirty := True\<rparr>))
              \<and> (\<forall>n. localZ = 0 \<and> getChunk w chunkX (chunkZ - 1) = Some n
                     \<longrightarrow> getChunk w'' chunkX (chunkZ - 1) = Some (n\<lparr>dirty := True\<rparr>))
              \<and> (\<forall>n. localZ = CHUNK_SIZE - 1 \<and> getChunk w chunkX (chunkZ + 1) = Some n
                     \<longrightarrow> getChunk w'' chunkX (chunkZ + 1) = Some (n\<lparr>dirty := True\<rparr>))
              \<and> (\<forall>a c. (a, c) \<noteq> (chunkX, chunkZ) \<and> (a, c) \<notin> borderNeighbours x z
                     \<longrightarrow> getChunk w'' a c = getChunk w a c)
              \<and> (0 < localX \<and> localX < CHUNK_SIZE - 1 \<and> 0 < localZ \<and> localZ < CHUNK_SIZE - 1
                     \<longrightarrow> (\<forall>a c. (a, c) \<noteq> (chunkX, chunkZ) \<longrightarrow> getChunk w'' a c = getChunk w a c))
              \<and> (\<forall>a c. (a, c) \<noteq> (chunkX, chunkZ) \<and> getChunk w a c = None
                     \<longrightarrow> getChunk w'' a c = None))))"
  (is "?marks \<and> ?frame")
proof
  define chunkX where "chunkX = x div CHUNK_SIZE"
  define chunkZ where "chunkZ = z div CHUNK_SIZE"
  define localX where "localX = x - chunkX * CHUNK_SIZE"
  define localZ where "localZ = z - chunkZ * CHUNK_SIZE"
  have nb: "borderNeighbours x z =
       (if localX = 0 then {(chunkX - 1, chunkZ)} else {})
       \<union> (if localX = CHUNK_SIZE - 1 then {(chunkX + 1, chunkZ)} else {})
       \<union> (if localZ = 0 then {(chunkX, chunkZ - 1)} else {})
       \<union> (if localZ = CHUNK_SIZE - 1 then {(chunkX, chunkZ + 1)} else {})"
    by (simp add: borderNeighbours_def Let_def chunkX_def chunkZ_def localX_def localZ_def)
  show ?marks
  proof (rule impI)
    assume a: "0 \<le> y \<and> y < CHUNK_HEIGHT \<and> World_setBlock depth env (w, k) x y z b = Inr (r, (w', k'))"
    have m: "\<exists>n. getChunk w' p q = Some n \<and> dirty n"
      if "(p, q) \<in> borderNeighbours x z" "getChunk w p q \<noteq> None" for p q
      using setBlock_marks_border[of y depth env w k x z b r w' k' p q] a that by blast
    have m1: "localX = 0 \<and> getChunk w (chunkX - 1) chunkZ \<noteq> None
             \<longrightarrow> (\<exists>n. getChunk w' (chunkX - 1) chunkZ = Some n \<and> dirty n)"
      using m[of "chunkX - 1" chunkZ] by (simp add: nb)
    have m2: "localX = CHUNK_SIZE - 1 \<and> getChunk w (chunkX + 1) chunkZ \<noteq> None
             \<longrightarrow> (\<exists>n. getChunk w' (chunkX + 1) chunkZ = Some n \<and> dirty n)"
      using m[of "chunkX + 1" chunkZ] by (simp add: nb)
    have m3: "localZ = 0 \<and> getChunk w chunkX (chunkZ - 1) \<noteq> None
             \<longrightarrow> (\<exists>n. getChunk w' chunkX (chunkZ - 1) = Some n \<and> dirty n)"
      using m[of chunkX "chunkZ - 1"] by (simp add: nb)
    have m4: "localZ = CHUNK_SIZE - 1 \<and> getChunk w chunkX (chunkZ + 1) \<noteq> None
             \<longrightarrow> (\<exists>n. getChunk w' chunkX (chunkZ + 1) = Some n \<and> dirty n)"
      using m[of chunkX "chunkZ + 1"] by (simp add: nb)
    show "let chunkX = x div CHUNK_SIZE; chunkZ = z div CHUNK_SIZE;
           localX = x - chunkX * CHUNK_SIZE; localZ = z - chunkZ * CHUNK_SIZE
       in (localX = 0 \<and> getChunk w (chunkX - 1) chunkZ \<noteq> None
             \<longrightarrow> (\<exists>n. getChunk w' (chunkX - 1) chunkZ = Some n \<and> dirty n))
        \<and> (localX = CHUNK_SIZE - 1 \<and> getChunk w (chunkX + 1) chunkZ \<noteq> None
             \<longrightarrow> (\<exists>n. getChunk w' (chunkX + 1) chunkZ = Some n \<and> dirty n))
        \<and> (localZ = 0 \<and> getChunk w chunkX (chunkZ - 1) \<noteq> None
             \<longrightarrow> (\<exists>n. getChunk w' chunkX (chunkZ - 1) = Some n \<and> dirty n))
        \<and> (localZ = CHUNK_SIZE - 1 \<and> getChunk w chunkX (chunkZ + 1) \<noteq> None
             \<longrightarrow> (\<exists>n. getChunk w' chunkX (chunkZ + 1) = Some n \<and> dirty n))"
      unfolding Let_def chunkX_def[symmetric] chunkZ_def[symmetric]
      unfolding localX_def[symmetric] localZ_def[symmetric]
      by (intro conjI) (fact m1, fact m2, fact m3, fact m4)
  qed
  show ?frame
  proof (rule impI)
    assume a: "0 \<le> y \<and> y < CHUNK_HEIGHT
        \<and> (getChunk w (x div CHUNK_SIZE) (z div CHUNK_SIZE) \<noteq> None
           \<or> treesInside env (w, k) (x div CHUNK_SIZE, z div CHUNK_SIZE))"
    from setBlock_frame[of y w x z env k depth b] a obtain w1 k1 where
      run: "World_setBlock (Suc depth) env (w, k) x y z b = Inr (True, (writeAndMark w1 x y z b, k1))" and
      frame: "\<forall>a c. (a, c) \<noteq> (chunkX, chunkZ) \<longrightarrow> getChunk w1 a c = getChunk w a c"
      unfolding chunkX_def chunkZ_def by blast
    define w'' where "w'' = writeAndMark w1 x y z b"
    have others: "getChunk w'' a c =
            (if (a, c) \<in> borderNeighbours x z
             then map_option (\<lambda>n. n\<lparr>dirty := True\<rparr>) (getChunk w a c) else getChunk w a c)"
      if "(a, c) \<noteq> (chunkX, chunkZ)" for a c
    proof -
      from that have "(a, c) \<noteq> (x div CHUNK_SIZE, z div CHUNK_SIZE)"
        by (simp add: chunkX_def chunkZ_def)
      then have "getChunk w'' a c =
            (if (a, c) \<in> borderNeighbours x z
             then map_option (\<lambda>n. n\<lparr>dirty := True\<rparr>) (getChunk w1 a c) else getChunk w1 a c)"
        unfolding w''_def getChunk_writeAndMark by (simp only: if_False)
      then show ?thesis using that frame by simp
    qed
    have c1: "\<forall>n. localX = 0 \<and> getChunk w (chunkX - 1) chunkZ = Some n
                   \<longrightarrow> getChunk w'' (chunkX - 1) chunkZ = Some (n\<lparr>dirty := True\<rparr>)"
      by (simp add: others nb)
    have c2: "\<forall>n. localX = CHUNK_SIZE - 1 \<and> getChunk w (chunkX + 1) chunkZ = Some n
                   \<longrightarrow> getChunk w'' (chunkX + 1) chunkZ = Some (n\<lparr>dirty := True\<rparr>)"
      by (simp add: others nb)
    have c3: "\<forall>n. localZ = 0 \<and> getChunk w chunkX (chunkZ - 1) = Some n
                   \<longrightarrow> getChunk w'' chunkX (chunkZ - 1) = Some (n\<lparr>dirty := True\<rparr>)"
      by (simp add: others nb)
    have c4: "\<forall>n. localZ = CHUNK_SIZE - 1 \<and> getChunk w chunkX (chunkZ + 1) = Some n
                   \<longrightarrow> getChunk w'' chunkX (chunkZ + 1) = Some (n\<lparr>dirty := True\<rparr>)"
      by (simp add: others nb)
    have c5: "\<forall>a c. (a, c) \<noteq> (chunkX, chunkZ) \<and> (a, c) \<notin> borderNeighbours x z
                   \<longrightarrow> getChunk w'' a c = getChunk w a c"
      using others by simp
    have c6: "0 < localX \<and> localX < CHUNK_SIZE - 1 \<and> 0 < localZ \<and> localZ < CHUNK_SIZE - 1
                   \<longrightarrow> (\<forall>a c. (a, c) \<noteq> (chunkX, chunkZ) \<longrightarrow> getChunk w'' a c = getChunk w a c)"
    proof
      assume "0 < localX \<and> localX < CHUNK_SIZE - 1 \<and> 0 < localZ \<and> localZ < CHUNK_SIZE - 1"
      then have "borderNeighbours x z = {}" by (simp add: nb)
      then show "\<forall>a c. (a, c) \<noteq> (chunkX, chunkZ) \<longrightarrow> getChunk w'' a c = getChunk w a c"
        using others by simp
    qed
    have c7: "\<forall>a c. (a, c) \<noteq> (chunkX, chunkZ) \<and> getChunk w a c = None \<longrightarrow> getChunk w'' a c = None"
      using others by simp
    have r: "World_setBlock (Suc depth) env (w, k) x y z b = Inr (True, (w'', k1))"
      using run by (simp only: w''_def)
    show "\<exists>w'' k''. World_setBlock (Suc depth) env (w, k) x y z b = Inr (True, (w'', k''))
         \<and> (let chunkX = x div CHUNK_SIZE; chunkZ = z div CHUNK_SIZE;
                 localX = x - chunkX * CHUNK_SIZE; localZ = z - chunkZ * CHUNK_SIZE
             in (\<forall>n. localX = 0 \<and> getChunk w (chunkX - 1) chunkZ = Some n
                     \<longrightarrow> getChunk w'' (chunkX - 1) chunkZ = Some (n\<lparr>dirty := True\<rparr>))
              \<and> (\<forall>n. localX = CHUNK_SIZE - 1 \<and> getChunk w (chunkX + 1) chunkZ = Some n
                     \<longrightarrow> getChunk w'' (chunkX + 1) chunkZ = Some (n\<lparr>dirty := True\<rparr>))
              \<and> (\<forall>n. localZ = 0 \<and> getChunk w chunkX (chunkZ - 1) = Some n
                     \<longrightarrow> getChunk w'' chunkX (chunkZ - 1) = Some (n\<lparr>dirty := True\<rparr>))
              \<and> (\<forall>n. localZ = CHUNK_SIZE - 1 \<and> getChunk w chunkX (chunkZ + 1) = Some n
                     \<longrightarrow> getChunk w'' chunkX (chunkZ + 1) = Some (n\<lparr>dirty := True\<rparr>))
              \<and> (\<forall>a c. (a, c) \<noteq> (chunkX, chunkZ) \<and> (a, c) \<notin> borderNeighbours x z
                     \<longrightarrow> getChunk w'' a c = getChunk w a c)
              \<and> (0 < localX \<and> localX < CHUNK_SIZE - 1 \<and> 0 < localZ \<and> localZ < CHUNK_SIZE - 1
                     \<longrightarrow> (\<forall>a c. (a, c) \<noteq> (chunkX, chunkZ) \<longrightarrow> getChunk w'' a c = getChunk w a c))
              \<and> (\<forall>a c. (a, c) \<noteq> (chunkX, chunkZ) \<and> getChunk w a c = None
                     \<longrightarrow> getChunk w'' a c = None))"
      apply (rule exI[of _ w''])
      apply (rule exI[of _ k1])
      unfolding Let_def chunkX_def[symmetric] chunkZ_def[symmetric]
      unfolding localX_def[symmetric] localZ_def[symmetric]
      by (intro conjI) (fact r, fact c1, fact c2, fact c3, fact c4, fact c5, fact c6, fact c7)
  qed
qed

lemma chunkColumns_rows:
  "chunkColumns = concat (map (\<lambda>x. map (\<lambda>z. (x, z)) [0,1,2,3,4,5,6,7,8,9,10,11,12,13,14,15])
                     [0,1,2,3,4,5,6,7,8,9,10,11,12,13,14,15])"
proof -
  have "[0..CHUNK_SIZE - 1] = [0,1,2,3,4,5,6,7,8,9,10,11,12,13,14,15]"
    by (simp add: CHUNK_SIZE_def upto_rec1)
  then show ?thesis by (simp only: chunkColumns_def)
qed

lemma treeColumns_groveEnv:
  "treeColumns groveEnv emptyWorld (0, 0) chunkColumns 0 = [(8, 8)]"
  unfolding chunkColumns_rows
  by (simp add: columnHeight_flat groveEnv_def CHUNK_HEIGHT_def treeChance_def)

lemma treesInside_groveEnv: "treesInside groveEnv (emptyWorld, 0) (0, 0)"
  by (simp add: treesInside_def treeColumns_groveEnv CHUNK_SIZE_def)
theorem setBlock_border_dirty_witness:
  "(\<exists>w' k'. World_setBlock (Suc 0) quietEnv
        (\<lparr>seed = 42, chunks = [((0, 0), newChunk 0 0), ((-1, 0), (newChunk (-1) 0)\<lparr>dirty := False\<rparr>),
                                ((0, 1), (newChunk 0 1)\<lparr>dirty := False\<rparr>)]\<rparr>, 0)
        0 10 8 STONE = Inr (True, (w', k'))
     \<and> getChunk w' (-1) 0 = Some (newChunk (-1) 0)
     \<and> (\<exists>n. getChunk w' (-1) 0 = Some n \<and> dirty n)
     \<and> getChunk w' 0 1 = Some ((newChunk 0 1)\<lparr>dirty := False\<rparr>)
     \<and> getChunk w' 1 0 = None)
   \<and> getChunk emptyWorld 0 0 = None
   \<and> treesInside groveEnv (emptyWorld, 0) (0, 0)
   \<and> (\<exists>w' k'. World_setBlock (Suc 0) groveEnv (emptyWorld, 0) 8 30 8 STONE = Inr (True, (w', k'))
        \<and> getChunk w' (-1) 0 = None \<and> getChunk w' 1 0 = None
        \<and> getChunk w' 0 (-1) = None \<and> getChunk w' 0 1 = None)"
proof -
  let ?w = "\<lparr>seed = 42, chunks = [((0, 0), newChunk 0 0), ((-1, 0), (newChunk (-1) 0)\<lparr>dirty := False\<rparr>),
                                   ((0, 1), (newChunk 0 1)\<lparr>dirty := False\<rparr>)]\<rparr>"
  have nb: "borderNeighbours 0 8 = {(-1, 0)}"
    by (simp add: borderNeighbours_def CHUNK_SIZE_def)
  have h1: "(0::int) \<le> 10 \<and> 10 < CHUNK_HEIGHT
        \<and> (getChunk ?w (0 div CHUNK_SIZE) (8 div CHUNK_SIZE) \<noteq> None
           \<or> treesInside quietEnv (?w, 0) (0 div CHUNK_SIZE, 8 div CHUNK_SIZE))"
    by (simp add: getChunk_def CHUNK_SIZE_def CHUNK_HEIGHT_def)
  from setBlock_border_dirty[where y = 10 and depth = 0 and env = quietEnv and w = ?w and k = 0
      and x = 0 and z = 8 and b = STONE, THEN conjunct2, rule_format, OF h1]
  obtain w' k' where
    run: "World_setBlock (Suc 0) quietEnv (?w, 0) 0 10 8 STONE = Inr (True, (w', k'))" and
    left: "\<forall>n. (0::int) - 0 div CHUNK_SIZE * CHUNK_SIZE = 0 \<and> getChunk ?w (0 div CHUNK_SIZE - 1) (8 div CHUNK_SIZE) = Some n
                 \<longrightarrow> getChunk w' (0 div CHUNK_SIZE - 1) (8 div CHUNK_SIZE) = Some (n\<lparr>dirty := True\<rparr>)" and
    rest: "\<forall>a c. (a, c) \<noteq> (0 div CHUNK_SIZE, 8 div CHUNK_SIZE) \<and> (a, c) \<notin> borderNeighbours 0 8
                 \<longrightarrow> getChunk w' a c = getChunk ?w a c"
    unfolding Let_def by blast
  have h2: "(0::int) \<le> 10 \<and> 10 < CHUNK_HEIGHT
      \<and> World_setBlock (Suc 0) quietEnv (?w, 0) 0 10 8 STONE = Inr (True, (w', k'))"
    using run by (simp add: CHUNK_HEIGHT_def)
  from setBlock_border_dirty[where y = 10 and depth = "Suc 0" and env = quietEnv and w = ?w and k = 0
      and x = 0 and z = 8 and b = STONE and r = True and w' = w' and k' = k', THEN conjunct1, rule_format, OF h2]
  have marked: "\<exists>n. getChunk w' (-1) 0 = Some n \<and> dirty n"
    unfolding Let_def by (simp add: CHUNK_SIZE_def getChunk_def)
  have a1: "getChunk w' (-1) 0 = Some (newChunk (-1) 0)"
    using left by (simp add: CHUNK_SIZE_def getChunk_def newChunk_def)
  have a2: "getChunk w' 0 1 = Some ((newChunk 0 1)\<lparr>dirty := False\<rparr>)"
    using rest nb by (simp add: CHUNK_SIZE_def) (simp add: getChunk_def)
  have a3: "getChunk w' 1 0 = None"
    using rest nb by (simp add: CHUNK_SIZE_def) (simp add: getChunk_def)
  have first: "\<exists>w' k'. World_setBlock (Suc 0) quietEnv (?w, 0) 0 10 8 STONE = Inr (True, (w', k'))
     \<and> getChunk w' (-1) 0 = Some (newChunk (-1) 0)
     \<and> (\<exists>n. getChunk w' (-1) 0 = Some n \<and> dirty n)
     \<and> getChunk w' 0 1 = Some ((newChunk 0 1)\<lparr>dirty := False\<rparr>)
     \<and> getChunk w' 1 0 = None"
    using run a1 marked a2 a3 by blast
  have absent: "getChunk emptyWorld 0 0 = None" by (simp add: getChunk_def emptyWorld_def)
  have h3: "(0::int) \<le> 30 \<and> 30 < CHUNK_HEIGHT
        \<and> (getChunk emptyWorld (8 div CHUNK_SIZE) (8 div CHUNK_SIZE) \<noteq> None
           \<or> treesInside groveEnv (emptyWorld, 0) (8 div CHUNK_SIZE, 8 div CHUNK_SIZE))"
    using treesInside_groveEnv by (simp add: CHUNK_SIZE_def CHUNK_HEIGHT_def)
  from setBlock_border_dirty[where y = 30 and depth = 0 and env = groveEnv and w = emptyWorld and k = 0
      and x = 8 and z = 8 and b = STONE, THEN conjunct2, rule_format, OF h3]
  obtain v' j' where
    run2: "World_setBlock (Suc 0) groveEnv (emptyWorld, 0) 8 30 8 STONE = Inr (True, (v', j'))" and
    none: "\<forall>a c. (a, c) \<noteq> (8 div CHUNK_SIZE, 8 div CHUNK_SIZE) \<and> getChunk emptyWorld a c = None
                 \<longrightarrow> getChunk v' a c = None"
    unfolding Let_def by blast
  have e: "getChunk emptyWorld a c = None" for a c by (simp add: getChunk_def emptyWorld_def)
  have "getChunk v' (-1) 0 = None" "getChunk v' 1 0 = None" "getChunk v' 0 (-1) = None" "getChunk v' 0 1 = None"
    using none e by (simp_all add: CHUNK_SIZE_def)
  with run2 have second: "\<exists>w' k'. World_setBlock (Suc 0) groveEnv (emptyWorld, 0) 8 30 8 STONE = Inr (True, (w', k'))
        \<and> getChunk w' (-1) 0 = None \<and> getChunk w' 1 0 = None
        \<and> getChunk w' 0 (-1) = None \<and> getChunk w' 0 1 = None"
    by blast
  show ?thesis using first absent treesInside_groveEnv second by blast
qed

section \<open>What generation leaves in a cell\<close>







lemma fillBlock_outside: "y < 0 \<or> y \<ge> CHUNK_HEIGHT \<Longrightarrow> fillBlock h y = AIR"
  by (auto simp: fillBlock_def)

lemma cellsKept_refl [simp]: "cellsKept env st st"
  by (simp add: cellsKept_def)






















section \<open>Column fill\<close>





section \<open>Leaves over a neighbouring column\<close>







end
